(* ===== verification/SgosPrelude.thy ===== *)
theory SgosPrelude
  imports Main "HOL-Library.AList"
begin

text \<open>
  The prelude of the development: how the JavaScript sources' control flow is rendered.

  A function of the source that can throw returns a value of type \<open>'a result\<close>. The
  \<open>Inl\<close> side is the exception: \<open>Refused code\<close> is an error raised by the module's own
  \<open>fail(...)\<close> helper and carries the \<open>code\<close> property callers dispatch on (the human
  message and the \<open>details\<close> object are diagnostics and are not modelled);
  \<open>NativeError\<close> is a \<open>TypeError\<close> thrown by the language, for example reading a
  property of \<open>undefined\<close> or spreading \<open>null\<close>.

  \<open>andThen\<close> is sequencing, \<open>checks\<close> a block of guard statements run in order,
  \<open>mapResult\<close> the callback of \<open>Array.prototype.map\<close> that may throw, and
  \<open>dedupe\<close> is \<open>[...new Set(xs)]\<close>: the first occurrence of every value, in order.
  A JavaScript \<open>Map\<close> or object under construction is an association list with the
  library's \<open>AList.update\<close>, which overwrites in place and appends a new key at the end,
  as \<open>Map.prototype.set\<close> does.
\<close>

named_theorems result_simps \<open>rewrite rules that take apart a successful computation\<close>
named_theorems set_simps \<open>the elements of lists built by the library's list functions\<close>

section \<open>Results\<close>

datatype sgos_error = Refused string | NativeError

type_synonym 'a result = "sgos_error + 'a"

abbreviation fail :: "string \<Rightarrow> 'a result" where
  "fail code \<equiv> Inl (Refused code)"

fun andThen :: "'a result \<Rightarrow> ('a \<Rightarrow> 'b result) \<Rightarrow> 'b result" where
  "andThen (Inl e) f = Inl e"
| "andThen (Inr x) f = f x"

fun mapResult :: "('a \<Rightarrow> 'b result) \<Rightarrow> 'a list \<Rightarrow> 'b list result" where
  "mapResult f [] = Inr []"
| "mapResult f (x # xs) = andThen (f x) (\<lambda>y. andThen (mapResult f xs) (\<lambda>ys. Inr (y # ys)))"

fun foldResult :: "('s \<Rightarrow> 'a \<Rightarrow> 's result) \<Rightarrow> 's \<Rightarrow> 'a list \<Rightarrow> 's result" where
  "foldResult f s [] = Inr s"
| "foldResult f s (x # xs) = andThen (f s x) (\<lambda>s'. foldResult f s' xs)"

fun checks :: "unit result list \<Rightarrow> unit result" where
  "checks [] = Inr ()"
| "checks (c # cs) = andThen c (\<lambda>_. checks cs)"

definition refuseIf :: "bool \<Rightarrow> string \<Rightarrow> unit result" where
  "refuseIf b code = (if b then fail code else Inr ())"

definition eachOf :: "('a \<Rightarrow> unit result) \<Rightarrow> 'a list \<Rightarrow> unit result" where
  "eachOf f xs = checks (map f xs)"

definition recode :: "string \<Rightarrow> 'a result \<Rightarrow> 'a result" where
  "recode code r = (case r of Inl _ \<Rightarrow> fail code | Inr x \<Rightarrow> Inr x)"

lemma andThen_Inr [result_simps]: "andThen m f = Inr y \<longleftrightarrow> (\<exists>x. m = Inr x \<and> f x = Inr y)"
  by (cases m) auto

text \<open>Evaluation stops at the first error: the continuation is not rewritten before it is called.\<close>

lemma andThen_unfold [code_unfold]: "andThen m f = (case m of Inl e \<Rightarrow> Inl e | Inr x \<Rightarrow> f x)"
  by (cases m) simp_all

lemma andThen_assoc: "andThen (andThen m f) g = andThen m (\<lambda>x. andThen (f x) g)"
  by (cases m) auto

lemma foldResult_append: "foldResult f s (xs @ ys) = andThen (foldResult f s xs) (\<lambda>t. foldResult f t ys)"
  by (induction xs arbitrary: s) (auto simp: andThen_assoc)

lemma andThen_cong [fundef_cong]:
  "m = m' \<Longrightarrow> (\<And>x. m' = Inr x \<Longrightarrow> f x = f' x) \<Longrightarrow> andThen m f = andThen m' f'"
  by (cases m') auto

lemma mapResult_cong [fundef_cong]:
  "xs = xs' \<Longrightarrow> (\<And>x. x \<in> set xs' \<Longrightarrow> f x = f' x) \<Longrightarrow> mapResult f xs = mapResult f' xs'"
  by (induction xs' arbitrary: xs) auto

lemma mapResult_Inr [result_simps]:
  "mapResult f xs = Inr ys \<longleftrightarrow> list_all2 (\<lambda>x y. f x = Inr y) xs ys"
proof (induction xs arbitrary: ys)
  case Nil
  then show ?case by auto
next
  case (Cons x xs)
  then show ?case by (cases ys) (auto simp: andThen_Inr)
qed

lemma mapResult_projr:
  "mapResult f xs = Inr ys \<longleftrightarrow> (\<forall>x \<in> set xs. \<exists>y. f x = Inr y) \<and> ys = map (\<lambda>x. projr (f x)) xs"
  by (induction xs arbitrary: ys) (auto simp: andThen_Inr)

lemma mapResult_Inr_map: "mapResult (\<lambda>x. Inr (f x)) xs = Inr (map f xs)"
  by (induction xs) auto

lemma checks_Inr [result_simps]: "checks cs = Inr u \<longleftrightarrow> (\<forall>c \<in> set cs. c = Inr ())"
  by (induction cs) (auto simp: andThen_Inr)

lemma refuseIf_Inr [result_simps, simp]: "refuseIf b code = Inr u \<longleftrightarrow> \<not> b"
  by (auto simp: refuseIf_def)

lemma eachOf_Inr [result_simps]: "eachOf f xs = Inr u \<longleftrightarrow> (\<forall>x \<in> set xs. f x = Inr ())"
  by (auto simp: eachOf_def checks_Inr)

lemma eachOf_cong [fundef_cong]:
  "xs = xs' \<Longrightarrow> (\<And>x. x \<in> set xs' \<Longrightarrow> f x = f' x) \<Longrightarrow> eachOf f xs = eachOf f' xs'"
  by (auto simp: eachOf_def intro!: arg_cong [where f = checks])

lemma recode_Inr [result_simps]: "recode code r = Inr x \<longleftrightarrow> r = Inr x"
  by (auto simp: recode_def split: sum.splits)

lemma if_fail_Inr [result_simps]: "(if b then fail code else m) = Inr x \<longleftrightarrow> \<not> b \<and> m = Inr x"
  by auto

lemma set_map_filter: "set (List.map_filter f xs) = {y. \<exists>x \<in> set xs. f x = Some y}"
  by (induction xs) (auto simp: map_filter_simps split: option.splits)

lemma length_map_filter:
  "(\<forall>x \<in> set xs. \<exists>y. f x = Some y) \<Longrightarrow> length (List.map_filter f xs) = length xs"
  by (induction xs) (auto simp: map_filter_simps)

lemma find_append:
  "find P (xs @ ys) = (case find P xs of None \<Rightarrow> find P ys | Some x \<Rightarrow> Some x)"
  by (induction xs) auto

lemma find_in: "find P xs = Some x \<Longrightarrow> x \<in> set xs \<and> P x"
  by (induction xs) (auto split: if_splits)

section \<open>Lists as sets and as maps\<close>

fun dedupe :: "'a list \<Rightarrow> 'a list" where
  "dedupe [] = []"
| "dedupe (x # xs) = x # removeAll x (dedupe xs)"

lemma set_dedupe [simp, set_simps]: "set (dedupe xs) = set xs"
  by (induction xs) auto

lemma distinct_dedupe [simp]: "distinct (dedupe xs)"
  by (induction xs) (auto simp: distinct_removeAll)

lemma dedupe_distinct: "distinct xs \<Longrightarrow> dedupe xs = xs"
  by (induction xs) (auto simp: removeAll_id)

lemma length_dedupe: "length (dedupe xs) = length xs \<longleftrightarrow> distinct xs"
proof
  assume "length (dedupe xs) = length xs"
  then have "card (set xs) = length xs"
    by (metis distinct_card distinct_dedupe set_dedupe)
  then show "distinct xs" by (rule card_distinct)
next
  assume "distinct xs"
  then show "length (dedupe xs) = length xs" by (simp add: dedupe_distinct)
qed

definition lookupList :: "('k \<times> 'v list) list \<Rightarrow> 'k \<Rightarrow> 'v list" where
  "lookupList m k = (case map_of m k of None \<Rightarrow> [] | Some xs \<Rightarrow> xs)"

lemma lookupList_Nil [simp]: "lookupList [] k = []"
  by (simp add: lookupList_def)

lemma lookupList_map: "lookupList (map (\<lambda>k. (k, f k)) ks) k = (if k \<in> set ks then f k else [])"
  by (induction ks) (auto simp: lookupList_def)

lemma list_all2_in_right: "list_all2 P xs ys \<Longrightarrow> y \<in> set ys \<Longrightarrow> \<exists>x \<in> set xs. P x y"
  by (induction rule: list_all2_induct) auto

lemma list_all2_in_left: "list_all2 P xs ys \<Longrightarrow> x \<in> set xs \<Longrightarrow> \<exists>y \<in> set ys. P x y"
  by (induction rule: list_all2_induct) auto

definition adjacentPairs :: "'a list \<Rightarrow> ('a \<times> 'a) list" where
  "adjacentPairs xs = zip xs (tl xs)"

text \<open>
  \<open>xs.some((x, i) => i > 0 && bad(xs[i - 1], x))\<close> looks at the adjacent pairs; for a
  transitive order, no bad adjacent pair means a sorted list.
\<close>

lemma adjacentPairs_simps [simp]:
  "adjacentPairs [] = []" "adjacentPairs [x] = []"
  "adjacentPairs (x # y # zs) = (x, y) # adjacentPairs (y # zs)"
  by (simp_all add: adjacentPairs_def)

lemma adjacentPairs_sorted_wrt:
  assumes "transp R"
  shows "(\<forall>(x, y) \<in> set (adjacentPairs xs). R x y) \<longleftrightarrow> sorted_wrt R xs"
proof (induction xs rule: induct_list012)
  case (3 x y zs)
  have "sorted_wrt R (x # y # zs) \<longleftrightarrow> R x y \<and> sorted_wrt R (y # zs)"
    using assms by (auto dest: transpD)
  with 3 show ?case by auto
qed auto

end
