(* ===== verification/JsValue.thy ===== *)
theory JsValue
  imports SgosPrelude
begin

text \<open>
  The JavaScript values the modelled modules inspect before they have validated them, and the
  operators of the language they apply to such values.

  \<^item> A string is a list of characters of code point below 256, so one \<open>char\<close> is one UTF-16
    unit and one code point. On such strings \<open>normalize('NFC')\<close> is the identity.
  \<^item> \<open>JNum n\<close> is a number that prints as the integer numeral of \<open>n\<close> (magnitude below
    \<open>10^21\<close>). \<open>JFrac t\<close> is any other number, kept as its printed form \<open>t\<close>: a
    fraction, \<open>NaN\<close> or an infinity.
  \<^item> \<open>JObj fs\<close> is a plain object with its own enumerable fields in enumeration order.
    Properties inherited from \<open>Object.prototype\<close> are not modelled.
\<close>

section \<open>Values\<close>

datatype jsval =
    JUndef
  | JNull
  | JBool bool
  | JNum int
  | JFrac string
  | JStr string
  | JArr "jsval list"
  | JObj "(string \<times> jsval) list"

type_synonym fields = "(string \<times> jsval) list"

definition nullish :: "jsval \<Rightarrow> bool" where
  "nullish v \<longleftrightarrow> v = JUndef \<or> v = JNull"

text \<open>The operator \<open>a ?? b\<close>.\<close>

definition coalesce :: "jsval \<Rightarrow> jsval \<Rightarrow> jsval" where
  "coalesce a b = (if nullish a then b else a)"

fun coalesceAll :: "jsval list \<Rightarrow> jsval" where
  "coalesceAll [] = JUndef"
| "coalesceAll [v] = v"
| "coalesceAll (v # vs) = coalesce v (coalesceAll vs)"

fun truthy :: "jsval \<Rightarrow> bool" where
  "truthy JUndef = False"
| "truthy JNull = False"
| "truthy (JBool b) = b"
| "truthy (JNum n) = (n \<noteq> 0)"
| "truthy (JFrac t) = (t \<noteq> ''NaN'')"
| "truthy (JStr s) = (s \<noteq> [])"
| "truthy (JArr _) = True"
| "truthy (JObj _) = True"

fun isString :: "jsval \<Rightarrow> bool" where
  "isString (JStr _) = True" | "isString _ = False"

fun isBoolean :: "jsval \<Rightarrow> bool" where
  "isBoolean (JBool _) = True" | "isBoolean _ = False"

fun isNumber :: "jsval \<Rightarrow> bool" where
  "isNumber (JNum _) = True" | "isNumber (JFrac _) = True" | "isNumber _ = False"

fun isArray :: "jsval \<Rightarrow> bool" where
  "isArray (JArr _) = True" | "isArray _ = False"

text \<open>\<open>Boolean(v) && typeof v === 'object' && !Array.isArray(v)\<close>.\<close>

fun plainObject :: "jsval \<Rightarrow> bool" where
  "plainObject (JObj _) = True" | "plainObject _ = False"

fun elements :: "jsval \<Rightarrow> jsval list" where
  "elements (JArr xs) = xs" | "elements _ = []"

fun fieldsOf :: "jsval \<Rightarrow> fields" where
  "fieldsOf (JObj fs) = fs" | "fieldsOf _ = []"

fun stringOf :: "jsval \<Rightarrow> string" where
  "stringOf (JStr s) = s" | "stringOf _ = []"

fun numberOf :: "jsval \<Rightarrow> int" where
  "numberOf (JNum n) = n" | "numberOf _ = 0"

text \<open>\<open>Number.isSafeInteger\<close> and \<open>Number.isInteger\<close>.\<close>

definition maxSafeInteger :: int where
  "maxSafeInteger = 9007199254740991"

fun isSafeInteger :: "jsval \<Rightarrow> bool" where
  "isSafeInteger (JNum n) = (\<bar>n\<bar> \<le> maxSafeInteger)" | "isSafeInteger _ = False"

fun isInteger :: "jsval \<Rightarrow> bool" where
  "isInteger (JNum _) = True" | "isInteger _ = False"

section \<open>Characters and strings\<close>

definition codePoint :: "char \<Rightarrow> nat" where
  "codePoint c = of_char c"

lemma codePoint_inj [simp]: "codePoint c = codePoint d \<longleftrightarrow> c = d"
  by (simp add: codePoint_def)

text \<open>White space and line terminators of the language below code point 256.\<close>

definition isSpace :: "char \<Rightarrow> bool" where
  "isSpace c \<longleftrightarrow> codePoint c \<in> {9, 10, 11, 12, 13, 32, 160}"

definition isDigit :: "char \<Rightarrow> bool" where
  "isDigit c \<longleftrightarrow> 48 \<le> codePoint c \<and> codePoint c \<le> 57"

definition isLower :: "char \<Rightarrow> bool" where
  "isLower c \<longleftrightarrow> 97 \<le> codePoint c \<and> codePoint c \<le> 122"

definition isUpper :: "char \<Rightarrow> bool" where
  "isUpper c \<longleftrightarrow> 65 \<le> codePoint c \<and> codePoint c \<le> 90"

definition isAlnum :: "char \<Rightarrow> bool" where
  "isAlnum c \<longleftrightarrow> isDigit c \<or> isLower c \<or> isUpper c"

definition isHex :: "char \<Rightarrow> bool" where
  "isHex c \<longleftrightarrow> isDigit c \<or> (97 \<le> codePoint c \<and> codePoint c \<le> 102)"

text \<open>\<open>/[\\u0000-\\u001f\\u007f]/\<close>.\<close>

definition isControl :: "char \<Rightarrow> bool" where
  "isControl c \<longleftrightarrow> codePoint c < 32 \<or> codePoint c = 127"

text \<open>The same classes on the bits of a character, which is how they are evaluated.\<close>

lemma charClass_code [code]:
  "isDigit (Char a b c d e f g h) \<longleftrightarrow> \<not> h \<and> \<not> g \<and> f \<and> e \<and> (d \<longrightarrow> \<not> c \<and> \<not> b)"
  "isLower (Char a b c d e f g h) \<longleftrightarrow> \<not> h \<and> g \<and> f \<and> (a \<or> b \<or> c \<or> d \<or> e) \<and> \<not> (e \<and> d \<and> (c \<or> b \<and> a))"
  "isUpper (Char a b c d e f g h) \<longleftrightarrow> \<not> h \<and> g \<and> \<not> f \<and> (a \<or> b \<or> c \<or> d \<or> e) \<and> \<not> (e \<and> d \<and> (c \<or> b \<and> a))"
  "isSpace (Char a b c d e f g h) \<longleftrightarrow> \<not> g \<and> \<not> e \<and>
     (if f then \<not> a \<and> \<not> b \<and> \<not> c \<and> \<not> d else \<not> h \<and> d \<and> (a \<or> b \<or> c) \<and> \<not> (c \<and> b))"
  "isControl (Char a b c d e f g h) \<longleftrightarrow> \<not> h \<and> (\<not> g \<and> \<not> f \<or> g \<and> f \<and> e \<and> d \<and> c \<and> b \<and> a)"
  by (cases a; cases b; cases c; cases d; cases e; cases f; cases g; cases h;
      simp add: isDigit_def isLower_def isUpper_def isSpace_def isControl_def codePoint_def)+

lemma isHex_code [code]:
  "isHex (Char a b c d e f g h) \<longleftrightarrow> isDigit (Char a b c d e f g h) \<or>
     \<not> h \<and> g \<and> f \<and> \<not> e \<and> \<not> d \<and> (a \<or> b \<or> c) \<and> \<not> (a \<and> b \<and> c)"
  by (cases a; cases b; cases c; cases d; cases e; cases f; cases g; cases h;
      simp add: isHex_def isDigit_def codePoint_def)

definition trimStart :: "string \<Rightarrow> string" where
  "trimStart s = dropWhile isSpace s"

definition trim :: "string \<Rightarrow> string" where
  "trim s = rev (dropWhile isSpace (rev (dropWhile isSpace s)))"

definition toUpperChar :: "char \<Rightarrow> char" where
  "toUpperChar c = (if isLower c then char_of (codePoint c - 32) else c)"

definition toLowerChar :: "char \<Rightarrow> char" where
  "toLowerChar c = (if isUpper c then char_of (codePoint c + 32) else c)"

text \<open>
  \<open>toUpperCase\<close> and \<open>toLowerCase\<close> are used by the sources only to look a name up in an
  ASCII vocabulary; the case pairs above code point 127 are left alone here.
\<close>

definition toUpperCase :: "string \<Rightarrow> string" where "toUpperCase = map toUpperChar"
definition toLowerCase :: "string \<Rightarrow> string" where "toLowerCase = map toLowerChar"

fun splitOn :: "char \<Rightarrow> string \<Rightarrow> string list" where
  "splitOn d [] = [[]]"
| "splitOn d (c # cs) =
     (if c = d then [] # splitOn d cs
      else (case splitOn d cs of [] \<Rightarrow> [[c]] | w # ws \<Rightarrow> (c # w) # ws))"

definition startsWith :: "string \<Rightarrow> string \<Rightarrow> bool" where
  "startsWith s p \<longleftrightarrow> take (length p) s = p"

definition endsWith :: "string \<Rightarrow> string \<Rightarrow> bool" where
  "endsWith s p \<longleftrightarrow> drop (length s - length p) s = p \<and> length p \<le> length s"

fun joinWith :: "string \<Rightarrow> string list \<Rightarrow> string" where
  "joinWith d [] = []"
| "joinWith d [w] = w"
| "joinWith d (w # ws) = w @ d @ joinWith d ws"

fun showNat :: "nat \<Rightarrow> string" where
  "showNat n = (if n < 10 then [char_of (48 + n)] else showNat (n div 10) @ [char_of (48 + n mod 10)])"

declare showNat.simps [simp del]

lemma showNat_digits: "list_all isDigit (showNat n)"
proof (induction n rule: showNat.induct)
  case (1 n)
  have "isDigit (char_of (48 + m))" if "m < 10" for m :: nat
    using that by (simp add: isDigit_def codePoint_def)
  with 1 show ?case by (subst showNat.simps) auto
qed

definition showInt :: "int \<Rightarrow> string" where
  "showInt n = (if n < 0 then CHR ''-'' # showNat (nat (- n)) else showNat (nat n))"

text \<open>The canonical array index keys: \<open>"0"\<close>, \<open>"1"\<close>, ... below \<open>2^32 - 1\<close>.\<close>

definition decimalValue :: "string \<Rightarrow> nat" where
  "decimalValue s = foldl (\<lambda>n c. 10 * n + (codePoint c - 48)) 0 s"

definition arrayIndex :: "string \<Rightarrow> nat option" where
  "arrayIndex s =
     (if s \<noteq> [] \<and> list_all isDigit s \<and> (s = ''0'' \<or> hd s \<noteq> CHR ''0'') \<and> decimalValue s < 4294967295
      then Some (decimalValue s) else None)"

section \<open>Properties and conversions\<close>

text \<open>
  \<open>v?.k\<close>: the property \<open>k\<close> of \<open>v\<close>, \<open>undefined\<close> where there is none. Used for
  \<open>v.k\<close> as well where the source has already established that \<open>v\<close> is an object; where it
  has not, \<open>propOf\<close> raises the language's \<open>TypeError\<close>.
\<close>

fun getp :: "jsval \<Rightarrow> string \<Rightarrow> jsval" where
  "getp (JObj fs) k = (case map_of fs k of None \<Rightarrow> JUndef | Some v \<Rightarrow> v)"
| "getp (JArr xs) k =
     (if k = ''length'' then JNum (int (length xs))
      else (case arrayIndex k of Some i \<Rightarrow> if i < length xs then xs ! i else JUndef | None \<Rightarrow> JUndef))"
| "getp (JStr s) k =
     (if k = ''length'' then JNum (int (length s))
      else (case arrayIndex k of Some i \<Rightarrow> if i < length s then JStr [s ! i] else JUndef | None \<Rightarrow> JUndef))"
| "getp _ k = JUndef"

definition propOf :: "jsval \<Rightarrow> string \<Rightarrow> jsval result" where
  "propOf v k = (if nullish v then Inl NativeError else Inr (getp v k))"

definition hasOwn :: "jsval \<Rightarrow> string \<Rightarrow> bool" where
  "hasOwn v k \<longleftrightarrow> k \<in> set (map fst (fieldsOf v))"

text \<open>\<open>Object.entries(v)\<close> of any value that is not nullish.\<close>

fun entries :: "jsval \<Rightarrow> fields" where
  "entries (JObj fs) = fs"
| "entries (JArr xs) = zip (map showNat [0..<length xs]) xs"
| "entries (JStr s) = zip (map showNat [0..<length s]) (map (\<lambda>c. JStr [c]) s)"
| "entries _ = []"

text \<open>
  \<open>String(v)\<close>. The elements of an array are joined with commas, nullish ones as empty
  strings; a plain object prints as \<open>[object Object]\<close>.
\<close>

fun jsString :: "jsval \<Rightarrow> string" where
  "jsString JUndef = ''undefined''"
| "jsString JNull = ''null''"
| "jsString (JBool b) = (if b then ''true'' else ''false'')"
| "jsString (JNum n) = showInt n"
| "jsString (JFrac t) = t"
| "jsString (JStr s) = s"
| "jsString (JArr xs) = joinWith '','' (map (\<lambda>x. if nullish x then [] else jsString x) xs)"
| "jsString (JObj _) = ''[object Object]''"

text \<open>
  Object literals. \<open>setField\<close> is an assignment \<open>o.k = v\<close>, \<open>deleteField\<close> is
  \<open>delete o.k\<close> and \<open>spread base more\<close> is \<open>{ ...base, ...more }\<close> on own fields. An
  assignment appends; the sources reach an integer-like key only through \<open>fromEntries\<close>, which
  puts those keys first in ascending order, as the language enumerates them.
\<close>

definition setField :: "string \<Rightarrow> jsval \<Rightarrow> fields \<Rightarrow> fields" where
  "setField k v fs = AList.update k v fs"

definition deleteField :: "string \<Rightarrow> fields \<Rightarrow> fields" where
  "deleteField k fs = filter (\<lambda>f. fst f \<noteq> k) fs"

definition spread :: "fields \<Rightarrow> fields \<Rightarrow> fields" where
  "spread base more = foldl (\<lambda>fs (k, v). setField k v fs) base more"

fun insertIndexed :: "nat \<times> string \<times> jsval \<Rightarrow> (nat \<times> string \<times> jsval) list \<Rightarrow> (nat \<times> string \<times> jsval) list" where
  "insertIndexed e [] = [e]"
| "insertIndexed e (f # fs) = (if fst e \<le> fst f then e # f # fs else f # insertIndexed e fs)"

definition enumerationOrder :: "fields \<Rightarrow> fields" where
  "enumerationOrder fs =
     map snd (foldr insertIndexed
       (List.map_filter (\<lambda>f. map_option (\<lambda>i. (i, f)) (arrayIndex (fst f))) fs) [])
     @ filter (\<lambda>f. arrayIndex (fst f) = None) fs"

definition fromEntries :: "fields \<Rightarrow> fields" where
  "fromEntries es = enumerationOrder (spread [] es)"

definition optField :: "bool \<Rightarrow> string \<Rightarrow> jsval \<Rightarrow> fields" where
  "optField b k v = (if b then [(k, v)] else [])"

section \<open>Lemmas\<close>

lemma nullish_simps [simp]:
  "nullish JUndef" "nullish JNull" "\<not> nullish (JBool b)" "\<not> nullish (JNum n)"
  "\<not> nullish (JFrac t)" "\<not> nullish (JStr s)" "\<not> nullish (JArr xs)" "\<not> nullish (JObj fs)"
  by (simp_all add: nullish_def)

lemma coalesce_simps [simp]:
  "coalesce JUndef b = b" "coalesce JNull b = b" "coalesce (JBool c) b = JBool c"
  "coalesce (JNum n) b = JNum n" "coalesce (JFrac t) b = JFrac t" "coalesce (JStr s) b = JStr s"
  "coalesce (JArr xs) b = JArr xs" "coalesce (JObj fs) b = JObj fs"
  by (simp_all add: coalesce_def)

lemma plainObject_iff: "plainObject v \<longleftrightarrow> (\<exists>fs. v = JObj fs)"
  by (cases v) auto

lemma isArray_iff: "isArray v \<longleftrightarrow> (\<exists>xs. v = JArr xs)"
  by (cases v) auto

lemma isString_iff: "isString v \<longleftrightarrow> (\<exists>s. v = JStr s)"
  by (cases v) auto

lemma isSafeInteger_iff: "isSafeInteger v \<longleftrightarrow> (\<exists>n. v = JNum n \<and> \<bar>n\<bar> \<le> maxSafeInteger)"
  by (cases v) auto

lemma trimStart_idem: "dropWhile P (dropWhile P xs) = dropWhile P xs"
  by (rule dropWhile_idem)

lemma dropWhile_rev_Nil: "dropWhile P xs = [] \<longleftrightarrow> dropWhile P (rev xs) = []"
  by (simp add: dropWhile_eq_Nil_conv)

lemma trim_Nil [simp]: "trim [] = []"
  by (simp add: trim_def)

lemma trim_ends:
  assumes "trim s \<noteq> []"
  shows "\<not> isSpace (hd (trim s))" and "\<not> isSpace (last (trim s))"
proof -
  let ?u = "dropWhile isSpace s"
  let ?v = "dropWhile isSpace (rev ?u)"
  have ne: "?v \<noteq> []" using assms by (simp add: trim_def)
  have "?u \<noteq> []"
  proof
    assume "?u = []"
    with ne show False by simp
  qed
  have "last ?v = last (rev ?u)"
    using ne by (metis last_appendR takeWhile_dropWhile_id)
  then have "hd (trim s) = hd ?u"
    using ne \<open>?u \<noteq> []\<close> by (simp add: trim_def hd_rev last_rev)
  moreover have "\<not> isSpace (hd ?u)"
    using \<open>?u \<noteq> []\<close> by (rule hd_dropWhile)
  ultimately show "\<not> isSpace (hd (trim s))" by simp
  have "\<not> isSpace (hd ?v)" using ne by (rule hd_dropWhile)
  then show "\<not> isSpace (last (trim s))"
    using ne by (simp add: trim_def last_rev)
qed

lemma trim_fixpoint:
  assumes "s = [] \<or> (\<not> isSpace (hd s) \<and> \<not> isSpace (last s))"
  shows "trim s = s"
proof (cases s)
  case (Cons c cs)
  with assms have h: "\<not> isSpace c" and l: "\<not> isSpace (last s)" by auto
  have "dropWhile isSpace s = s" using Cons h by simp
  moreover have "rev s = last s # rev (butlast s)"
    using Cons by (metis append_butlast_last_id list.distinct(1) rev_eq_Cons_iff rev_rev_ident)
  with l have "dropWhile isSpace (rev s) = rev s" by (metis dropWhile.simps(2))
  ultimately show ?thesis by (simp add: trim_def)
qed simp

lemma trim_idem [simp]: "trim (trim s) = trim s"
  using trim_ends trim_fixpoint by blast

lemma trim_length_eq: "length (trim s) = length s \<Longrightarrow> trim s = s"
proof -
  assume len: "length (trim s) = length s"
  have le: "length (dropWhile isSpace u) \<le> length u" for u by (rule length_dropWhile_le)
  have fix_: "dropWhile isSpace u = u" if "length (dropWhile isSpace u) = length u" for u
    using that by (metis le_refl length_dropWhile_le not_less_eq_eq dropWhile_eq_drop drop_eq_Nil
        append_Nil length_append add_cancel_left_left length_0_conv takeWhile_dropWhile_id)
  have "length (dropWhile isSpace s) = length s"
    using len le [of s] le [of "rev (dropWhile isSpace s)"] by (simp add: trim_def)
  moreover from this have "length (dropWhile isSpace (rev s)) = length (rev s)"
    using len fix_ [of s] by (simp add: trim_def)
  ultimately show ?thesis using fix_ [of s] fix_ [of "rev s"] by (simp add: trim_def)
qed

lemma splitOn_not_Nil [simp]: "splitOn d s \<noteq> []"
  by (induction s) (auto split: list.splits)

lemma map_of_setField: "map_of (setField k v fs) = (map_of fs)(k \<mapsto> v)"
  by (simp add: setField_def update_conv')

lemma map_of_spread: "map_of (spread base more) k =
  (case map_of (rev more) k of None \<Rightarrow> map_of base k | Some v \<Rightarrow> Some v)"
proof (induction more arbitrary: base)
  case Nil
  then show ?case by (simp add: spread_def)
next
  case (Cons m more)
  have "spread base (m # more) = spread (setField (fst m) (snd m) base) more"
    by (simp add: spread_def case_prod_beta)
  with Cons show ?case
    by (cases m) (auto simp: map_of_setField map_add_def split: option.splits)
qed

end
