(* ===== verification/JsEvaluation.thy ===== *)
theory JsEvaluation
  imports JsValue
begin

text \<open>
  How the definitions of the development are evaluated on concrete values. The kernel evaluator
  rewrites the arguments of a function before the function and goes through a branch of a
  conditional again once it is chosen; the equations here dispatch on the value of the test
  instead, so that a record is not gone through at every step of a lookup. Every equation is a
  theorem about the function it evaluates; no definition changes.
\<close>

section \<open>Lists\<close>

definition equalRest :: "bool \<Rightarrow> 'a list \<Rightarrow> 'a list \<Rightarrow> bool" where "equalRest same xs ys \<longleftrightarrow> same \<and> xs = ys"

lemma equalRest_code [code]: "equalRest True xs ys \<longleftrightarrow> xs = ys" "equalRest False xs ys \<longleftrightarrow> False"
  by (simp_all add: equalRest_def)

definition allRest :: "bool \<Rightarrow> ('a \<Rightarrow> bool) \<Rightarrow> 'a list \<Rightarrow> bool" where "allRest here P xs \<longleftrightarrow> here \<and> list_all P xs"

lemma allRest_code [code]: "allRest True P xs \<longleftrightarrow> list_all P xs" "allRest False P xs \<longleftrightarrow> False"
  by (simp_all add: allRest_def)

definition lookupRest :: "bool \<Rightarrow> 'b \<Rightarrow> ('a \<times> 'b) list \<Rightarrow> 'a \<Rightarrow> 'b option" where
  "lookupRest here v ps k = (if here then Some v else map_of ps k)"

lemma lookupRest_code [code]: "lookupRest True v ps k = Some v" "lookupRest False v ps k = map_of ps k"
  by (simp_all add: lookupRest_def)

lemma map_of_lazy [code]: "map_of [] k = None" "map_of ((l, v) # ps) k = lookupRest (l = k) v ps k"
  by (simp_all add: lookupRest_def)

definition keepRest :: "bool \<Rightarrow> 'a \<Rightarrow> 'a list \<Rightarrow> 'a list" where "keepRest here x xs = (if here then x # xs else xs)"

lemma keepRest_code [code]: "keepRest True x xs = x # xs" "keepRest False x xs = xs"
  by (simp_all add: keepRest_def)

lemma filter_lazy [code]: "filter P [] = []" "filter P (x # xs) = keepRest (P x) x (filter P xs)"
  by (simp_all add: keepRest_def)

definition updateRest :: "bool \<Rightarrow> 'a \<Rightarrow> 'b \<Rightarrow> 'a \<times> 'b \<Rightarrow> ('a \<times> 'b) list \<Rightarrow> ('a \<times> 'b) list" where
  "updateRest here k v p ps = (if here then (k, v) # ps else p # AList.update k v ps)"

lemma updateRest_code [code]: "updateRest True k v p ps = (k, v) # ps" "updateRest False k v p ps = p # AList.update k v ps"
  by (simp_all add: updateRest_def)

lemma update_lazy [code]: "AList.update k v [] = [(k, v)]" "AList.update k v (p # ps) = updateRest (fst p = k) k v p ps"
  by (simp_all add: updateRest_def)

section \<open>Strings and characters\<close>

lemma equal_list_lazy [code]:
  "HOL.equal [] [] \<longleftrightarrow> True"
  "HOL.equal (x # xs) [] \<longleftrightarrow> False"
  "HOL.equal [] (y # ys) \<longleftrightarrow> False"
  "HOL.equal (x # xs) (y # ys) \<longleftrightarrow> equalRest (x = y) xs ys"
  by (simp_all add: equal equalRest_def)

lemma equal_char_lazy [code]:
  "HOL.equal (Char a b c d e f g h) (Char p q r s t u v w) \<longleftrightarrow>
     (if a = p then if b = q then if c = r then if d = s then if e = t then if f = u then if g = v then h = w
      else False else False else False else False else False else False else False)"
  by (simp add: equal)

lemma list_all_lazy [code]:
  "list_all P [] = True"
  "list_all P (x # xs) = allRest (P x) P xs"
  by (simp_all add: allRest_def)

lemma arrayIndex_lazy [code]:
  "arrayIndex [] = None"
  "arrayIndex (c # cs) = (if isDigit c then if list_all isDigit cs
     then if (cs = [] \<or> c \<noteq> CHR ''0'') \<and> decimalValue (c # cs) < 4294967295 then Some (decimalValue (c # cs)) else None
     else None else None)"
  by (auto simp: arrayIndex_def)

definition charLess :: "char \<Rightarrow> char \<Rightarrow> bool" where
  "charLess x y \<longleftrightarrow> codePoint x < codePoint y"

lemma charLess_code [code]:
  "charLess (Char a b c d e f g h) (Char p q r s t u v w) \<longleftrightarrow>
     (if h \<noteq> w then w else if g \<noteq> v then v else if f \<noteq> u then u else if e \<noteq> t then t
      else if d \<noteq> s then s else if c \<noteq> r then r else if b \<noteq> q then q else if a \<noteq> p then p else False)"
  by (cases a; cases b; cases c; cases d; cases e; cases f; cases g; cases h; simp add: charLess_def codePoint_def split: if_splits)

section \<open>Numbers\<close>

definition digitChar :: "int \<Rightarrow> char" where
  "digitChar d = char_of (48 + nat d)"

definition showPositive :: "int \<Rightarrow> string" where
  "showPositive i = showNat (nat i)"

lemma showPositive_code [code]:
  "showPositive i = (if i < 10 then [digitChar i] else showPositive (i div 10) @ [digitChar (i mod 10)])"
  unfolding showPositive_def
  by (subst showNat.simps) (auto simp: digitChar_def nat_div_distrib nat_mod_distrib nat_less_iff)

lemma showInt_code [code]: "showInt i = (if i < 0 then CHR ''-'' # showPositive (- i) else showPositive i)"
  by (simp add: showInt_def showPositive_def)

section \<open>Objects\<close>

fun plainKeys :: "fields \<Rightarrow> bool" where
  "plainKeys [] = True"
| "plainKeys ((k, v) # fs) = (arrayIndex k = None \<and> plainKeys fs)"

lemma spread_code [code]:
  "spread base [] = base"
  "spread base ((k, v) # rest) = spread (setField k v base) rest"
  by (simp_all add: spread_def)

definition enumerated :: "bool \<Rightarrow> fields \<Rightarrow> fields" where
  "enumerated plain fs = (if plain then fs else
     map snd (foldr insertIndexed
       (List.map_filter (\<lambda>f. map_option (\<lambda>i. (i, f)) (arrayIndex (fst f))) fs) [])
     @ filter (\<lambda>f. arrayIndex (fst f) = None) fs)"

lemma enumerated_code [code]:
  "enumerated True fs = fs"
  "enumerated False fs = map snd (foldr insertIndexed
       (List.map_filter (\<lambda>f. map_option (\<lambda>i. (i, f)) (arrayIndex (fst f))) fs) [])
     @ filter (\<lambda>f. arrayIndex (fst f) = None) fs"
  by (simp_all add: enumerated_def)

lemma enumerationOrder_code [code]: "enumerationOrder fs = enumerated (plainKeys fs) fs"
proof -
  have "List.map_filter (\<lambda>f. map_option (\<lambda>i. (i, f)) (arrayIndex (fst f))) fs = [] \<and> filter (\<lambda>f. arrayIndex (fst f) = None) fs = fs" if "plainKeys fs"
    using that by (induction fs) (auto simp: List.map_filter_def split: if_splits)
  then show ?thesis by (auto simp: enumerationOrder_def enumerated_def)
qed

fun isUndef :: "jsval \<Rightarrow> bool" where
  "isUndef JUndef = True"
| "isUndef JNull = False"
| "isUndef (JBool b) = False"
| "isUndef (JNum i) = False"
| "isUndef (JFrac s) = False"
| "isUndef (JStr s) = False"
| "isUndef (JArr xs) = False"
| "isUndef (JObj fs) = False"

lemma isUndef_iff: "isUndef v \<longleftrightarrow> v = JUndef" by (cases v) auto

end
