(* ===== verification/SgosOrder.thy ===== *)
theory SgosOrder
  imports JsEvaluation "HOL-Library.Char_ord" "HOL-Library.List_Lexorder" "HOL-Library.Multiset"
begin

text \<open>
  \<open>src/sgos/order.mjs\<close> and \<open>src/sgos/limits.mjs\<close>: the locale-independent string order used for
  every hash, ready set and projection, and the installed ceilings.

  \<open>sortBy cmp\<close> is \<open>Array.prototype.sort(cmp)\<close>, which the language specifies as a stable
  sort: for a consistent comparator its result is determined, and a stable insertion sort computes
  it. The locale \<open>sort_comparator\<close> states what a comparator has to satisfy, and its lemmas
  (sortedness, permutation, independence of the input order) are used by every component through
  the interpretations of it on the comparators of the code.
\<close>

section \<open>Sorting with a comparator\<close>

fun insertBy :: "('a \<Rightarrow> 'a \<Rightarrow> int) \<Rightarrow> 'a \<Rightarrow> 'a list \<Rightarrow> 'a list" where
  "insertBy cmp x [] = [x]"
| "insertBy cmp x (y # ys) = (if cmp x y \<le> 0 then x # y # ys else y # insertBy cmp x ys)"

fun sortBy :: "('a \<Rightarrow> 'a \<Rightarrow> int) \<Rightarrow> 'a list \<Rightarrow> 'a list" where
  "sortBy cmp [] = []"
| "sortBy cmp (x # xs) = insertBy cmp x (sortBy cmp xs)"

definition insertRest :: "bool \<Rightarrow> ('a \<Rightarrow> 'a \<Rightarrow> int) \<Rightarrow> 'a \<Rightarrow> 'a \<Rightarrow> 'a list \<Rightarrow> 'a list" where
  "insertRest here cmp x y ys = (if here then x # y # ys else y # insertBy cmp x ys)"

lemma insertRest_code [code]: "insertRest True cmp x y ys = x # y # ys" "insertRest False cmp x y ys = y # insertBy cmp x ys"
  by (simp_all add: insertRest_def)

lemma insertBy_lazy [code]: "insertBy cmp x [] = [x]" "insertBy cmp x (y # ys) = insertRest (cmp x y \<le> 0) cmp x y ys"
  by (simp_all add: insertRest_def)

lemma mset_insertBy [simp]: "mset (insertBy cmp x xs) = add_mset x (mset xs)"
  by (induction xs) auto

lemma mset_sortBy [simp]: "mset (sortBy cmp xs) = mset xs"
  by (induction xs) auto

lemma set_sortBy [simp, set_simps]: "set (sortBy cmp xs) = set xs"
  by (metis mset_sortBy set_mset_mset)

lemma length_sortBy [simp]: "length (sortBy cmp xs) = length xs"
  by (metis mset_sortBy size_mset)

lemma distinct_sortBy [simp]: "distinct (sortBy cmp xs) = distinct xs"
  by (metis mset_eq_imp_distinct_iff mset_sortBy)

lemma sortBy_Nil_iff [simp]: "sortBy cmp xs = [] \<longleftrightarrow> xs = []"
  by (metis length_0_conv length_sortBy)

lemma mset_map_sortBy [simp]: "mset (map f (sortBy cmp xs)) = mset (map f xs)"
  by (metis mset_map mset_sortBy)

lemma distinct_map_sortBy [simp]: "distinct (map f (sortBy cmp xs)) = distinct (map f xs)"
  by (rule mset_eq_imp_distinct_iff) (rule mset_map_sortBy)

text \<open>\<open>left || right\<close> on comparison results: the second comparator breaks the ties of the first.\<close>

definition thenBy :: "('a \<Rightarrow> 'a \<Rightarrow> int) \<Rightarrow> ('a \<Rightarrow> 'a \<Rightarrow> int) \<Rightarrow> 'a \<Rightarrow> 'a \<Rightarrow> int" where
  "thenBy c d x y = (if c x y \<noteq> 0 then c x y else d x y)"

locale sort_comparator =
  fixes cmp :: "'a \<Rightarrow> 'a \<Rightarrow> int"
  assumes total: "cmp x y \<le> 0 \<or> cmp y x \<le> 0"
    and trans: "cmp x y \<le> 0 \<Longrightarrow> cmp y z \<le> 0 \<Longrightarrow> cmp x z \<le> 0"
begin

abbreviation below :: "'a \<Rightarrow> 'a \<Rightarrow> bool" where
  "below x y \<equiv> cmp x y \<le> 0"

lemma refl: "below x x"
  using total [of x x] by simp

lemma transp_below: "transp below"
  using trans by (auto intro: transpI)

lemma sorted_insertBy: "sorted_wrt below xs \<Longrightarrow> sorted_wrt below (insertBy cmp x xs)"
proof (induction xs)
  case (Cons y ys)
  show ?case
  proof (cases "below x y")
    case True
    with Cons.prems show ?thesis by (auto intro: trans)
  next
    case False
    then have "below y x" using total by blast
    moreover have "set (insertBy cmp x ys) = insert x (set ys)"
      by (metis mset_insertBy set_mset_add_mset_insert set_mset_mset)
    ultimately show ?thesis using Cons False by auto
  qed
qed simp

lemma sorted_sortBy [simp]: "sorted_wrt below (sortBy cmp xs)"
  by (induction xs) (auto intro: sorted_insertBy)

lemma insertBy_least: "\<forall>y \<in> set ys. below x y \<Longrightarrow> insertBy cmp x ys = x # ys"
  by (cases ys) auto

lemma sortBy_sorted: "sorted_wrt below xs \<Longrightarrow> sortBy cmp xs = xs"
  by (induction xs) (auto simp: insertBy_least)

lemma sortBy_idem [simp]: "sortBy cmp (sortBy cmp xs) = sortBy cmp xs"
  by (rule sortBy_sorted) simp

text \<open>Where the comparator separates the elements, only one arrangement of them is sorted.\<close>

lemma sorted_unique:
  assumes "sorted_wrt below xs" "sorted_wrt below ys" "mset xs = mset ys"
    and "\<And>x y. x \<in> set xs \<Longrightarrow> y \<in> set xs \<Longrightarrow> below x y \<Longrightarrow> below y x \<Longrightarrow> x = y"
  shows "xs = ys"
  using assms
proof (induction xs arbitrary: ys)
  case (Cons x xs)
  then obtain y zs where ys: "ys = y # zs" by (cases ys) auto
  have sets: "set (x # xs) = set (y # zs)"
    using Cons.prems(3) ys by (metis set_mset_mset)
  have "below x y" using sets Cons.prems(1) refl by (metis list.set_intros(1) set_ConsD sorted_wrt.simps(2))
  moreover have "below y x" using sets Cons.prems(2) ys refl
    by (metis list.set_intros(1) set_ConsD sorted_wrt.simps(2))
  ultimately have "x = y"
    using Cons.prems(4) [of x y] sets by (metis list.set_intros(1))
  with Cons ys show ?case by auto
qed simp

lemma sortBy_perm:
  assumes "mset xs = mset ys"
    and "\<And>x y. x \<in> set xs \<Longrightarrow> y \<in> set xs \<Longrightarrow> below x y \<Longrightarrow> below y x \<Longrightarrow> x = y"
  shows "sortBy cmp xs = sortBy cmp ys"
  by (rule sorted_unique) (use assms in auto)

end

text \<open>A comparator that separates all values: the elements alone determine the sorted list.\<close>

locale strict_comparator = sort_comparator +
  assumes antisym: "cmp x y \<le> 0 \<Longrightarrow> cmp y x \<le> 0 \<Longrightarrow> x = y"
begin

lemma sortBy_cong_mset: "mset xs = mset ys \<Longrightarrow> sortBy cmp xs = sortBy cmp ys"
  by (rule sortBy_perm) (auto intro: antisym)

lemma sortBy_dedupe_cong: "set xs = set ys \<Longrightarrow> sortBy cmp (dedupe xs) = sortBy cmp (dedupe ys)"
  by (rule sortBy_cong_mset) (simp add: set_eq_iff_mset_eq_distinct [symmetric])

lemma strictly_sorted: "distinct xs \<Longrightarrow> sorted_wrt below xs \<Longrightarrow> sorted_wrt (\<lambda>x y. \<not> below y x) xs"
  by (induction xs) (auto dest: antisym)

end

section \<open>Code-point order\<close>

text \<open>
  The loop of \<open>compareSgosCodePoints\<close> walks both strings in step; the first unequal code point
  decides, then the lengths.
\<close>

fun compareSgosCodePoints :: "string \<Rightarrow> string \<Rightarrow> int" where
  "compareSgosCodePoints [] [] = 0"
| "compareSgosCodePoints [] (_ # _) = -1"
| "compareSgosCodePoints (_ # _) [] = 1"
| "compareSgosCodePoints (x # xs) (y # ys) =
     (if codePoint x \<noteq> codePoint y then (if codePoint x < codePoint y then -1 else 1)
      else compareSgosCodePoints xs ys)"

lemma compareSgosCodePoints_code [code]:
  "compareSgosCodePoints [] [] = 0"
  "compareSgosCodePoints [] (y # ys) = -1"
  "compareSgosCodePoints (x # xs) [] = 1"
  "compareSgosCodePoints (x # xs) (y # ys) = (if x = y then compareSgosCodePoints xs ys else if charLess x y then -1 else 1)"
  by (simp_all add: charLess_def)

lemma codePoint_less: "codePoint c < codePoint d \<longleftrightarrow> c < d"
  by (simp add: codePoint_def less_char_def)

lemma compare_less_eq: "compareSgosCodePoints a b \<le> 0 \<longleftrightarrow> a \<le> b"
  by (induction a b rule: compareSgosCodePoints.induct) (auto simp: codePoint_less)

lemma compare_eq_0: "compareSgosCodePoints a b = 0 \<longleftrightarrow> a = b"
  by (induction a b rule: compareSgosCodePoints.induct) auto

lemma compare_flip: "compareSgosCodePoints b a = - compareSgosCodePoints a b"
  by (induction a b rule: compareSgosCodePoints.induct) auto

lemma compare_less: "compareSgosCodePoints a b < 0 \<longleftrightarrow> a < b"
  using compare_less_eq [of a b] compare_eq_0 [of a b] by auto

lemma compare_ge: "0 \<le> compareSgosCodePoints a b \<longleftrightarrow> b \<le> a"
  using compare_less_eq [of b a] compare_flip [of a b] by auto

lemmas compare_simps = compare_less_eq compare_eq_0 compare_less compare_ge

text \<open>A comparator on a key is a comparator; two of them in sequence are one.\<close>

definition byKey :: "('a \<Rightarrow> string) \<Rightarrow> 'a \<Rightarrow> 'a \<Rightarrow> int" where
  "byKey key x y = compareSgosCodePoints (key x) (key y)"

interpretation points: strict_comparator compareSgosCodePoints
  by unfold_locales (auto simp: compare_less_eq)

interpretation keyed: sort_comparator "byKey key" for key
  by unfold_locales (auto simp: byKey_def compare_less_eq)

interpretation keyed2: sort_comparator "thenBy (byKey k1) (byKey k2)" for k1 k2
  by unfold_locales
    (auto simp: thenBy_def byKey_def compare_simps split: if_splits)

abbreviation sortPoints :: "string list \<Rightarrow> string list" where
  "sortPoints \<equiv> sortBy compareSgosCodePoints"

lemma below_points: "(\<lambda>a b. compareSgosCodePoints a b \<le> 0) = (\<le>)"
  by (simp add: fun_eq_iff compare_less_eq)

lemma sortPoints_sort: "sortPoints xs = sort xs"
  by (rule properties_for_sort [symmetric]) (use points.sorted_sortBy in \<open>simp_all add: below_points\<close>)

lemma sortPoints_dedupe: "sortPoints (dedupe xs) = sorted_list_of_set (set xs)"
  by (metis distinct_dedupe set_dedupe sortPoints_sort sorted_list_of_set.distinct_if_distinct_map
      sorted_list_of_set_sort_remdups distinct_remdups_id)

lemma sortBy_byKey_perm:
  assumes "mset xs = mset ys" "distinct (map key xs)"
  shows "sortBy (byKey key) xs = sortBy (byKey key) ys"
proof (rule keyed.sortBy_perm [OF assms(1)])
  fix x y assume "x \<in> set xs" "y \<in> set xs" "byKey key x y \<le> 0" "byKey key y x \<le> 0"
  then show "x = y"
    using assms(2) by (auto simp: byKey_def compare_less_eq distinct_map dest: inj_onD)
qed

lemma sortBy_byKey_keys: "map key (sortBy (byKey key) xs) = sortPoints (map key xs)"
proof -
  have "sorted_wrt (\<le>) (map key (sortBy (byKey key) xs))"
    using keyed.sorted_sortBy [of key xs] by (simp add: sorted_wrt_map byKey_def compare_less_eq)
  then show ?thesis
    unfolding sortPoints_sort by (intro properties_for_sort [symmetric]) simp_all
qed

lemma sortBy_adjacent_distinct:
  "\<not> list_ex (\<lambda>(a, b). key a = key b) (adjacentPairs (sortBy (byKey key) xs)) \<longleftrightarrow> distinct (map key xs)"
proof -
  let ?s = "sortBy (byKey key) xs"
  have srt: "sorted_wrt (\<lambda>a b. key a \<le> key b) ?s"
    using keyed.sorted_sortBy [of key xs] by (simp add: byKey_def compare_less_eq)
  have "\<not> list_ex (\<lambda>(a, b). key a = key b) (adjacentPairs ys) \<longleftrightarrow> distinct (map key ys)"
    if "sorted_wrt (\<lambda>a b. key a \<le> key b) ys" for ys
    using that by (induction ys rule: induct_list012) (auto dest: antisym)
  from this [OF srt] show ?thesis by simp
qed

lemma mset_distinct_map: "mset xs = mset ys \<Longrightarrow> distinct (map f xs) \<longleftrightarrow> distinct (map f ys)"
  by (rule mset_eq_imp_distinct_iff) simp

lemma dedupe_sortBy_length [simp]:
  "length (dedupe (map f (sortBy cmp xs))) = length xs \<longleftrightarrow> distinct (map f xs)"
  using length_dedupe [of "map f (sortBy cmp xs)"] by simp

lemma mapResult_perm:
  assumes "mapResult f xs = Inr ys" "mset xs' = mset xs"
  obtains ys' where "mapResult f xs' = Inr ys'" "mset ys' = mset ys"
proof
  show "mapResult f xs' = Inr (map (\<lambda>x. projr (f x)) xs')"
    using assms by (auto simp: mapResult_projr dest: mset_eq_setD)
  show "mset (map (\<lambda>x. projr (f x)) xs') = mset ys"
    using assms by (simp add: mapResult_projr)
qed

lemma sorted_strict: "distinct (xs :: 'a :: linorder list) \<Longrightarrow> sorted xs \<Longrightarrow> sorted_wrt (<) xs"
  by (simp add: strict_sorted_iff)

lemma sortPoints_strict [simp]: "sorted_wrt (<) (sortPoints (dedupe xs))"
  unfolding sortPoints_sort by (simp add: strict_sorted_iff)

lemma sortPoints_fixed: "sorted_wrt (<) xs \<Longrightarrow> sortPoints (dedupe xs) = xs"
  by (simp add: dedupe_distinct strict_sorted_iff sortPoints_sort sorted_sort_id)

section \<open>Installed limits\<close>

definition maximumProgramBytes :: int where "maximumProgramBytes = 8 * 1024 * 1024"
definition maximumRecordBytes :: int where "maximumRecordBytes = 8 * 1024 * 1024"
definition maximumProcessRecordBytes :: int where "maximumProcessRecordBytes = 256 * 1024 * 1024"
definition maximumProcessRecords :: int where "maximumProcessRecords = 100000"
definition maximumRecordIndexDeltaEntries :: int where "maximumRecordIndexDeltaEntries = 64"
definition maximumPendingWriterFiles :: int where "maximumPendingWriterFiles = 1024"
definition maximumTasks :: int where "maximumTasks = 2000"
definition maximumEdges :: int where "maximumEdges = 10000"
definition maximumResourceDeclarations :: int where "maximumResourceDeclarations = 50000"
definition maximumAttemptsPerTask :: int where "maximumAttemptsPerTask = 10"
definition maximumAttemptRecords :: int where "maximumAttemptRecords = 10000"
definition maximumControlRecords :: int where "maximumControlRecords = 10000"
definition maximumOperatorControlTransitions :: int where "maximumOperatorControlTransitions = 64"
definition maximumExecutionLeases :: int where "maximumExecutionLeases = 16"
definition maximumParallelExecutions :: int where "maximumParallelExecutions = 8"
definition maximumResourceLeaseEntries :: int where "maximumResourceLeaseEntries = 256"
definition maximumFanoutItems :: int where "maximumFanoutItems = 256"
definition maximumFanoutParallel :: int where "maximumFanoutParallel = 8"
definition maximumFanoutDepth :: int where "maximumFanoutDepth = 4"
definition maximumFanoutGroupsPerProcess :: int where "maximumFanoutGroupsPerProcess = 63"
definition maximumJoinInputs :: int where "maximumJoinInputs = 2000"

lemmas installed_limits =
  maximumProgramBytes_def maximumRecordBytes_def maximumProcessRecordBytes_def
  maximumProcessRecords_def maximumRecordIndexDeltaEntries_def maximumTasks_def maximumEdges_def
  maximumAttemptsPerTask_def maximumParallelExecutions_def maximumResourceLeaseEntries_def
  maximumFanoutItems_def maximumFanoutParallel_def maximumFanoutDepth_def
  maximumFanoutGroupsPerProcess_def maximumJoinInputs_def maximumOperatorControlTransitions_def

end
