(* ===== verification/SgosProgram.thy ===== *)
theory SgosProgram
  imports SgosOrder
begin

text \<open>
  The compiled Program and the running Process, as \<open>src/sgos/contracts.mjs\<close> admits them
  (\<open>validateTaskTemplate\<close>, \<open>validateGvmProgramRecord\<close>, \<open>validateTaskInstance\<close>,
  \<open>validateGvmProcessRecord\<close>).

  A value that has passed its contract has every listed field with the listed type, so here it is a
  record. The fields the contract leaves open (\<open>metadata\<close>, \<open>resources\<close>, \<open>inputs\<close>, the joins)
  stay dynamic values, because the modules that read them check them again. The vocabularies
  \<open>GVM_OPCODES\<close>, \<open>TASK_STATES\<close> and \<open>PROCESS_STATES\<close> are datatypes with their printed names.
  An object keyed by task instance is an association list in enumeration order.
\<close>

section \<open>Vocabularies\<close>

datatype gvm_opcode =
    KERNEL | AGENT | DEVICE | VERIFY | HUMAN_REQUEST | JOIN | MERGE
  | CHECKPOINT | SPAWN | COMPENSATE | NOOP | END

fun opcodeName :: "gvm_opcode \<Rightarrow> string" where
  "opcodeName KERNEL = ''KERNEL''"
| "opcodeName AGENT = ''AGENT''"
| "opcodeName DEVICE = ''DEVICE''"
| "opcodeName VERIFY = ''VERIFY''"
| "opcodeName HUMAN_REQUEST = ''HUMAN_REQUEST''"
| "opcodeName JOIN = ''JOIN''"
| "opcodeName MERGE = ''MERGE''"
| "opcodeName CHECKPOINT = ''CHECKPOINT''"
| "opcodeName SPAWN = ''SPAWN''"
| "opcodeName COMPENSATE = ''COMPENSATE''"
| "opcodeName NOOP = ''NOOP''"
| "opcodeName END = ''END''"

definition gvmOpcodes :: "gvm_opcode list" where
  "gvmOpcodes =
     [KERNEL, AGENT, DEVICE, VERIFY, HUMAN_REQUEST, JOIN, MERGE, CHECKPOINT, SPAWN, COMPENSATE, NOOP, END]"

datatype task_state =
    Planned | Waiting | Ready | Leased | Running | WaitingHuman | Verifying
  | Succeeded | Failed | Blocked | Cancelled | Invalidated | RecoveryRequired | Skipped

fun stateName :: "task_state \<Rightarrow> string" where
  "stateName Planned = ''planned''"
| "stateName Waiting = ''waiting''"
| "stateName Ready = ''ready''"
| "stateName Leased = ''leased''"
| "stateName Running = ''running''"
| "stateName WaitingHuman = ''waiting-human''"
| "stateName Verifying = ''verifying''"
| "stateName Succeeded = ''succeeded''"
| "stateName Failed = ''failed''"
| "stateName Blocked = ''blocked''"
| "stateName Cancelled = ''cancelled''"
| "stateName Invalidated = ''invalidated''"
| "stateName RecoveryRequired = ''recovery-required''"
| "stateName Skipped = ''skipped''"

definition taskStates :: "task_state list" where
  "taskStates =
     [Planned, Waiting, Ready, Leased, Running, WaitingHuman, Verifying, Succeeded, Failed, Blocked,
      Cancelled, Invalidated, RecoveryRequired, Skipped]"

datatype process_status =
    ProcessQueued | ProcessRunning | ProcessWaitingHuman | ProcessBlocked | ProcessPaused
  | ProcessSucceeded | ProcessFailed | ProcessCancelled | ProcessRecoveryRequired

fun statusName :: "process_status \<Rightarrow> string" where
  "statusName ProcessQueued = ''queued''"
| "statusName ProcessRunning = ''running''"
| "statusName ProcessWaitingHuman = ''waiting-human''"
| "statusName ProcessBlocked = ''blocked''"
| "statusName ProcessPaused = ''paused''"
| "statusName ProcessSucceeded = ''succeeded''"
| "statusName ProcessFailed = ''failed''"
| "statusName ProcessCancelled = ''cancelled''"
| "statusName ProcessRecoveryRequired = ''recovery-required''"

definition processStates :: "process_status list" where
  "processStates =
     [ProcessQueued, ProcessRunning, ProcessWaitingHuman, ProcessBlocked, ProcessPaused,
      ProcessSucceeded, ProcessFailed, ProcessCancelled, ProcessRecoveryRequired]"

section \<open>Programs\<close>

record task_template =
  templateId :: string
  templateOpcode :: gvm_opcode
  templateDependsOn :: "string list"
  templateInputs :: jsval
  templateResources :: jsval
  templateMetadata :: jsval

record gvm_program =
  programTemplates :: "task_template list"
  programEdges :: "jsval list"
  programJoins :: jsval

section \<open>Processes\<close>

record fanout_binding =
  bindingParent :: string
  bindingItemKey :: string
  bindingItemSha256 :: string
  bindingCollectionRecordSha256 :: string
  bindingCollectionSha256 :: string
  bindingMaximumParallel :: int

record task_instance =
  instanceId :: string
  instanceTemplate :: string
  taskState :: task_state
  taskPredecessors :: "string list"
  taskInputRefs :: "string list"
  taskOutputRefs :: "string list"
  taskAttemptIds :: "string list"
  taskReceipt :: "string option"
  taskInvalidatedBy :: "string option"
  taskRevision :: int
  taskFanoutBinding :: "fanout_binding option"

record gvm_process =
  processId :: string
  processStatus :: process_status
  processTasks :: "(string \<times> task_instance) list"
  activeExecutions :: "string list"
  openHumanRequests :: "string list"
  activeLeases :: "string list"
  processRevision :: int

text \<open>The rules of \<open>validateTaskInstance\<close> that relate the fields of a task to each other and to its key.\<close>

definition taskWellFormed :: "string \<times> task_instance \<Rightarrow> bool" where
  "taskWellFormed kt = (case kt of (k, t) \<Rightarrow>
     k = instanceId t \<and> 0 \<le> taskRevision t \<and>
     (taskState t = Succeeded \<longrightarrow> taskReceipt t \<noteq> None) \<and>
     (taskState t \<noteq> Succeeded \<and> taskReceipt t \<noteq> None \<longrightarrow> taskInvalidatedBy t \<noteq> None) \<and>
     (case taskFanoutBinding t of None \<Rightarrow> True
        | Some b \<Rightarrow> bindingParent b \<noteq> [] \<and> bindingItemKey b \<noteq> [] \<and>
            1 \<le> bindingMaximumParallel b \<and> bindingMaximumParallel b \<le> maximumFanoutParallel))"

definition processWellFormed :: "gvm_process \<Rightarrow> bool" where
  "processWellFormed p \<longleftrightarrow>
     distinct (map fst (processTasks p)) \<and> list_all taskWellFormed (processTasks p)"

definition taskNamed :: "gvm_process \<Rightarrow> string \<Rightarrow> task_instance option" where
  "taskNamed p k = map_of (processTasks p) k"

definition tasksOf :: "gvm_process \<Rightarrow> task_instance list" where
  "tasksOf p = map snd (processTasks p)"

section \<open>Lemmas\<close>

lemma opcodeName_inj [simp]: "opcodeName a = opcodeName b \<longleftrightarrow> a = b"
  by (cases a; cases b) auto

lemma stateName_inj [simp]: "stateName a = stateName b \<longleftrightarrow> a = b"
  by (cases a; cases b) auto

lemma statusName_inj [simp]: "statusName a = statusName b \<longleftrightarrow> a = b"
  by (cases a; cases b) auto

lemma processWellFormed_distinct: "processWellFormed p \<Longrightarrow> distinct (map fst (processTasks p))"
  by (simp add: processWellFormed_def)

lemma processWellFormed_id:
  "processWellFormed p \<Longrightarrow> (k, t) \<in> set (processTasks p) \<Longrightarrow> instanceId t = k"
  by (auto simp: processWellFormed_def list_all_iff taskWellFormed_def)

lemma taskNamed_id: "processWellFormed p \<Longrightarrow> taskNamed p k = Some t \<Longrightarrow> instanceId t = k"
  by (auto simp: taskNamed_def dest!: map_of_SomeD intro: processWellFormed_id)

lemma taskNamed_in: "taskNamed p k = Some t \<Longrightarrow> t \<in> set (tasksOf p)"
  by (force simp: taskNamed_def tasksOf_def dest: map_of_SomeD)

lemma tasksOf_named: "processWellFormed p \<Longrightarrow> t \<in> set (tasksOf p) \<Longrightarrow> taskNamed p (instanceId t) = Some t"
  by (auto simp: taskNamed_def tasksOf_def processWellFormed_distinct processWellFormed_id)

lemma tasksOf_ids: "processWellFormed p \<Longrightarrow> map instanceId (tasksOf p) = map fst (processTasks p)"
  using processWellFormed_id by (auto simp: tasksOf_def)

lemma tasksOf_distinct_ids: "processWellFormed p \<Longrightarrow> distinct (map instanceId (tasksOf p))"
  by (simp add: tasksOf_ids processWellFormed_distinct)

end
