(* ===== verification/SgosJoins.thy ===== *)
theory SgosJoins
  imports SgosProgram
begin

text \<open>
  \<open>src/sgos/joins.mjs\<close>: the join contracts of a Program, the decision whether a join may run or can
  never run, the deterministic reducer and the options of a manual reconciliation.
\<close>

section \<open>Contracts\<close>

datatype join_policy = AllSuccess | AllTerminal | DeterministicReduce | ManualReconcile | Quorum

fun policyName :: "join_policy \<Rightarrow> string" where
  "policyName AllSuccess = ''all-success''"
| "policyName AllTerminal = ''all-terminal''"
| "policyName DeterministicReduce = ''deterministic-reduce''"
| "policyName ManualReconcile = ''manual-reconcile''"
| "policyName Quorum = ''quorum''"

definition installedJoinPolicies :: "join_policy list" where
  "installedJoinPolicies = [AllSuccess, AllTerminal, DeterministicReduce, ManualReconcile, Quorum]"

definition installedJoinReducers :: "string list" where
  "installedJoinReducers = [''canonical-output-ref-set-v1'']"

record join_contract =
  joinId :: string
  joinTemplate :: string
  joinPolicy :: join_policy
  requiredSuccesses :: int
  reducerId :: string
  joinPredecessors :: "string list"

text \<open>
  \<open>requiredSuccesses\<close> and \<open>reducerId\<close> are present only for the quorum and the reducing policy;
  they are \<open>0\<close> and \<open>''''\<close> otherwise, and \<open>joinValue\<close> prints the object without them.
\<close>

definition joinValue :: "join_contract \<Rightarrow> jsval" where
  "joinValue j = JObj
     ([(''joinId'', JStr (joinId j)), (''taskTemplateId'', JStr (joinTemplate j)),
       (''policy'', JStr (policyName (joinPolicy j)))]
      @ optField (joinPolicy j = Quorum) ''requiredSuccesses'' (JNum (requiredSuccesses j))
      @ optField (joinPolicy j = DeterministicReduce) ''reducerId'' (JStr (reducerId j))
      @ [(''predecessorTaskTemplateIds'', JArr (map JStr (joinPredecessors j)))])"

definition isSgosTerminalTaskState :: "task_state \<Rightarrow> bool" where
  "isSgosTerminalTaskState s \<longleftrightarrow> s \<in> {Succeeded, Failed, Blocked, Cancelled, Skipped}"

section \<open>Canonical joins\<close>

definition joinValues :: "jsval \<Rightarrow> jsval list" where
  "joinValues joins =
     (if isArray joins then elements joins
      else map (\<lambda>(k, v). JObj (spread [(''joinId'', JStr k)] (entries v))) (entries joins))"

text \<open>\<open>xs.map(String)\<close>: only an array has a \<open>map\<close> method here.\<close>

definition mapString :: "jsval \<Rightarrow> string list result" where
  "mapString v = (if isArray v then Inr (map jsString (elements v)) else Inl NativeError)"

definition suppliedQuorum :: "jsval \<Rightarrow> jsval" where
  "suppliedQuorum value = coalesceAll [getp value ''requiredSuccesses'', getp value ''threshold'', JNull]"

definition suppliedReducer :: "jsval \<Rightarrow> jsval" where
  "suppliedReducer value = coalesceAll [getp value ''reducerId'', getp value ''reducer'', JNull]"

definition checkQuorum :: "join_policy \<Rightarrow> jsval \<Rightarrow> nat \<Rightarrow> unit result" where
  "checkQuorum policy supplied n =
     (if policy = Quorum
      then refuseIf (\<not> isSafeInteger supplied \<or> numberOf supplied < 1 \<or> numberOf supplied > int n)
             ''SGOS_JOIN_QUORUM_INVALID''
      else refuseIf (supplied \<noteq> JNull) ''SGOS_JOIN_QUORUM_INVALID'')"

definition checkReducer :: "join_policy \<Rightarrow> jsval \<Rightarrow> unit result" where
  "checkReducer policy supplied =
     (if policy = DeterministicReduce
      then refuseIf (supplied \<notin> JStr ` set installedJoinReducers) ''SGOS_JOIN_REDUCER_UNSUPPORTED''
      else refuseIf (supplied \<noteq> JNull) ''SGOS_JOIN_REDUCER_INVALID'')"

definition canonicalJoin :: "jsval \<Rightarrow> join_contract result" where
  "canonicalJoin value =
     (if \<not> plainObject value then fail ''SGOS_JOIN_INVALID''
      else
        let jid = jsString (coalesceAll [getp value ''joinId'', getp value ''taskTemplateId'', JStr []]);
            tid = jsString (coalesce (getp value ''taskTemplateId'') (JStr jid));
            policy = jsString (coalesceAll [getp value ''policy'', getp value ''mode'', JStr []])
        in andThen (mapString (coalesceAll
                 [getp value ''predecessorTaskTemplateIds'', getp value ''dependsOn'', JArr []])) (\<lambda>ids.
             let preds = sortPoints (dedupe ids) in
             if jid = [] \<or> tid = [] then fail ''SGOS_JOIN_INVALID''
             else case find (\<lambda>p. policyName p = policy) installedJoinPolicies of
               None \<Rightarrow> fail ''SGOS_JOIN_POLICY_UNSUPPORTED''
             | Some p \<Rightarrow>
                 if preds = [] \<or> int (length preds) > maximumJoinInputs then fail ''SGOS_JOIN_LIMIT''
                 else andThen (checkQuorum p (suppliedQuorum value) (length preds)) (\<lambda>_.
                      andThen (checkReducer p (suppliedReducer value)) (\<lambda>_.
                        Inr \<lparr>joinId = jid, joinTemplate = tid, joinPolicy = p,
                          requiredSuccesses = (if p = Quorum then numberOf (suppliedQuorum value) else 0),
                          reducerId = (if p = DeterministicReduce then stringOf (suppliedReducer value) else []),
                          joinPredecessors = preds\<rparr>))))"

definition canonicalSgosJoins :: "jsval \<Rightarrow> join_contract list result" where
  "canonicalSgosJoins joins =
     (let values = joinValues joins in
      if int (length values) > maximumTasks then fail ''SGOS_JOIN_LIMIT''
      else andThen (mapResult canonicalJoin values) (\<lambda>contracts.
        let normalized = sortBy (byKey joinId) contracts in
        if length (dedupe (map joinId normalized)) \<noteq> length normalized
           \<or> length (dedupe (map joinTemplate normalized)) \<noteq> length normalized
        then fail ''SGOS_JOIN_INVALID''
        else Inr normalized))"

definition sgosJoinForTask :: "gvm_program \<Rightarrow> string \<Rightarrow> join_contract option result" where
  "sgosJoinForTask program tid =
     andThen (canonicalSgosJoins (coalesce (programJoins program) (JArr [])))
       (\<lambda>joins. Inr (find (\<lambda>join. joinTemplate join = tid) joins))"

section \<open>Readiness\<close>

record readiness =
  isReady :: bool
  isImpossible :: bool

definition countWhere :: "('a \<Rightarrow> bool) \<Rightarrow> 'a list \<Rightarrow> int" where
  "countWhere P xs = int (length (filter P xs))"

definition allSuccessReadiness :: "task_state list \<Rightarrow> readiness" where
  "allSuccessReadiness states =
     \<lparr>isReady = list_all (\<lambda>s. s = Succeeded) states,
      isImpossible = list_ex (\<lambda>s. isSgosTerminalTaskState s \<and> s \<noteq> Succeeded) states\<rparr>"

definition sgosJoinReadiness :: "join_contract option \<Rightarrow> task_state list \<Rightarrow> readiness result" where
  "sgosJoinReadiness join states =
     (case join of None \<Rightarrow> Inr \<lparr>isReady = False, isImpossible = False\<rparr>
      | Some j \<Rightarrow>
        if length states \<noteq> length (joinPredecessors j) then fail ''SGOS_JOIN_INVALID''
        else if joinPolicy j = AllSuccess \<or> joinPolicy j = DeterministicReduce
        then Inr (allSuccessReadiness states)
        else if joinPolicy j = Quorum
        then (let succeeded = countWhere (\<lambda>s. s = Succeeded) states;
                  possible = succeeded + countWhere (\<lambda>s. \<not> isSgosTerminalTaskState s) states
              in Inr \<lparr>isReady = succeeded \<ge> requiredSuccesses j,
                      isImpossible = possible < requiredSuccesses j\<rparr>)
        else Inr \<lparr>isReady = list_all isSgosTerminalTaskState states, isImpossible = False\<rparr>)"

section \<open>Reducers\<close>

record reducer_input =
  reducerTask :: string
  reducerRefs :: "string list"

definition reducerInput :: "jsval \<Rightarrow> reducer_input result" where
  "reducerInput value =
     (if \<not> plainObject value
         \<or> list_ex (\<lambda>f. fst f \<notin> {''taskInstanceId'', ''outputRefs''}) (fieldsOf value)
      then fail ''SGOS_JOIN_REDUCER_INVALID''
      else let tid = jsString (coalesce (getp value ''taskInstanceId'') (JStr []));
               refs = getp value ''outputRefs''
           in if tid = [] \<or> \<not> isArray refs \<or> list_ex (\<lambda>r. \<not> isString r) (elements refs)
              then fail ''SGOS_JOIN_REDUCER_INVALID''
              else Inr \<lparr>reducerTask = tid,
                        reducerRefs = sortPoints (dedupe (map stringOf (elements refs)))\<rparr>)"

definition canonicalSgosReducerInputs :: "jsval \<Rightarrow> reducer_input list result" where
  "canonicalSgosReducerInputs inputs =
     (if \<not> isArray inputs \<or> elements inputs = [] \<or> int (length (elements inputs)) > maximumJoinInputs
      then fail ''SGOS_JOIN_REDUCER_INVALID''
      else andThen (mapResult reducerInput (elements inputs)) (\<lambda>values.
        let canonical = sortBy (byKey reducerTask) values in
        if list_ex (\<lambda>(a, b). reducerTask a = reducerTask b) (adjacentPairs canonical)
        then fail ''SGOS_JOIN_REDUCER_INVALID''
        else Inr canonical))"

definition reduceSgosJoinOutputs :: "jsval \<Rightarrow> jsval \<Rightarrow> string list result" where
  "reduceSgosJoinOutputs reducer inputs =
     (if reducer \<notin> JStr ` set installedJoinReducers then fail ''SGOS_JOIN_REDUCER_UNSUPPORTED''
      else andThen (canonicalSgosReducerInputs inputs) (\<lambda>canonical.
        if reducer = JStr ''canonical-output-ref-set-v1''
        then Inr (sortPoints (dedupe (concat (map reducerRefs canonical))))
        else fail ''SGOS_JOIN_REDUCER_UNSUPPORTED''))"

section \<open>Manual reconciliation\<close>

record reconcile_option =
  optionId :: string
  optionLabel :: string
  optionConsequence :: string

definition terminalStateNames :: "string list" where
  "terminalStateNames = [''succeeded'', ''failed'', ''blocked'', ''cancelled'', ''skipped'']"

definition nullOrString :: "jsval \<Rightarrow> bool" where
  "nullOrString v \<longleftrightarrow> v = JNull \<or> isString v"

definition reconcileOption :: "jsval \<Rightarrow> reconcile_option result" where
  "reconcileOption entry =
     (let tid = getp entry ''taskInstanceId''; state = getp entry ''state'';
          receipt = getp entry ''receiptSha256''; attempt = getp entry ''attemptId''
      in if \<not> plainObject entry \<or> \<not> isString tid \<or> stringOf tid = []
            \<or> state \<notin> JStr ` set terminalStateNames
            \<or> \<not> nullOrString receipt \<or> \<not> nullOrString attempt
         then fail ''SGOS_JOIN_MANUAL_RECONCILE_INVALID''
         else Inr \<lparr>optionId = stringOf tid,
           optionLabel = ''Use outputs from '' @ stringOf tid @ '' ('' @ stringOf state @ '')'',
           optionConsequence =
             ''Select only this predecessor'' @ [CHR 0x27] @ ''s current outputs; receipt=''
             @ jsString (coalesce receipt (JStr ''none'')) @ ''; attempt=''
             @ jsString (coalesce attempt (JStr ''none'')) @ ''.''\<rparr>)"

definition sgosManualReconcileOptions :: "jsval \<Rightarrow> reconcile_option list result" where
  "sgosManualReconcileOptions predecessors =
     (if \<not> isArray predecessors \<or> elements predecessors = []
         \<or> int (length (elements predecessors)) > maximumJoinInputs
      then fail ''SGOS_JOIN_MANUAL_RECONCILE_INVALID''
      else andThen (mapResult reconcileOption (elements predecessors)) (\<lambda>values.
        let options = sortBy (byKey optionId) values in
        if list_ex (\<lambda>(a, b). optionId a = optionId b) (adjacentPairs options)
        then fail ''SGOS_JOIN_MANUAL_RECONCILE_INVALID''
        else Inr options))"

section \<open>Lemmas\<close>

definition joinWellFormed :: "join_contract \<Rightarrow> bool" where
  "joinWellFormed j \<longleftrightarrow>
     joinId j \<noteq> [] \<and> joinTemplate j \<noteq> [] \<and> joinPredecessors j \<noteq> [] \<and>
     sorted_wrt (<) (joinPredecessors j) \<and> int (length (joinPredecessors j)) \<le> maximumJoinInputs \<and>
     (if joinPolicy j = Quorum
      then 1 \<le> requiredSuccesses j \<and> requiredSuccesses j \<le> int (length (joinPredecessors j))
      else requiredSuccesses j = 0) \<and>
     (if joinPolicy j = DeterministicReduce then reducerId j \<in> set installedJoinReducers
      else reducerId j = [])"

lemma policyName_inj [simp]: "policyName p = policyName q \<longleftrightarrow> p = q"
  by (cases p; cases q) auto

lemma find_policyName [simp]: "find (\<lambda>p. p = q) installedJoinPolicies = Some q"
  by (cases q) (simp_all add: installedJoinPolicies_def)

lemma canonicalJoin_wellFormed:
  assumes "canonicalJoin v = Inr j"
  shows "joinWellFormed j"
  using assms unfolding canonicalJoin_def Let_def
  by (auto simp: andThen_Inr checkQuorum_def checkReducer_def joinWellFormed_def
      split: if_splits option.splits)

lemma joinValue_fields:
  "getp (joinValue j) ''joinId'' = JStr (joinId j)"
  "getp (joinValue j) ''taskTemplateId'' = JStr (joinTemplate j)"
  "getp (joinValue j) ''policy'' = JStr (policyName (joinPolicy j))"
  "getp (joinValue j) ''predecessorTaskTemplateIds'' = JArr (map JStr (joinPredecessors j))"
  "suppliedQuorum (joinValue j) = (if joinPolicy j = Quorum then JNum (requiredSuccesses j) else JNull)"
  "suppliedReducer (joinValue j) = (if joinPolicy j = DeterministicReduce then JStr (reducerId j) else JNull)"
  by (auto simp: joinValue_def optField_def suppliedQuorum_def suppliedReducer_def)

lemma canonicalJoin_joinValue:
  assumes "joinWellFormed j"
  shows "canonicalJoin (joinValue j) = Inr j"
proof -
  have ids: "map jsString (map JStr xs) = xs" for xs by (induction xs) auto
  have obj: "plainObject (joinValue j)" by (simp add: joinValue_def)
  show ?thesis
    using assms obj
    by (auto simp: canonicalJoin_def Let_def joinValue_fields mapString_def ids sortPoints_fixed
        joinWellFormed_def checkQuorum_def checkReducer_def refuseIf_def maximumJoinInputs_def
        maxSafeInteger_def comp_def)
qed

lemma canonicalSgosJoins_Inr:
  "canonicalSgosJoins v = Inr js \<longleftrightarrow> int (length (joinValues v)) \<le> maximumTasks \<and>
     (\<exists>cs. mapResult canonicalJoin (joinValues v) = Inr cs \<and> js = sortBy (byKey joinId) cs) \<and>
     distinct (map joinId js) \<and> distinct (map joinTemplate js)"
  unfolding canonicalSgosJoins_def Let_def if_fail_Inr andThen_Inr by (auto simp: linorder_not_less)

lemma canonicalSgosJoins_sorted:
  assumes "canonicalSgosJoins v = Inr js"
  shows "sorted_wrt (<) (map joinId js)"
proof -
  obtain cs where "js = sortBy (byKey joinId) cs" "distinct (map joinId js)"
    using assms by (auto simp: canonicalSgosJoins_Inr)
  then show ?thesis
    using sortBy_byKey_keys [of joinId cs]
    by (simp add: sortPoints_sort strict_sorted_iff)
qed

lemma canonicalSgosJoins_wellFormed:
  assumes "canonicalSgosJoins v = Inr js" "j \<in> set js"
  shows "joinWellFormed j"
proof -
  obtain cs where "list_all2 (\<lambda>v c. canonicalJoin v = Inr c) (joinValues v) cs" "j \<in> set cs"
    using assms by (auto simp: canonicalSgosJoins_Inr mapResult_Inr)
  from list_all2_in_right [OF this] show ?thesis by (auto intro: canonicalJoin_wellFormed)
qed

text \<open>A task that is in a terminal state stays there while its join waits.\<close>

definition stateAdvances :: "task_state \<Rightarrow> task_state \<Rightarrow> bool" where
  "stateAdvances s t \<longleftrightarrow> (isSgosTerminalTaskState s \<longrightarrow> t = s)"

lemma terminal_Succeeded [simp]: "isSgosTerminalTaskState Succeeded"
  by (simp add: isSgosTerminalTaskState_def)

lemma countWhere_mono:
  assumes "list_all2 R xs ys" "\<And>x y. R x y \<Longrightarrow> P x \<Longrightarrow> Q y"
  shows "countWhere P xs \<le> countWhere Q ys"
  using assms by (induction rule: list_all2_induct) (auto simp: countWhere_def)

lemma countWhere_disj:
  "(\<And>x. \<not> (P x \<and> Q x)) \<Longrightarrow> countWhere P xs + countWhere Q xs = countWhere (\<lambda>x. P x \<or> Q x) xs"
  by (induction xs) (auto simp: countWhere_def)

lemma possible_successes:
  "countWhere (\<lambda>s. s = Succeeded) xs + countWhere (\<lambda>s. \<not> isSgosTerminalTaskState s) xs =
   countWhere (\<lambda>s. s = Succeeded \<or> \<not> isSgosTerminalTaskState s) xs"
  by (rule countWhere_disj) (auto simp: isSgosTerminalTaskState_def)

lemma countWhere_none: "list_all (\<lambda>x. \<not> P x) xs \<Longrightarrow> countWhere P xs = 0"
  by (induction xs) (auto simp: countWhere_def)

lemma countWhere_mset: "mset xs = mset ys \<Longrightarrow> countWhere P xs = countWhere P ys"
  unfolding countWhere_def by (metis mset_filter size_mset)

lemma list_all2_all:
  assumes "list_all2 R xs ys" "list_all P xs" "\<And>x y. R x y \<Longrightarrow> P x \<Longrightarrow> Q y"
  shows "list_all Q ys"
  using assms by (induction rule: list_all2_induct) auto

lemma list_all2_ex:
  assumes "list_all2 R xs ys" "list_ex P xs" "\<And>x y. R x y \<Longrightarrow> P x \<Longrightarrow> Q y"
  shows "list_ex Q ys"
  using assms by (induction rule: list_all2_induct) auto

lemma joinReadiness_cases:
  assumes "sgosJoinReadiness (Some j) states = Inr r"
  obtains "joinPolicy j \<in> {AllSuccess, DeterministicReduce}" "r = allSuccessReadiness states"
  | "joinPolicy j = Quorum"
    "isReady r \<longleftrightarrow> requiredSuccesses j \<le> countWhere (\<lambda>s. s = Succeeded) states"
    "isImpossible r \<longleftrightarrow>
       countWhere (\<lambda>s. s = Succeeded \<or> \<not> isSgosTerminalTaskState s) states < requiredSuccesses j"
  | "joinPolicy j \<in> {AllTerminal, ManualReconcile}"
    "isReady r = list_all isSgosTerminalTaskState states" "\<not> isImpossible r"
  using assms possible_successes [of states]
  by (cases "joinPolicy j") (auto simp: sgosJoinReadiness_def Let_def split: if_splits)

lemma readiness_exclusive:
  assumes "sgosJoinReadiness (Some j) states = Inr r"
  shows "\<not> (isReady r \<and> isImpossible r)"
  using assms
proof (cases rule: joinReadiness_cases)
  case 1
  then show ?thesis by (auto simp: allSuccessReadiness_def list_all_iff list_ex_iff)
next
  case 2
  have "countWhere (\<lambda>s. s = Succeeded) states
      \<le> countWhere (\<lambda>s. s = Succeeded \<or> \<not> isSgosTerminalTaskState s) states"
    by (rule countWhere_mono [where R = "(=)"]) (auto simp: list.rel_eq)
  with 2 show ?thesis by simp
qed simp

lemma readiness_decided:
  assumes "sgosJoinReadiness (Some j) states = Inr r" "list_all isSgosTerminalTaskState states"
  shows "isReady r \<or> isImpossible r"
  using assms(1)
proof (cases rule: joinReadiness_cases)
  case 1
  with assms(2) show ?thesis by (auto simp: allSuccessReadiness_def list_all_iff list_ex_iff)
next
  case 2
  have "countWhere (\<lambda>s. \<not> isSgosTerminalTaskState s) states = 0"
    by (rule countWhere_none) (use assms(2) in simp)
  with 2 possible_successes [of states] show ?thesis by auto
qed (use assms(2) in simp)

lemma readiness_stable:
  assumes "sgosJoinReadiness (Some j) xs = Inr r" "sgosJoinReadiness (Some j) ys = Inr r'"
    and adv: "list_all2 stateAdvances xs ys"
  shows "(isReady r \<longrightarrow> isReady r') \<and> (isImpossible r \<longrightarrow> isImpossible r')"
  using assms(1)
proof (cases rule: joinReadiness_cases)
  case 1
  then have "r' = allSuccessReadiness ys"
    using assms(2) by (auto simp: sgosJoinReadiness_def Let_def split: if_splits)
  with 1 show ?thesis
    using list_all2_all [OF adv, of "\<lambda>s. s = Succeeded"] list_all2_ex [OF adv]
    by (auto simp: allSuccessReadiness_def stateAdvances_def)
next
  case 2
  have "countWhere (\<lambda>s. s = Succeeded) xs \<le> countWhere (\<lambda>s. s = Succeeded) ys"
    by (rule countWhere_mono [OF adv]) (auto simp: stateAdvances_def)
  moreover have "countWhere (\<lambda>s. s = Succeeded \<or> \<not> isSgosTerminalTaskState s) ys
      \<le> countWhere (\<lambda>s. s = Succeeded \<or> \<not> isSgosTerminalTaskState s) xs"
    by (rule countWhere_mono [where R = "\<lambda>y x. stateAdvances x y"])
      (use adv in \<open>auto simp: stateAdvances_def list_all2_conv_all_nth\<close>)
  moreover have "isReady r' \<longleftrightarrow> requiredSuccesses j \<le> countWhere (\<lambda>s. s = Succeeded) ys"
    "isImpossible r' \<longleftrightarrow>
      countWhere (\<lambda>s. s = Succeeded \<or> \<not> isSgosTerminalTaskState s) ys < requiredSuccesses j"
    using assms(2) 2(1) by (auto elim: joinReadiness_cases)
  ultimately show ?thesis using 2 by auto
next
  case 3
  then have "isReady r' = list_all isSgosTerminalTaskState ys"
    using assms(2) by (auto elim: joinReadiness_cases)
  with 3 show ?thesis
    using list_all2_all [OF adv, of isSgosTerminalTaskState isSgosTerminalTaskState]
    by (auto simp: stateAdvances_def)
qed

lemma reducerInputs_Inr:
  "canonicalSgosReducerInputs v = Inr rs \<longleftrightarrow>
     isArray v \<and> elements v \<noteq> [] \<and> int (length (elements v)) \<le> maximumJoinInputs \<and>
     (\<exists>vs. mapResult reducerInput (elements v) = Inr vs \<and> distinct (map reducerTask vs) \<and>
           rs = sortBy (byKey reducerTask) vs)"
  unfolding canonicalSgosReducerInputs_def Let_def if_fail_Inr andThen_Inr sortBy_adjacent_distinct
  by auto

lemma reduce_Inr:
  "reduceSgosJoinOutputs red v = Inr out \<longleftrightarrow>
     red = JStr ''canonical-output-ref-set-v1'' \<and>
     (\<exists>rs. canonicalSgosReducerInputs v = Inr rs \<and>
       out = sorted_list_of_set (\<Union>r \<in> set rs. set (reducerRefs r)))"
  by (auto simp: reduceSgosJoinOutputs_def installedJoinReducers_def andThen_Inr sortPoints_dedupe
      simp del: set_dedupe)

lemma canonicalSgosJoins_array_Inr:
  assumes "\<forall>j \<in> set js. joinWellFormed j" "sorted_wrt (<) (map joinId js)"
    "distinct (map joinTemplate js)" "int (length js) \<le> maximumTasks"
  shows "canonicalSgosJoins (JArr (map joinValue js)) = Inr js"
proof -
  have vals: "joinValues (JArr (map joinValue js)) = map joinValue js"
    by (simp add: joinValues_def)
  have "mapResult canonicalJoin (map joinValue js) = Inr js"
    using assms(1) by (auto simp: mapResult_projr canonicalJoin_joinValue intro!: map_idI [symmetric])
  moreover have "sortBy (byKey joinId) js = js"
    by (rule keyed.sortBy_sorted)
      (use assms(2) in \<open>auto simp: byKey_def compare_less_eq sorted_wrt_map elim!: sorted_wrt_mono_rel [rotated]\<close>)
  ultimately show ?thesis
    using assms unfolding canonicalSgosJoins_Inr vals by (auto simp: strict_sorted_iff)
qed

section \<open>Properties\<close>

text \<open>
  C20: canonical joins are a normal form. An accepted declaration (an array or an object map) gives
  contracts in strictly increasing join ID order with distinct templates, each with a non-empty,
  strictly sorted predecessor list, a quorum in \<open>1..n\<close> for the quorum policy only and an installed
  reducer for the reducing policy only; printing them and canonicalizing again changes nothing.
\<close>

theorem joins_normal_form:
  assumes "canonicalSgosJoins v = Inr js"
  shows "sorted_wrt (<) (map joinId js) \<and> distinct (map joinTemplate js) \<and>
         (\<forall>j \<in> set js. joinWellFormed j) \<and>
         canonicalSgosJoins (JArr (map joinValue js)) = Inr js"
proof -
  have "length js = length (joinValues v)" "int (length (joinValues v)) \<le> maximumTasks"
    using assms by (auto simp: canonicalSgosJoins_Inr mapResult_Inr dest: list_all2_lengthD)
  moreover have "distinct (map joinTemplate js)"
    using assms by (simp add: canonicalSgosJoins_Inr)
  moreover have "\<forall>j \<in> set js. joinWellFormed j"
    using canonicalSgosJoins_wellFormed [OF assms] by blast
  ultimately show ?thesis
    using canonicalSgosJoins_sorted [OF assms] canonicalSgosJoins_array_Inr [of js] by simp
qed

definition exampleJoin :: jsval where
  "exampleJoin = JObj [(''j1'', JObj [(''mode'', JStr ''quorum''), (''threshold'', JNum 1),
     (''taskTemplateId'', JStr ''merge''), (''dependsOn'', JArr [JStr ''b'', JStr ''a'', JStr ''b''])])]"

definition exampleContract :: join_contract where
  "exampleContract = \<lparr>joinId = ''j1'', joinTemplate = ''merge'', joinPolicy = Quorum,
     requiredSuccesses = 1, reducerId = [], joinPredecessors = [''a'', ''b'']\<rparr>"

theorem joins_normal_form_witness:
  "canonicalSgosJoins exampleJoin = Inr [exampleContract] \<and> joinWellFormed exampleContract"
proof -
  have run: "canonicalSgosJoins exampleJoin = Inr [exampleContract]" by code_simp
  show ?thesis using run joins_normal_form [OF run] by simp
qed

text \<open>
  C37: the order in which the joins are declared is not an input: a permutation of an accepted
  array of join contracts is accepted with the same canonical contracts.
\<close>

theorem joins_order_independent:
  assumes "canonicalSgosJoins (JArr xs) = Inr js" "mset ys = mset xs"
  shows "canonicalSgosJoins (JArr ys) = Inr js"
proof -
  obtain cs where cs: "mapResult canonicalJoin xs = Inr cs" "js = sortBy (byKey joinId) cs"
    and d: "distinct (map joinId cs)" "distinct (map joinTemplate cs)"
    using assms(1) by (auto simp: canonicalSgosJoins_Inr joinValues_def)
  obtain cs' where cs': "mapResult canonicalJoin ys = Inr cs'" "mset cs' = mset cs"
    using mapResult_perm [OF cs(1) assms(2)] by blast
  have "sortBy (byKey joinId) cs' = js"
    using sortBy_byKey_perm [OF cs'(2) [symmetric] d(1)] cs(2) by simp
  moreover have "length ys = length xs" using assms(2) by (rule mset_eq_length)
  ultimately show ?thesis
    using assms(1) cs' unfolding canonicalSgosJoins_Inr by (auto simp: joinValues_def)
qed

theorem joins_order_independent_witness:
  "canonicalSgosJoins (JArr [joinValue (exampleContract\<lparr>joinId := ''j2'', joinTemplate := ''m2''\<rparr>),
     joinValue exampleContract])
   = Inr [exampleContract, exampleContract\<lparr>joinId := ''j2'', joinTemplate := ''m2''\<rparr>]"
proof -
  have run: "canonicalSgosJoins (JArr [joinValue exampleContract,
      joinValue (exampleContract\<lparr>joinId := ''j2'', joinTemplate := ''m2''\<rparr>)])
    = Inr [exampleContract, exampleContract\<lparr>joinId := ''j2'', joinTemplate := ''m2''\<rparr>]"
    by code_simp
  show ?thesis by (rule joins_order_independent [OF run]) simp
qed

text \<open>
  C14: the join decision. A join is never both ready and impossible; once all its predecessors are
  terminal it is one of the two, so it cannot wait for ever; and while predecessors advance, with
  terminal states staying as they are, a ready join stays ready and an impossible one impossible.
\<close>

theorem join_decision:
  assumes "sgosJoinReadiness (Some j) xs = Inr r" "list_all2 stateAdvances xs ys"
  shows "\<not> (isReady r \<and> isImpossible r) \<and>
         (list_all isSgosTerminalTaskState xs \<longrightarrow> isReady r \<or> isImpossible r) \<and>
         (\<exists>r'. sgosJoinReadiness (Some j) ys = Inr r' \<and>
            (isReady r \<longrightarrow> isReady r') \<and> (isImpossible r \<longrightarrow> isImpossible r'))"
proof -
  have "length xs = length (joinPredecessors j)"
    using assms(1) by (auto simp: sgosJoinReadiness_def split: if_splits)
  moreover have "length ys = length xs" using assms(2) by (simp add: list_all2_lengthD)
  ultimately obtain r' where "sgosJoinReadiness (Some j) ys = Inr r'"
    by (cases "joinPolicy j") (auto simp: sgosJoinReadiness_def Let_def)
  then show ?thesis
    using readiness_exclusive readiness_decided readiness_stable assms by meson
qed

theorem join_decision_witness:
  "sgosJoinReadiness (Some exampleContract) [Succeeded, Running] = Inr \<lparr>isReady = True, isImpossible = False\<rparr> \<and>
   (\<exists>r'. sgosJoinReadiness (Some exampleContract) [Succeeded, Failed] = Inr r' \<and> isReady r')"
proof -
  have run: "sgosJoinReadiness (Some exampleContract) [Succeeded, Running]
      = Inr \<lparr>isReady = True, isImpossible = False\<rparr>" by code_simp
  have "list_all2 stateAdvances [Succeeded, Running] [Succeeded, Failed]" by code_simp
  from join_decision [OF run this] show ?thesis using run by auto
qed

text \<open>
  C32: the installed reducer. When \<open>reduceSgosJoinOutputs\<close> accepts its inputs the result is the
  strictly sorted list of all output references, whatever the order in which the predecessors, or
  the references of one predecessor, are supplied.
\<close>

theorem reducer_is_canonical_union:
  assumes "reduceSgosJoinOutputs red (JArr xs) = Inr out" "mset ys = mset xs"
  shows "reduceSgosJoinOutputs red (JArr ys) = Inr out \<and> sorted_wrt (<) out \<and>
         set out = {stringOf ref | v ref. v \<in> set xs \<and> ref \<in> set (elements (getp v ''outputRefs''))}"
proof -
  obtain vs where red: "red = JStr ''canonical-output-ref-set-v1''"
    and vs: "mapResult reducerInput xs = Inr vs" "distinct (map reducerTask vs)"
    and out: "out = sorted_list_of_set (\<Union>r \<in> set vs. set (reducerRefs r))"
    using assms(1) by (auto simp: reduce_Inr reducerInputs_Inr)
  obtain vs' where vs': "mapResult reducerInput ys = Inr vs'" "mset vs' = mset vs"
    using mapResult_perm [OF vs(1) assms(2)] by blast
  have len: "length ys = length xs" using assms(2) by (rule mset_eq_length)
  have "canonicalSgosReducerInputs (JArr ys) = Inr (sortBy (byKey reducerTask) vs')"
    using assms(1) vs vs' len unfolding reduce_Inr reducerInputs_Inr
    by (auto simp: mset_distinct_map [OF vs'(2)])
  moreover have "set vs' = set vs" using vs'(2) by (rule mset_eq_setD)
  ultimately have perm: "reduceSgosJoinOutputs red (JArr ys) = Inr out"
    using red out by (simp add: reduce_Inr)
  have refs: "set (reducerRefs r) = stringOf ` set (elements (getp v ''outputRefs''))"
    if "reducerInput v = Inr r" for v r
    using that by (auto simp: reducerInput_def Let_def split: if_splits)
  have "(\<Union>r \<in> set vs. set (reducerRefs r)) = (\<Union>v \<in> set xs. stringOf ` set (elements (getp v ''outputRefs'')))"
    using vs(1) unfolding mapResult_Inr
    by (induction rule: list_all2_induct) (auto simp: refs)
  then show ?thesis using perm out by auto
qed

theorem reducer_is_canonical_union_witness:
  "reduceSgosJoinOutputs (JStr ''canonical-output-ref-set-v1'')
     (JArr [JObj [(''taskInstanceId'', JStr ''t2''), (''outputRefs'', JArr [JStr ''a''])],
            JObj [(''taskInstanceId'', JStr ''t1''), (''outputRefs'', JArr [JStr ''b'', JStr ''a''])]])
   = Inr [''a'', ''b'']"
proof -
  have run: "reduceSgosJoinOutputs (JStr ''canonical-output-ref-set-v1'')
     (JArr [JObj [(''taskInstanceId'', JStr ''t1''), (''outputRefs'', JArr [JStr ''b'', JStr ''a''])],
            JObj [(''taskInstanceId'', JStr ''t2''), (''outputRefs'', JArr [JStr ''a''])]])
   = Inr [''a'', ''b'']" by code_simp
  show ?thesis by (rule reducer_is_canonical_union [OF run, THEN conjunct1]) simp
qed

end
