(* ===== verification/SgosResources.thy ===== *)
theory SgosResources
  imports SgosOrder
begin

text \<open>
  \<open>src/sgos/resource-contracts.mjs\<close>: the identity of a resource, the canonical resource lease of
  a task, and the conflict test that decides which tasks may run at the same time.
\<close>

section \<open>Modes and entries\<close>

datatype resource_mode = ReadMode | WriteMode | DeviceMode | ExternalEffectMode

fun modeName :: "resource_mode \<Rightarrow> string" where
  "modeName ReadMode = ''read''"
| "modeName WriteMode = ''write''"
| "modeName DeviceMode = ''device''"
| "modeName ExternalEffectMode = ''external-effect''"

record resource_entry =
  entryKey :: string
  entryMode :: resource_mode

text \<open>The table \<open>FIELD_MODE\<close>, in its enumeration order.\<close>

definition fieldModes :: "(string \<times> resource_mode) list" where
  "fieldModes =
     [(''reads'', ReadMode), (''writes'', WriteMode), (''devices'', DeviceMode),
      (''externalEffects'', ExternalEffectMode)]"

section \<open>Resource keys\<close>

definition backslashToSlash :: "string \<Rightarrow> string" where
  "backslashToSlash = map (\<lambda>c. if c = CHR 0x5C then CHR ''/'' else c)"

text \<open>\<open>.replace(/\/(?:\*\*|\*)$/, '')\<close> and \<open>.replace(/\/$/, '')\<close>.\<close>

definition stripWildcard :: "string \<Rightarrow> string" where
  "stripWildcard s =
     (if endsWith s ''/**'' then take (length s - 3) s
      else if endsWith s ''/*'' then take (length s - 2) s else s)"

definition stripSlash :: "string \<Rightarrow> string" where
  "stripSlash s = (if endsWith s ''/'' then take (length s - 1) s else s)"

text \<open>\<open>segment.replace(/%2e/giu, '.')\<close>.\<close>

fun decodeDots :: "string \<Rightarrow> string" where
  "decodeDots (a # b # c # cs) =
     (if a = CHR ''%'' \<and> b = CHR ''2'' \<and> (c = CHR ''e'' \<or> c = CHR ''E'')
      then CHR ''.'' # decodeDots cs else a # decodeDots (b # c # cs))"
| "decodeDots s = s"

definition traversalSegment :: "string \<Rightarrow> bool" where
  "traversalSegment segment \<longleftrightarrow> decodeDots segment = ''.'' \<or> decodeDots segment = ''..''"

definition normalizedText :: "string \<Rightarrow> string" where
  "normalizedText s = stripSlash (stripWildcard (backslashToSlash (trim s)))"

definition normalizeSgosResourceKey :: "jsval \<Rightarrow> string result" where
  "normalizeSgosResourceKey value =
     (let normalized = normalizedText (jsString (coalesce value (JStr []))) in
      if normalized = [] then fail ''SGOS_RESOURCE_INVALID''
      else if list_ex isControl normalized then fail ''SGOS_RESOURCE_INVALID''
      else if list_ex traversalSegment (splitOn (CHR ''/'') normalized) then fail ''SGOS_RESOURCE_INVALID''
      else Inr normalized)"

definition sgosResourceKeysOverlap :: "string \<Rightarrow> string \<Rightarrow> bool result" where
  "sgosResourceKeysOverlap left right =
     andThen (normalizeSgosResourceKey (JStr left)) (\<lambda>a.
     andThen (normalizeSgosResourceKey (JStr right)) (\<lambda>b.
       Inr (a = ''*'' \<or> b = ''*'' \<or> a = b \<or> startsWith a (b @ ''/'') \<or> startsWith b (a @ ''/''))))"

section \<open>Canonical entries\<close>

definition compareEntry :: "resource_entry \<Rightarrow> resource_entry \<Rightarrow> int" where
  "compareEntry = thenBy (byKey entryKey) (byKey (\<lambda>e. modeName (entryMode e)))"

definition fieldEntries :: "jsval \<Rightarrow> string \<times> resource_mode \<Rightarrow> resource_entry list result" where
  "fieldEntries resources fm =
     (let values = coalesce (getp resources (fst fm)) (JArr []) in
      if \<not> isArray values then fail ''SGOS_RESOURCE_INVALID''
      else mapResult (\<lambda>value. andThen (normalizeSgosResourceKey value)
             (\<lambda>k. Inr \<lparr>entryKey = k, entryMode = snd fm\<rparr>)) (elements values))"

text \<open>
  The \<open>Map\<close> keyed by \<open>key\0mode\<close> keeps one entry per key and mode; a normalized key holds no
  \<open>NUL\<close>, so two entries share a map key exactly when they are equal.
\<close>

definition canonicalSgosResourceEntries :: "jsval \<Rightarrow> resource_entry list result" where
  "canonicalSgosResourceEntries resources =
     andThen (mapResult (fieldEntries resources) fieldModes) (\<lambda>entriesByField.
       (let result = sortBy compareEntry (dedupe (concat entriesByField)) in
        if int (length result) > maximumResourceLeaseEntries then fail ''SGOS_RESOURCE_LEASE_LIMIT''
        else Inr result))"

section \<open>Conflicts\<close>

definition modesConflict :: "resource_mode \<Rightarrow> resource_mode \<Rightarrow> bool" where
  "modesConflict left right =
     (if left = ReadMode \<and> right = ReadMode then False
      else if (left = ReadMode \<or> left = WriteMode) \<and> (right = ReadMode \<or> right = WriteMode)
      then left = WriteMode \<or> right = WriteMode
      else left = right)"

definition entriesClash :: "resource_entry \<Rightarrow> resource_entry \<Rightarrow> bool result" where
  "entriesClash left right =
     (if modesConflict (entryMode left) (entryMode right)
      then sgosResourceKeysOverlap (entryKey left) (entryKey right) else Inr False)"

text \<open>The nested loops return at the first clash; a key that does not normalize throws there.\<close>

fun anyResult :: "('a \<Rightarrow> bool result) \<Rightarrow> 'a list \<Rightarrow> bool result" where
  "anyResult p [] = Inr False"
| "anyResult p (x # xs) = andThen (p x) (\<lambda>b. if b then Inr True else anyResult p xs)"

definition sgosResourceEntriesConflict :: "resource_entry list \<Rightarrow> resource_entry list \<Rightarrow> bool result" where
  "sgosResourceEntriesConflict leftEntries rightEntries =
     anyResult (\<lambda>left. anyResult (entriesClash left) rightEntries) leftEntries"

definition compareConflict :: "resource_entry \<times> resource_entry \<Rightarrow> resource_entry \<times> resource_entry \<Rightarrow> int" where
  "compareConflict = thenBy (\<lambda>x y. compareEntry (fst x) (fst y)) (\<lambda>x y. compareEntry (snd x) (snd y))"

definition sgosResourceConflictDetails ::
    "resource_entry list \<Rightarrow> resource_entry list \<Rightarrow> (resource_entry \<times> resource_entry) list result" where
  "sgosResourceConflictDetails leftEntries rightEntries =
     andThen
       (mapResult (\<lambda>(left, right). andThen (entriesClash left right)
            (\<lambda>b. Inr (if b then [(left, right)] else [])))
          (List.product leftEntries rightEntries))
       (\<lambda>conflicts. Inr (sortBy compareConflict (concat conflicts)))"

section \<open>Lemmas\<close>

lemma modeName_inj [simp]: "modeName m = modeName n \<longleftrightarrow> m = n"
  by (cases m; cases n) auto

interpretation entries: strict_comparator compareEntry
proof -
  have c: "sort_comparator compareEntry"
    unfolding compareEntry_def by (rule keyed2.sort_comparator_axioms)
  moreover have "strict_comparator_axioms compareEntry"
    by unfold_locales
      (auto simp: compareEntry_def thenBy_def byKey_def compare_simps split: if_splits
        intro: resource_entry.equality)
  ultimately show "strict_comparator compareEntry" by (rule strict_comparator.intro)
qed

lemma anyResult_False: "anyResult p xs = Inr False \<longleftrightarrow> (\<forall>x \<in> set xs. p x = Inr False)"
  by (induction xs) (auto simp: andThen_Inr)

lemma anyResult_True: "anyResult p xs = Inr True \<Longrightarrow> \<exists>x \<in> set xs. p x = Inr True"
proof (induction xs)
  case (Cons x xs)
  then show ?case by (auto simp: andThen_Inr split: if_splits)
qed simp

lemma anyResult_total: "\<forall>x \<in> set xs. \<exists>b. p x = Inr b \<Longrightarrow> \<exists>b. anyResult p xs = Inr b"
proof (induction xs)
  case (Cons x xs)
  then obtain b where "p x = Inr b" by auto
  with Cons show ?case by (cases b) auto
qed (auto intro: exI [of _ False])

lemma modesConflict_sym: "modesConflict m n = modesConflict n m"
  by (auto simp: modesConflict_def)

lemma overlap_sym: "sgosResourceKeysOverlap a b = Inr v \<longleftrightarrow> sgosResourceKeysOverlap b a = Inr v"
  by (auto simp: sgosResourceKeysOverlap_def andThen_Inr)

lemma entriesClash_sym: "entriesClash a b = Inr v \<longleftrightarrow> entriesClash b a = Inr v"
  by (simp add: entriesClash_def modesConflict_sym overlap_sym)

lemma conflict_False:
  "sgosResourceEntriesConflict ls rs = Inr False \<longleftrightarrow>
     (\<forall>l \<in> set ls. \<forall>r \<in> set rs. entriesClash l r = Inr False)"
  by (simp add: sgosResourceEntriesConflict_def anyResult_False)

lemma normalizeSgosResourceKey_Inr:
  "normalizeSgosResourceKey v = Inr k \<longleftrightarrow>
     k = normalizedText (jsString (coalesce v (JStr []))) \<and> k \<noteq> [] \<and> \<not> list_ex isControl k \<and>
     \<not> list_ex traversalSegment (splitOn (CHR ''/'') k)"
  by (auto simp: normalizeSgosResourceKey_def Let_def)

lemma canonicalSgosResourceEntries_Inr:
  "canonicalSgosResourceEntries r = Inr es \<longleftrightarrow>
     (\<exists>fss. mapResult (fieldEntries r) fieldModes = Inr fss \<and>
        es = sortBy compareEntry (dedupe (concat fss)) \<and>
        int (length es) \<le> maximumResourceLeaseEntries)"
  unfolding canonicalSgosResourceEntries_def andThen_Inr Let_def
  by (rule ex_cong1) (auto simp: linorder_not_less)

lemma fieldEntries_Inr:
  "fieldEntries r (f, m) = Inr es \<longleftrightarrow>
     isArray (coalesce (getp r f) (JArr [])) \<and>
     list_all2 (\<lambda>v e. normalizeSgosResourceKey v = Inr (entryKey e) \<and> entryMode e = m)
       (elements (coalesce (getp r f) (JArr []))) es"
proof -
  have "(\<lambda>v e. \<exists>k. normalizeSgosResourceKey v = Inr k \<and> \<lparr>entryKey = k, entryMode = m\<rparr> = e) =
        (\<lambda>v e. normalizeSgosResourceKey v = Inr (entryKey e) \<and> entryMode e = m)"
    by (auto simp: fun_eq_iff intro: resource_entry.equality)
  then show ?thesis
    by (simp add: fieldEntries_def Let_def mapResult_Inr andThen_Inr)
qed

lemma canonicalEntry_key:
  assumes "canonicalSgosResourceEntries r = Inr es" "e \<in> set es"
  shows "\<exists>v. normalizeSgosResourceKey v = Inr (entryKey e)"
proof -
  obtain fss where fss: "list_all2 (\<lambda>fm es. fieldEntries r fm = Inr es) fieldModes fss"
    and "e \<in> set (concat fss)"
    using assms by (auto simp: canonicalSgosResourceEntries_Inr mapResult_Inr)
  then obtain fs where fs: "fs \<in> set fss" "e \<in> set fs" by auto
  obtain f m where "fieldEntries r (f, m) = Inr fs"
    using list_all2_in_right [OF fss fs(1)] by auto
  then show ?thesis
    using list_all2_in_right [OF _ fs(2)] by (auto simp: fieldEntries_Inr)
qed

lemma conflictDetails_Inr:
  assumes "sgosResourceConflictDetails ls rs = Inr ds"
  shows "set ds = {(l, r). l \<in> set ls \<and> r \<in> set rs \<and> entriesClash l r = Inr True}"
proof -
  let ?P = "\<lambda>p c. \<exists>b. entriesClash (fst p) (snd p) = Inr b \<and> (if b then [(fst p, snd p)] else []) = c"
  obtain cs where cs: "list_all2 ?P (List.product ls rs) cs"
    and ds: "ds = sortBy compareConflict (concat cs)"
    using assms
    by (auto simp: sgosResourceConflictDetails_def andThen_Inr mapResult_Inr case_prod_unfold)
  from cs have "set (concat cs) = {p. p \<in> set (List.product ls rs) \<and> entriesClash (fst p) (snd p) = Inr True}"
    by (induction rule: list_all2_induct) (auto split: if_splits)
  with ds show ?thesis by auto
qed

lemma conflictDetails_defined:
  "(\<exists>ds. sgosResourceConflictDetails ls rs = Inr ds) \<longleftrightarrow>
     (\<forall>l \<in> set ls. \<forall>r \<in> set rs. \<exists>b. entriesClash l r = Inr b)"
proof -
  have *: "(\<exists>ys. mapResult f xs = Inr ys) \<longleftrightarrow> (\<forall>x \<in> set xs. \<exists>y. f x = Inr y)"
    for f :: "resource_entry \<times> resource_entry \<Rightarrow> (resource_entry \<times> resource_entry) list result" and xs
    by (induction xs) (auto simp: andThen_Inr)
  show ?thesis
    by (auto simp: sgosResourceConflictDetails_def andThen_Inr * case_prod_unfold)
qed

lemma conflictDetails_flip:
  "sgosResourceConflictDetails ls rs = Inr ds \<Longrightarrow> \<exists>ds'. sgosResourceConflictDetails rs ls = Inr ds'"
  using conflictDetails_defined entriesClash_sym by meson

lemma conflict_decided:
  assumes "sgosResourceConflictDetails ls rs = Inr ds"
  shows "sgosResourceEntriesConflict ls rs = Inr (ds \<noteq> [])"
proof -
  have dec: "\<exists>b. entriesClash l r = Inr b" if "l \<in> set ls" "r \<in> set rs" for l r
    using assms conflictDetails_defined that by blast
  have inner: "\<exists>b. anyResult (entriesClash l) rs = Inr b" if "l \<in> set ls" for l
    by (rule anyResult_total) (use dec that in auto)
  then obtain b where b: "sgosResourceEntriesConflict ls rs = Inr b"
    using anyResult_total [of ls "\<lambda>l. anyResult (entriesClash l) rs"]
    by (auto simp: sgosResourceEntriesConflict_def)
  have "b \<longleftrightarrow> ds \<noteq> []"
  proof
    assume b
    then obtain l r where "l \<in> set ls" "r \<in> set rs" "entriesClash l r = Inr True"
      using b unfolding sgosResourceEntriesConflict_def by (auto dest!: anyResult_True)
    with conflictDetails_Inr [OF assms] show "ds \<noteq> []" by auto
  next
    assume "ds \<noteq> []"
    then obtain p where "p \<in> set ds" by (cases ds) auto
    then have "fst p \<in> set ls" "snd p \<in> set rs" "entriesClash (fst p) (snd p) = Inr True"
      using conflictDetails_Inr [OF assms] by auto
    moreover have "\<not> b \<Longrightarrow> \<forall>l \<in> set ls. \<forall>r \<in> set rs. entriesClash l r = Inr False"
      using b conflict_False [of ls rs] by simp
    ultimately show b by fastforce
  qed
  with b show ?thesis by simp
qed

lemma compareEntry_flip: "compareEntry b a = - compareEntry a b"
  by (simp add: compareEntry_def thenBy_def byKey_def compare_flip [of "entryKey a" "entryKey b"]
      compare_flip [of "modeName (entryMode a)" "modeName (entryMode b)"])

lemma compareEntry_pos: "0 < compareEntry b a \<longleftrightarrow> compareEntry a b < 0"
  using compareEntry_flip [of a b] by simp

lemma canonicalEntry_iff:
  assumes "canonicalSgosResourceEntries r = Inr es"
  shows "e \<in> set es \<longleftrightarrow> (\<exists>f v. (f, entryMode e) \<in> set fieldModes \<and>
     v \<in> set (elements (coalesce (getp r f) (JArr []))) \<and> normalizeSgosResourceKey v = Inr (entryKey e))"
proof -
  obtain fss where fss: "list_all2 (\<lambda>fm es. fieldEntries r fm = Inr es) fieldModes fss"
    and es: "es = sortBy compareEntry (dedupe (concat fss))"
    using assms by (auto simp: canonicalSgosResourceEntries_Inr mapResult_Inr)
  show ?thesis
  proof
    assume "e \<in> set es"
    then obtain fs where fs: "fs \<in> set fss" "e \<in> set fs" using es by auto
    obtain f m where fm: "(f, m) \<in> set fieldModes" "fieldEntries r (f, m) = Inr fs"
      using list_all2_in_right [OF fss fs(1)] by auto
    with list_all2_in_right [OF _ fs(2)] show "\<exists>f v. (f, entryMode e) \<in> set fieldModes \<and>
       v \<in> set (elements (coalesce (getp r f) (JArr []))) \<and> normalizeSgosResourceKey v = Inr (entryKey e)"
      unfolding fieldEntries_Inr by blast
  next
    assume "\<exists>f v. (f, entryMode e) \<in> set fieldModes \<and>
       v \<in> set (elements (coalesce (getp r f) (JArr []))) \<and> normalizeSgosResourceKey v = Inr (entryKey e)"
    then obtain f v where f: "(f, entryMode e) \<in> set fieldModes" and
      v: "v \<in> set (elements (coalesce (getp r f) (JArr [])))" "normalizeSgosResourceKey v = Inr (entryKey e)" by blast
    obtain fs where fs: "fs \<in> set fss" "fieldEntries r (f, entryMode e) = Inr fs"
      using list_all2_in_left [OF fss f] by auto
    then obtain e' where "e' \<in> set fs" "normalizeSgosResourceKey v = Inr (entryKey e')" "entryMode e' = entryMode e"
      using list_all2_in_left [OF _ v(1)] by (auto simp: fieldEntries_Inr)
    then have "e \<in> set fs" using v by (metis old.unit.exhaust resource_entry.equality sum.inject(2))
    then show "e \<in> set es" using fs es by auto
  qed
qed

text \<open>
  The contract between the conflict test and a scheduler that selects greedily: clearance does not
  depend on which side is called left. A scheduler that clears every newcomer against the tasks
  selected before it then ends with a selection in which any two tasks are clear of each other.
\<close>

locale symmetric_clash =
  fixes clash :: "'a \<Rightarrow> 'a \<Rightarrow> bool result"
  assumes flip: "clash a b = Inr False \<Longrightarrow> clash b a = Inr False"
begin

abbreviation apart :: "'a list \<Rightarrow> bool" where
  "apart xs \<equiv> sorted_wrt (\<lambda>a b. clash a b = Inr False) xs"

lemma apart_snoc: "apart xs \<Longrightarrow> \<forall>x \<in> set xs. clash c x = Inr False \<Longrightarrow> apart (xs @ [c])"
  by (simp add: sorted_wrt_append flip)

lemma apart_nth:
  assumes "apart xs" "i < length xs" "j < length xs" "i \<noteq> j"
  shows "clash (xs ! i) (xs ! j) = Inr False"
proof (cases "i < j")
  case True
  then show ?thesis using sorted_wrt_nth_less [OF assms(1) _ assms(3)] by simp
next
  case False
  then have "clash (xs ! j) (xs ! i) = Inr False"
    using sorted_wrt_nth_less [OF assms(1) _ assms(2)] assms(4) by simp
  then show ?thesis by (rule flip)
qed

end

lemma conflict_flip:
  "sgosResourceEntriesConflict ls rs = Inr False \<Longrightarrow> sgosResourceEntriesConflict rs ls = Inr False"
  unfolding conflict_False by (intro ballI) (rule entriesClash_sym [THEN iffD1], simp)

interpretation leases: symmetric_clash "\<lambda>a b. sgosResourceEntriesConflict (lease a) (lease b)" for lease
  by unfold_locales (rule conflict_flip)

text \<open>When normalizing a normalized key leaves it alone.\<close>

lemma length_trim: "length (trim s) \<le> length s"
  unfolding trim_def by (metis (no_types) dual_order.trans length_dropWhile_le length_rev)

lemma trim_first:
  assumes "s \<noteq> []" "\<not> isSpace (hd s)"
  shows "trim s = s \<longleftrightarrow> \<not> isSpace (last s)"
  using assms trim_ends(2) [of s] trim_fixpoint [of s] by metis

lemma stripWildcard_length: "length (stripWildcard s) \<le> length s"
  by (simp add: stripWildcard_def)

lemma stripSlash_length: "length (stripSlash s) \<le> length s"
  by (simp add: stripSlash_def)

lemma stripWildcard_id: "length (stripWildcard s) = length s \<longleftrightarrow> \<not> endsWith s ''/**'' \<and> \<not> endsWith s ''/*''"
  by (auto simp: stripWildcard_def endsWith_def)

lemma stripSlash_id: "length (stripSlash s) = length s \<longleftrightarrow> \<not> endsWith s ''/''"
  by (auto simp: stripSlash_def endsWith_def)

lemma strip_both: "stripSlash (stripWildcard k) = k \<longleftrightarrow>
    \<not> endsWith k ''/'' \<and> \<not> endsWith k ''/*'' \<and> \<not> endsWith k ''/**''"
proof
  assume eq: "stripSlash (stripWildcard k) = k"
  then have "length (stripWildcard k) = length k"
    using stripSlash_length [of "stripWildcard k"] stripWildcard_length [of k] by simp
  with eq show "\<not> endsWith k ''/'' \<and> \<not> endsWith k ''/*'' \<and> \<not> endsWith k ''/**''"
    using stripWildcard_id [of k] stripSlash_id [of k] by (simp add: stripWildcard_def)
next
  assume "\<not> endsWith k ''/'' \<and> \<not> endsWith k ''/*'' \<and> \<not> endsWith k ''/**''"
  then show "stripSlash (stripWildcard k) = k" by (simp add: stripSlash_def stripWildcard_def)
qed

lemma normalizedText_prefix: "\<exists>n. normalizedText s = take n (backslashToSlash (trim s))"
proof -
  have t: "\<exists>n. stripSlash u = take n u" "\<exists>n. stripWildcard u = take n u" for u
    unfolding stripSlash_def stripWildcard_def by (metis order_refl take_all)+
  obtain m n where "stripWildcard (backslashToSlash (trim s)) = take m (backslashToSlash (trim s))"
    and "stripSlash (stripWildcard (backslashToSlash (trim s))) =
      take n (stripWildcard (backslashToSlash (trim s)))"
    using t by meson
  then show ?thesis unfolding normalizedText_def by (metis take_take)
qed

lemma normalizedText_fixpoint:
  assumes "k = normalizedText s" "k \<noteq> []"
  shows "normalizedText k = k \<longleftrightarrow>
    \<not> isSpace (last k) \<and> \<not> endsWith k ''/'' \<and> \<not> endsWith k ''/*'' \<and> \<not> endsWith k ''/**''"
proof -
  obtain n where k: "k = take n (backslashToSlash (trim s))"
    using normalizedText_prefix assms(1) by blast
  then have bs: "backslashToSlash k = k"
    by (auto simp: backslashToSlash_def take_map)
  have "hd k = (if hd (trim s) = CHR 0x5C then CHR ''/'' else hd (trim s))" "trim s \<noteq> []"
    using k assms(2) by (auto simp: backslashToSlash_def hd_map)
  then have hd: "\<not> isSpace (hd k)"
    using trim_ends(1) [of s] by (auto simp: isSpace_def codePoint_def)
  have len: "length (normalizedText k) \<le> length (stripWildcard (backslashToSlash (trim k)))"
    "length (stripWildcard (backslashToSlash (trim k))) \<le> length (trim k)"
    using stripSlash_length stripWildcard_length [of "backslashToSlash (trim k)"]
    unfolding normalizedText_def by (simp_all add: backslashToSlash_def)
  have "trim k = k" if "normalizedText k = k"
    using len that length_trim [of k] by (intro trim_length_eq) simp
  moreover have "stripSlash (stripWildcard k) = k \<longleftrightarrow>
      \<not> endsWith k ''/'' \<and> \<not> endsWith k ''/*'' \<and> \<not> endsWith k ''/**''"
    using strip_both [of k] by blast
  ultimately show ?thesis
    using trim_first [OF assms(2) hd] bs unfolding normalizedText_def by metis
qed

section \<open>Properties\<close>

lemma canonical_entries_sorted:
  assumes "canonicalSgosResourceEntries r = Inr es"
  shows "sorted_wrt (\<lambda>a b. compareEntry a b < 0) es" "int (length es) \<le> maximumResourceLeaseEntries"
  using entries.strictly_sorted [of es] assms
  by (auto simp: canonicalSgosResourceEntries_Inr not_le compareEntry_pos)

text \<open>
  C8: the canonical resource lease. When \<open>canonicalSgosResourceEntries\<close> accepts a task's
  resource declaration, the entries are exactly the normalized keys of the declared values, each
  with the mode of the field that declares it; they are distinct, strictly increasing in the
  (key, mode) order, at most 256, and every key is non-empty, free of control characters and of
  traversal segments.
\<close>

theorem canonical_lease:
  assumes "canonicalSgosResourceEntries r = Inr es"
  shows "(\<forall>e. e \<in> set es \<longleftrightarrow> (\<exists>f v. (f, entryMode e) \<in> set fieldModes \<and>
             v \<in> set (elements (coalesce (getp r f) (JArr []))) \<and>
             normalizeSgosResourceKey v = Inr (entryKey e)))
         \<and> sorted_wrt (\<lambda>a b. compareEntry a b < 0) es \<and> length es \<le> 256
         \<and> (\<forall>e \<in> set es. entryKey e \<noteq> [] \<and> \<not> list_ex isControl (entryKey e) \<and>
              \<not> list_ex traversalSegment (splitOn (CHR ''/'') (entryKey e)))"
    (is "?S \<and> ?O \<and> ?L \<and> ?K")
proof (intro conjI)
  show ?S using canonicalEntry_iff [OF assms] by blast
  show ?O by (rule canonical_entries_sorted [OF assms])
  show ?L using assms by (auto simp: canonicalSgosResourceEntries_Inr maximumResourceLeaseEntries_def)
  show ?K using canonicalEntry_key [OF assms] by (force simp: normalizeSgosResourceKey_Inr)
qed

theorem canonical_lease_witness:
  "canonicalSgosResourceEntries (JObj [(''writes'', JArr [JStr ''b/'', JStr '' b'']),
          (''reads'', JArr [JStr ''a/**''])]) =
      Inr [\<lparr>entryKey = ''a'', entryMode = ReadMode\<rparr>, \<lparr>entryKey = ''b'', entryMode = WriteMode\<rparr>] \<and>
   length [\<lparr>entryKey = ''a'', entryMode = ReadMode\<rparr>, \<lparr>entryKey = ''b'', entryMode = WriteMode\<rparr>] \<le> 256"
proof -
  have run: "canonicalSgosResourceEntries (JObj [(''writes'', JArr [JStr ''b/'', JStr '' b'']),
          (''reads'', JArr [JStr ''a/**''])]) =
      Inr [\<lparr>entryKey = ''a'', entryMode = ReadMode\<rparr>, \<lparr>entryKey = ''b'', entryMode = WriteMode\<rparr>]"
    by code_simp
  show ?thesis using run canonical_lease [OF run] by blast
qed



text \<open>
  C40: when a canonical key is its own normal form. A key that \<open>normalizeSgosResourceKey\<close> has
  returned is returned unchanged by a second normalization exactly when it does not end in white
  space, in \<open>/\<close> or in a wildcard segment. One pass strips one wildcard and one slash only, so the
  remaining case is reached, for example by \<open>a//\<close>.
\<close>

theorem normalization_fixpoints:
  assumes "normalizeSgosResourceKey v = Inr k"
  shows "normalizeSgosResourceKey (JStr k) = Inr k \<longleftrightarrow>
    \<not> isSpace (last k) \<and> \<not> endsWith k ''/'' \<and> \<not> endsWith k ''/*'' \<and> \<not> endsWith k ''/**''"
proof -
  have "normalizeSgosResourceKey (JStr k) = Inr k \<longleftrightarrow> normalizedText k = k"
    using assms by (auto simp: normalizeSgosResourceKey_Inr)
  then show ?thesis
    using normalizedText_fixpoint assms by (auto simp: normalizeSgosResourceKey_Inr)
qed

theorem normalization_fixpoints_witness:
  "normalizeSgosResourceKey (JStr ''a//'') = Inr ''a/'' \<and> normalizeSgosResourceKey (JStr ''a/'') \<noteq> Inr ''a/''"
proof -
  have run: "normalizeSgosResourceKey (JStr ''a//'') = Inr ''a/''" by code_simp
  moreover have "endsWith ''a/'' ''/''" by code_simp
  ultimately show ?thesis using normalization_fixpoints [OF run] by blast
qed

text \<open>A declared resource whose canonical key cannot be compared with itself.\<close>

lemma lone_slash_not_comparable:
  "normalizeSgosResourceKey (JStr ''//'') = Inr ''/'' \<and>
   sgosResourceKeysOverlap ''/'' ''/'' = fail ''SGOS_RESOURCE_INVALID''"
  by code_simp

end
