(* ===== verification/SgosScheduler.thy ===== *)
theory SgosScheduler
  imports SgosJoins SgosResources "HOL-Library.Sublist"
begin

text \<open>
  \<open>src/sgos/scheduler.mjs\<close>: which tasks of a Process may run now. \<open>sgosTaskReadiness\<close> decides one
  task; \<open>deterministicSgosDispatchPlan\<close> selects, greedily and in canonical order, ready tasks that
  fit the parallel ceiling, do not conflict over resources with a running or an already selected
  task, and stay within the parallel ceilings of their fan-out groups.
\<close>

section \<open>Lookups\<close>

text \<open>\<open>new Map(pairs)\<close>: a later template with the same ID replaces the earlier one in place.\<close>

definition templateMap :: "gvm_program \<Rightarrow> (string \<times> task_template) list" where
  "templateMap program =
     foldl (\<lambda>m t. AList.update (templateId t) t m) [] (programTemplates program)"

definition templateNamed :: "gvm_program \<Rightarrow> string \<Rightarrow> task_template option" where
  "templateNamed program k = map_of (templateMap program) k"

definition activeTask :: "gvm_process \<Rightarrow> task_instance \<Rightarrow> bool" where
  "activeTask process task \<longleftrightarrow> list_ex (\<lambda>a. a \<in> set (activeExecutions process)) (taskAttemptIds task)"

definition activeTaskIds :: "gvm_process \<Rightarrow> string list" where
  "activeTaskIds process = dedupe (map instanceId (filter (activeTask process) (tasksOf process)))"

definition predecessorTasks :: "gvm_process \<Rightarrow> task_instance \<Rightarrow> task_instance list" where
  "predecessorTasks process task = List.map_filter (taskNamed process) (taskPredecessors task)"

section \<open>Readiness\<close>

definition dynamicCoordinator :: "task_template \<Rightarrow> bool" where
  "dynamicCoordinator template = truthy (getp (templateMetadata template) ''dynamicFanoutCoordinator'')"

definition allSucceeded :: "task_instance list \<Rightarrow> bool" where
  "allSucceeded = list_all (\<lambda>t. taskState t = Succeeded)"

definition sgosTaskReadiness :: "gvm_program \<Rightarrow> gvm_process \<Rightarrow> task_instance \<Rightarrow> readiness result" where
  "sgosTaskReadiness program process task =
     (case templateNamed program (instanceTemplate task) of
        None \<Rightarrow> fail ''SGOS_SCHEDULER_INVALID''
      | Some template \<Rightarrow>
        let predecessors = predecessorTasks process task in
        if length predecessors \<noteq> length (taskPredecessors task) then fail ''SGOS_SCHEDULER_INVALID''
        else if templateOpcode template \<noteq> JOIN then
          (if templateOpcode template = END then
             Inr \<lparr>isReady = allSucceeded predecessors \<and>
                    list_all (\<lambda>t. isSgosTerminalTaskState (taskState t))
                      (filter (\<lambda>t. instanceId t \<noteq> instanceId task) (tasksOf process)),
                  isImpossible = False\<rparr>
           else Inr \<lparr>isReady = allSucceeded predecessors, isImpossible = False\<rparr>)
        else andThen (sgosJoinForTask program (templateId template)) (\<lambda>found.
          case found of None \<Rightarrow> fail ''SGOS_JOIN_CONTRACT_MISSING''
          | Some join \<Rightarrow>
            if dynamicCoordinator template then
              (if joinPolicy join \<noteq> AllSuccess then fail ''SGOS_DYNAMIC_FANOUT_EXPANSION_INVALID''
               else Inr (allSuccessReadiness (map taskState predecessors)))
            else sgosJoinReadiness (Some join) (map taskState predecessors)))"

section \<open>Fan-out membership\<close>

record membership =
  memberParent :: string
  memberItem :: string
  memberMaximum :: int

definition bindingMembership :: "fanout_binding \<Rightarrow> jsval" where
  "bindingMembership b =
     JObj [(''parentTaskId'', JStr (bindingParent b)), (''itemKey'', JStr (bindingItemKey b)),
           (''maximumParallel'', JNum (bindingMaximumParallel b))]"

definition membershipOf :: "jsval \<Rightarrow> membership result" where
  "membershipOf entry =
     (let parent = getp entry ''parentTaskId''; item = getp entry ''itemKey'';
          maximum = getp entry ''maximumParallel''
      in if \<not> isString parent \<or> stringOf parent = [] \<or> \<not> isString item \<or> stringOf item = []
            \<or> \<not> isSafeInteger maximum \<or> numberOf maximum < 1 \<or> numberOf maximum > maximumFanoutParallel
         then fail ''SGOS_FANOUT_INVALID''
         else Inr \<lparr>memberParent = stringOf parent, memberItem = stringOf item,
                   memberMaximum = numberOf maximum\<rparr>)"

definition taskFanoutMemberships :: "task_template \<Rightarrow> task_instance option \<Rightarrow> membership list result" where
  "taskFanoutMemberships template task =
     (let metadata = coalesce (templateMetadata template) (JObj []);
          lineage = getp metadata ''fanoutLineage'';
          own = getp metadata ''fanout'';
          bound = (case task of None \<Rightarrow> None | Some t \<Rightarrow> taskFanoutBinding t)
      in if \<not> nullish lineage \<and> \<not> isArray lineage then fail ''SGOS_FANOUT_INVALID''
         else andThen (mapResult membershipOf
              (elements (coalesce lineage (JArr []))
               @ (if truthy own then [own] else [])
               @ (case bound of None \<Rightarrow> [] | Some b \<Rightarrow> [bindingMembership b]))) (\<lambda>memberships.
           if length (dedupe (map memberParent memberships)) \<noteq> length memberships
           then fail ''SGOS_FANOUT_INVALID'' else Inr memberships))"

text \<open>The first loop of the plan: every template's memberships agree on the ceiling of each group.\<close>

definition groupCeilings :: "(string \<times> int) list \<Rightarrow> membership \<Rightarrow> (string \<times> int) list result" where
  "groupCeilings limits m =
     (if (case map_of limits (memberParent m) of None \<Rightarrow> False | Some prior \<Rightarrow> prior \<noteq> memberMaximum m)
      then fail ''SGOS_FANOUT_INVALID''
      else Inr (AList.update (memberParent m) (memberMaximum m) limits))"

definition templateCeilings ::
    "gvm_process \<Rightarrow> (string \<times> int) list \<Rightarrow> task_template \<Rightarrow> (string \<times> int) list result" where
  "templateCeilings process limits template =
     (let matching = filter (\<lambda>t. instanceTemplate t = templateId template) (tasksOf process) in
      andThen (taskFanoutMemberships template (if length matching = 1 then Some (hd matching) else None))
        (\<lambda>memberships. foldResult groupCeilings limits memberships))"

definition fanoutCeilings :: "gvm_program \<Rightarrow> gvm_process \<Rightarrow> (string \<times> int) list result" where
  "fanoutCeilings program process =
     foldResult (templateCeilings process) [] (map snd (templateMap program))"

section \<open>Selection\<close>

record scheduled =
  schedInstance :: string
  schedTemplate :: string
  schedOpcode :: gvm_opcode
  schedEntries :: "resource_entry list"
  schedMemberships :: "membership list"

definition taskOrder :: "scheduled \<Rightarrow> scheduled \<Rightarrow> int" where
  "taskOrder = thenBy (byKey schedTemplate) (byKey schedInstance)"

definition schedule :: "gvm_program \<Rightarrow> task_instance \<Rightarrow> scheduled result" where
  "schedule program task =
     (case templateNamed program (instanceTemplate task) of None \<Rightarrow> Inl NativeError
      | Some template \<Rightarrow>
        andThen (canonicalSgosResourceEntries (templateResources template)) (\<lambda>es.
        andThen (taskFanoutMemberships template (Some task)) (\<lambda>ms.
          Inr \<lparr>schedInstance = instanceId task, schedTemplate = instanceTemplate task,
            schedOpcode = templateOpcode template, schedEntries = es, schedMemberships = ms\<rparr>)))"

definition activeScheduled :: "gvm_program \<Rightarrow> gvm_process \<Rightarrow> scheduled list result" where
  "activeScheduled program process =
     mapResult (\<lambda>k. case taskNamed process k of None \<Rightarrow> Inl NativeError | Some t \<Rightarrow> schedule program t)
       (activeTaskIds process)"

definition eligibleTask :: "task_instance \<Rightarrow> bool" where
  "eligibleTask task \<longleftrightarrow> taskState task \<in> {Planned, Waiting, Ready}"

definition readyScheduled :: "gvm_program \<Rightarrow> gvm_process \<Rightarrow> scheduled list result" where
  "readyScheduled program process =
     andThen (mapResult (\<lambda>t. andThen (sgosTaskReadiness program process t) (\<lambda>r. Inr (t, isReady r)))
         (filter eligibleTask (tasksOf process))) (\<lambda>decided.
     andThen (mapResult (schedule program) (map fst (filter snd decided))) (\<lambda>ready.
       Inr (sortBy taskOrder ready)))"

text \<open>
  A \<open>Map\<close> from a group to the \<open>Set\<close> of its item keys: an association list with lists without
  repetition, in insertion order.
\<close>

type_synonym group_items = "(string \<times> string list) list"

definition addMembership :: "group_items \<Rightarrow> membership \<Rightarrow> group_items" where
  "addMembership groups m =
     AList.update (memberParent m)
       (dedupe (lookupList groups (memberParent m) @ [memberItem m])) groups"

definition addMemberships :: "group_items \<Rightarrow> scheduled \<Rightarrow> group_items" where
  "addMemberships groups s = foldl addMembership groups (schedMemberships s)"

definition membershipBlocked :: "group_items \<Rightarrow> group_items \<Rightarrow> membership \<Rightarrow> bool" where
  "membershipBlocked activeItems selectedItems m =
     (let a = lookupList activeItems (memberParent m); s = lookupList selectedItems (memberParent m) in
      if memberItem m \<in> set a \<or> memberItem m \<in> set s then False
      else int (length (dedupe (a @ s))) \<ge> memberMaximum m)"

definition clashesWith :: "scheduled \<Rightarrow> scheduled list \<Rightarrow> bool result" where
  "clashesWith c others = anyResult (\<lambda>e. sgosResourceEntriesConflict (schedEntries c) (schedEntries e)) others"

fun selectTasks ::
    "nat \<Rightarrow> scheduled list \<Rightarrow> group_items \<Rightarrow> scheduled list \<Rightarrow> group_items \<Rightarrow> scheduled list
     \<Rightarrow> scheduled list result" where
  "selectTasks available active activeItems selected selectedItems [] = Inr selected"
| "selectTasks available active activeItems selected selectedItems (c # cs) =
     (if length selected \<ge> available then Inr selected
      else andThen (clashesWith c active) (\<lambda>a.
           andThen (if a then Inr True else clashesWith c selected) (\<lambda>clash.
             if clash \<or> list_ex (membershipBlocked activeItems selectedItems) (schedMemberships c)
             then selectTasks available active activeItems selected selectedItems cs
             else selectTasks available active activeItems (selected @ [c])
                    (addMemberships selectedItems c) cs)))"

definition stoppedStatus :: "process_status \<Rightarrow> bool" where
  "stoppedStatus s \<longleftrightarrow> s \<in> {ProcessPaused, ProcessBlocked, ProcessFailed, ProcessCancelled,
     ProcessSucceeded, ProcessRecoveryRequired}"

definition sgosDispatchSelection :: "gvm_program \<Rightarrow> gvm_process \<Rightarrow> jsval \<Rightarrow> scheduled list result" where
  "sgosDispatchSelection program process maximumParallel =
     (if \<not> isSafeInteger maximumParallel \<or> numberOf maximumParallel < 1
         \<or> numberOf maximumParallel > maximumParallelExecutions
      then fail ''SGOS_PARALLEL_LIMIT''
      else if stoppedStatus (processStatus process) then Inr []
      else andThen (fanoutCeilings program process) (\<lambda>_.
           andThen (activeScheduled program process) (\<lambda>active.
             let available = nat (max 0 (numberOf maximumParallel - int (length active))) in
             if available = 0 then Inr []
             else andThen (readyScheduled program process) (\<lambda>ready.
               selectTasks available active (foldl addMemberships [] active) [] [] ready))))"

record dispatch =
  dispatchInstance :: string
  dispatchTemplate :: string
  dispatchOpcode :: gvm_opcode

definition dispatchOf :: "scheduled \<Rightarrow> dispatch" where
  "dispatchOf s = \<lparr>dispatchInstance = schedInstance s, dispatchTemplate = schedTemplate s,
     dispatchOpcode = schedOpcode s\<rparr>"

definition deterministicSgosDispatchPlan :: "gvm_program \<Rightarrow> gvm_process \<Rightarrow> jsval \<Rightarrow> dispatch list result" where
  "deterministicSgosDispatchPlan program process maximumParallel =
     andThen (sgosDispatchSelection program process maximumParallel) (\<lambda>selected.
       Inr (map dispatchOf selected))"

section \<open>Selection lemmas\<close>

lemma subseq_distinct: "subseq xs ys \<Longrightarrow> distinct ys \<Longrightarrow> distinct xs"
proof (induction rule: list_emb.induct)
  case (list_emb_Cons2 x y xs ys)
  then show ?case by (auto dest: list_emb_set)
qed auto

definition groupItemsOf :: "string \<Rightarrow> scheduled list \<Rightarrow> string set" where
  "groupItemsOf g ss =
     {memberItem m | s m. s \<in> set ss \<and> m \<in> set (schedMemberships s) \<and> memberParent m = g}"

lemma finite_groupItemsOf [simp]: "finite (groupItemsOf g ss)"
proof -
  have "groupItemsOf g ss \<subseteq> memberItem ` (\<Union>s \<in> set ss. set (schedMemberships s))"
    by (auto simp: groupItemsOf_def)
  then show ?thesis by (rule finite_subset) simp
qed

lemma groupItemsOf_append: "groupItemsOf g (xs @ ys) = groupItemsOf g xs \<union> groupItemsOf g ys"
  by (auto simp: groupItemsOf_def)

lemma length_dedupe_card: "length (dedupe xs) = card (set xs)"
  by (metis distinct_card distinct_dedupe set_dedupe)

lemma lookup_addMembership:
  "set (lookupList (addMembership groups m) g) =
     set (lookupList groups g) \<union> (if memberParent m = g then {memberItem m} else {})"
  by (auto simp: addMembership_def lookupList_def update_conv' split: option.splits)

lemma lookup_foldl_addMembership:
  "set (lookupList (foldl addMembership groups ms) g) =
     set (lookupList groups g) \<union> {memberItem m | m. m \<in> set ms \<and> memberParent m = g}"
  by (induction ms arbitrary: groups) (auto simp: lookup_addMembership)

lemma lookup_addMemberships:
  "set (lookupList (foldl addMemberships groups ss) g) = set (lookupList groups g) \<union> groupItemsOf g ss"
proof (induction ss arbitrary: groups)
  case (Cons s ss)
  then show ?case
    by (auto simp: addMemberships_def lookup_foldl_addMembership groupItemsOf_def)
qed (simp add: groupItemsOf_def)

lemma membershipBlocked_iff:
  "membershipBlocked a s m \<longleftrightarrow>
     (let items = set (lookupList a (memberParent m)) \<union> set (lookupList s (memberParent m))
      in memberItem m \<notin> items \<and> memberMaximum m \<le> int (card items))"
  by (auto simp: membershipBlocked_def Let_def length_dedupe_card simp del: dedupe.simps)

lemma clashesWith_False:
  "clashesWith c es = Inr False \<longleftrightarrow>
     (\<forall>e \<in> set es. sgosResourceEntriesConflict (schedEntries c) (schedEntries e) = Inr False)"
  by (simp add: clashesWith_def anyResult_False)

text \<open>What one run of the selection loop adds to what was selected before it.\<close>

lemma selectTasks_Cons:
  assumes "selectTasks n act ai sel si (c # cs) = Inr out" "length sel < n"
  obtains "selectTasks n act ai sel si cs = Inr out"
  | "clashesWith c act = Inr False" "clashesWith c sel = Inr False"
    "\<forall>m \<in> set (schedMemberships c). \<not> membershipBlocked ai si m"
    "selectTasks n act ai (sel @ [c]) (addMemberships si c) cs = Inr out"
proof -
  from assms obtain a where a: "clashesWith c act = Inr a" by (auto simp: andThen_Inr)
  show ?thesis
  proof (cases a)
    case True
    with assms a that(1) show ?thesis by (auto simp: andThen_Inr)
  next
    case False
    with assms a obtain b where b: "clashesWith c sel = Inr b" by (auto simp: andThen_Inr)
    show ?thesis
    proof (cases "b \<or> list_ex (membershipBlocked ai si) (schedMemberships c)")
      case True
      with assms a b False that(1) show ?thesis by auto
    next
      case nb: False
      with assms a b False that(2) show ?thesis by (auto simp: list_ex_iff)
    qed
  qed
qed

lemma selectTasks_safe:
  assumes "selectTasks n act ai sel si cs = Inr out" "leases.apart schedEntries sel"
    "\<forall>s \<in> set sel. clashesWith s act = Inr False" "length sel \<le> n"
  shows "leases.apart schedEntries out \<and> (\<forall>s \<in> set out. clashesWith s act = Inr False) \<and>
         length out \<le> n \<and> (\<exists>new. out = sel @ new \<and> subseq new cs)"
  using assms
proof (induction cs arbitrary: sel si)
  case (Cons c cs)
  show ?case
  proof (cases "length sel < n")
    case True
    from Cons.prems(1) True show ?thesis
    proof (cases rule: selectTasks_Cons)
      case 1
      from Cons.IH [OF this Cons.prems(2-4)] show ?thesis by auto
    next
      case 2
      have "leases.apart schedEntries (sel @ [c])"
        by (rule leases.apart_snoc [OF Cons.prems(2)]) (use 2 in \<open>simp add: clashesWith_False\<close>)
      from Cons.IH [OF 2(4) this] 2 Cons.prems True show ?thesis by fastforce
    qed
  qed (use Cons.prems in auto)
qed auto

lemma selectTasks_prefix:
  "selectTasks n act ai sel si cs = Inr out \<Longrightarrow> \<exists>new. out = sel @ new"
proof (induction cs arbitrary: sel si)
  case (Cons c cs)
  then show ?case by (fastforce simp: andThen_Inr split: if_splits)
qed simp

lemma selectTasks_fanout:
  assumes "selectTasks n act ai sel si cs = Inr out" "si = foldl addMemberships [] sel"
    "ai = foldl addMemberships [] act" "length sel \<le> n"
    and "\<forall>s \<in> set cs. \<forall>m \<in> set (schedMemberships s). memberParent m = g \<longrightarrow> memberMaximum m \<le> k"
    and "card (groupItemsOf g (act @ sel)) \<le> max (nat k) (card (groupItemsOf g act))"
    and "\<forall>s \<in> set cs. distinct (map memberParent (schedMemberships s))"
  shows "card (groupItemsOf g (act @ out)) \<le> max (nat k) (card (groupItemsOf g act))"
  using assms
proof (induction cs arbitrary: sel si)
  case (Cons c cs)
  show ?case
  proof (cases "length sel < n")
    case True
    from Cons.prems(1) True show ?thesis
    proof (cases rule: selectTasks_Cons)
      case 1
      show ?thesis by (rule Cons.IH [OF 1]) (use Cons.prems in auto)
    next
      case 2
      let ?G = "groupItemsOf g (act @ sel)"
      let ?C = "{memberItem m | m. m \<in> set (schedMemberships c) \<and> memberParent m = g}"
      have G: "groupItemsOf g (act @ sel @ [c]) = ?G \<union> ?C"
        by (auto simp: groupItemsOf_def)
      have grow: "card (?G \<union> ?C) \<le> max (nat k) (card (groupItemsOf g act))"
      proof (cases "?C \<subseteq> ?G")
        case True
        then show ?thesis using Cons.prems(6) by (simp add: Un_absorb2)
      next
        case False
        then obtain m where m: "m \<in> set (schedMemberships c)" "memberParent m = g" "memberItem m \<notin> ?G"
          by auto
        have "?C = {memberItem m}"
          using m Cons.prems(7) by (auto simp: distinct_map dest: inj_onD)
        moreover have "int (card ?G) < memberMaximum m"
          using 2(3) m Cons.prems(2,3)
          by (auto simp: membershipBlocked_iff lookup_addMemberships groupItemsOf_append Let_def)
        moreover have "memberMaximum m \<le> k" using Cons.prems(5) m by auto
        ultimately show ?thesis using m by auto
      qed
      show ?thesis
        by (rule Cons.IH [OF 2(4)]) (use Cons.prems True G grow in \<open>auto simp: addMemberships_def\<close>)
    qed
  qed (use Cons.prems in auto)
qed simp

section \<open>The ready list\<close>

definition readyNow :: "gvm_program \<Rightarrow> gvm_process \<Rightarrow> task_instance \<Rightarrow> bool" where
  "readyNow program process t =
     (case sgosTaskReadiness program process t of Inl _ \<Rightarrow> False | Inr r \<Rightarrow> isReady r)"

lemma readyNow_iff:
  "readyNow program process t \<longleftrightarrow> (\<exists>r. sgosTaskReadiness program process t = Inr r \<and> isReady r)"
  by (cases "sgosTaskReadiness program process t") (auto simp: readyNow_def)

lemma readyScheduled_Inr:
  "readyScheduled program process = Inr rs \<longleftrightarrow>
     (\<forall>t \<in> set (tasksOf process). eligibleTask t \<longrightarrow> (\<exists>r. sgosTaskReadiness program process t = Inr r)) \<and>
     (\<exists>vs. mapResult (schedule program)
             (filter (readyNow program process) (filter eligibleTask (tasksOf process))) = Inr vs \<and>
           rs = sortBy taskOrder vs)"
proof -
  let ?f = "\<lambda>t. andThen (sgosTaskReadiness program process t) (\<lambda>r. Inr (t, isReady r))"
  have all: "(\<exists>ds. mapResult ?f ts = Inr ds) \<longleftrightarrow>
      (\<forall>t \<in> set ts. \<exists>r. sgosTaskReadiness program process t = Inr r)" for ts
    unfolding mapResult_projr by (simp add: andThen_Inr)
  have ready: "map fst (filter snd ds) = filter (readyNow program process) ts"
    if "mapResult ?f ts = Inr ds" for ts ds
    using that unfolding mapResult_Inr
    by (induction rule: list_all2_induct) (auto simp: andThen_Inr readyNow_iff)
  have "readyScheduled program process = Inr rs \<longleftrightarrow>
      (\<exists>ds. mapResult ?f (filter eligibleTask (tasksOf process)) = Inr ds \<and>
         (\<exists>vs. mapResult (schedule program) (map fst (filter snd ds)) = Inr vs \<and> rs = sortBy taskOrder vs))"
    by (auto simp: readyScheduled_def andThen_Inr)
  also have "\<dots> \<longleftrightarrow> (\<exists>ds. mapResult ?f (filter eligibleTask (tasksOf process)) = Inr ds) \<and>
      (\<exists>vs. mapResult (schedule program)
             (filter (readyNow program process) (filter eligibleTask (tasksOf process))) = Inr vs \<and>
           rs = sortBy taskOrder vs)"
    by (simp add: ready del: filter_filter cong: conj_cong)
  finally show ?thesis unfolding all set_filter by blast
qed

lemma schedule_instance: "schedule program t = Inr s \<Longrightarrow> schedInstance s = instanceId t"
  by (auto simp: schedule_def andThen_Inr split: option.splits)

lemma taskFanoutMemberships_Inr:
  assumes "taskFanoutMemberships template task = Inr ms"
  shows "distinct (map memberParent ms)" and "m \<in> set ms \<Longrightarrow> 1 \<le> memberMaximum m \<and> memberMaximum m \<le> 8"
proof -
  obtain vs where vs: "mapResult membershipOf vs = Inr ms"
    and len: "length (dedupe (map memberParent ms)) = length ms"
    using assms by (auto simp: taskFanoutMemberships_def Let_def andThen_Inr split: if_splits)
  show "distinct (map memberParent ms)"
    using len length_dedupe [of "map memberParent ms"] by simp
  show "1 \<le> memberMaximum m \<and> memberMaximum m \<le> 8" if m: "m \<in> set ms"
    using list_all2_in_right [OF vs [unfolded mapResult_Inr] m]
    by (auto simp: membershipOf_def Let_def maximumFanoutParallel_def split: if_splits)
qed

lemma schedule_memberships:
  assumes "schedule program t = Inr s"
  shows "distinct (map memberParent (schedMemberships s))"
    and "m \<in> set (schedMemberships s) \<Longrightarrow> 1 \<le> memberMaximum m \<and> memberMaximum m \<le> 8"
  using assms taskFanoutMemberships_Inr
  by (auto simp: schedule_def andThen_Inr split: option.splits)

lemma readyScheduled_member:
  assumes "readyScheduled program process = Inr rs" "s \<in> set rs"
  obtains t r where "t \<in> set (tasksOf process)" "eligibleTask t"
    "sgosTaskReadiness program process t = Inr r" "isReady r" "schedule program t = Inr s"
proof -
  obtain vs where vs: "list_all2 (\<lambda>t s. schedule program t = Inr s)
      (filter (readyNow program process) (filter eligibleTask (tasksOf process))) vs" "s \<in> set vs"
    using assms by (auto simp: readyScheduled_Inr mapResult_Inr)
  from list_all2_in_right [OF this] show ?thesis
    using that by (auto simp: readyNow_iff)
qed

lemma readyScheduled_distinct:
  assumes "processWellFormed process" "readyScheduled program process = Inr rs"
  shows "distinct (map schedInstance rs)"
proof -
  let ?ts = "filter (readyNow program process) (filter eligibleTask (tasksOf process))"
  obtain vs where vs: "list_all2 (\<lambda>t s. schedule program t = Inr s) ?ts vs" "rs = sortBy taskOrder vs"
    using assms(2) by (auto simp: readyScheduled_Inr mapResult_Inr)
  from vs(1) have "map schedInstance vs = map instanceId ?ts"
    by (induction rule: list_all2_induct) (auto simp: schedule_instance)
  then show ?thesis
    using tasksOf_distinct_ids [OF assms(1)] vs(2) by (simp add: distinct_map_filter)
qed

lemma readyScheduled_complete:
  assumes "readyScheduled program process = Inr rs" "t \<in> set (tasksOf process)" "eligibleTask t"
    "sgosTaskReadiness program process t = Inr r" "isReady r"
  shows "rs \<noteq> []"
proof -
  obtain vs where vs: "list_all2 (\<lambda>t s. schedule program t = Inr s)
      (filter (readyNow program process) (filter eligibleTask (tasksOf process))) vs" "rs = sortBy taskOrder vs"
    using assms by (auto simp: readyScheduled_Inr mapResult_Inr)
  have "t \<in> set (filter (readyNow program process) (filter eligibleTask (tasksOf process)))"
    using assms by (auto simp: readyNow_iff)
  from list_all2_in_left [OF vs(1) this] vs(2) show ?thesis by auto
qed

text \<open>The cases of an accepted selection.\<close>

lemma selection_cases:
  assumes "sgosDispatchSelection program process mp = Inr sel"
  obtains "sel = []" "stoppedStatus (processStatus process)"
  | active where "sel = []" "activeScheduled program process = Inr active"
      "numberOf mp \<le> int (length active)" "1 \<le> numberOf mp" "\<not> stoppedStatus (processStatus process)"
  | active ready where "activeScheduled program process = Inr active" "readyScheduled program process = Inr ready"
      "int (length active) < numberOf mp" "numberOf mp \<le> 8" "\<not> stoppedStatus (processStatus process)"
      "selectTasks (nat (numberOf mp - int (length active))) active (foldl addMemberships [] active) [] [] ready = Inr sel"
proof (cases "stoppedStatus (processStatus process)")
  case True
  with assms that(1) show ?thesis by (auto simp: sgosDispatchSelection_def split: if_splits)
next
  case False
  with assms obtain active where mp: "1 \<le> numberOf mp" "numberOf mp \<le> 8"
    and active: "activeScheduled program process = Inr active"
    and rest: "(if nat (max 0 (numberOf mp - int (length active))) = 0 then Inr []
        else andThen (readyScheduled program process) (\<lambda>ready.
          selectTasks (nat (max 0 (numberOf mp - int (length active)))) active
            (foldl addMemberships [] active) [] [] ready)) = Inr sel"
    unfolding sgosDispatchSelection_def Let_def if_fail_Inr
    by (auto simp: andThen_Inr maximumParallelExecutions_def simp del: nat_eq_iff nat_0_iff)
  show ?thesis
  proof (cases "numberOf mp \<le> int (length active)")
    case True
    with rest that(2) [OF _ active True mp(1) False] show ?thesis by simp
  next
    case lt: False
    then have "max 0 (numberOf mp - int (length active)) = numberOf mp - int (length active)" by simp
    with rest lt that(3) [OF active _ _ mp(2) False] show ?thesis by (auto simp: andThen_Inr)
  qed
qed

lemma selection_member:
  assumes "sgosDispatchSelection program process mp = Inr sel" "s \<in> set sel"
  obtains t r where "t \<in> set (tasksOf process)" "eligibleTask t"
    "sgosTaskReadiness program process t = Inr r" "isReady r" "schedule program t = Inr s"
  using assms(1)
proof (cases rule: selection_cases)
  case (3 active ready)
  then have "set sel \<subseteq> set ready"
    using selectTasks_safe [OF 3(6)] by (auto elim: list_emb_set)
  with assms(2) readyScheduled_member [OF 3(2)] that show ?thesis by blast
qed (use assms in auto)

section \<open>Enumeration order\<close>

text \<open>The same Process with its task instances enumerated in another order.\<close>

definition reorder :: "(string \<times> task_instance) list \<Rightarrow> gvm_process \<Rightarrow> gvm_process" where
  "reorder ts p = p\<lparr>processTasks := ts\<rparr>"

lemma reorder_tasks:
  "mset ts = mset (processTasks p) \<Longrightarrow> mset (tasksOf (reorder ts p)) = mset (tasksOf p)"
  by (simp add: tasksOf_def reorder_def)

lemma reorder_set:
  "mset ts = mset (processTasks p) \<Longrightarrow> set (tasksOf (reorder ts p)) = set (tasksOf p)"
  by (rule mset_eq_setD) (rule reorder_tasks)

lemma reorder_named:
  assumes "processWellFormed p" "mset ts = mset (processTasks p)"
  shows "taskNamed (reorder ts p) = taskNamed p"
proof -
  have "distinct (map fst ts)"
    using mset_distinct_map [OF assms(2), of fst] processWellFormed_distinct [OF assms(1)] by simp
  then show ?thesis
    using map_of_inject_set [of ts "processTasks p"] processWellFormed_distinct [OF assms(1)]
      mset_eq_setD [OF assms(2)] by (simp add: taskNamed_def reorder_def fun_eq_iff)
qed

lemma reorder_activeIds:
  assumes "mset ts = mset (processTasks p)"
  shows "mset (activeTaskIds (reorder ts p)) = mset (activeTaskIds p)"
proof -
  have "activeTask (reorder ts p) = activeTask p"
    by (simp add: fun_eq_iff activeTask_def reorder_def)
  then show ?thesis
    unfolding activeTaskIds_def
    by (intro set_eq_iff_mset_eq_distinct [THEN iffD1]) (auto simp: reorder_set [OF assms])
qed

lemma reorder_readiness:
  assumes "processWellFormed p" "mset ts = mset (processTasks p)"
  shows "sgosTaskReadiness prog (reorder ts p) t = sgosTaskReadiness prog p t"
proof -
  have "predecessorTasks (reorder ts p) = predecessorTasks p"
    by (rule ext) (simp add: predecessorTasks_def reorder_named [OF assms])
  moreover have "list_all P (filter Q (tasksOf (reorder ts p))) = list_all P (filter Q (tasksOf p))" for P Q
    by (simp add: list_all_iff reorder_set [OF assms(2)])
  ultimately show ?thesis
    unfolding sgosTaskReadiness_def by (simp only:)
qed

lemma reorder_ready:
  assumes "processWellFormed p" "mset ts = mset (processTasks p)"
    and "readyScheduled prog p = Inr rs" "readyScheduled prog (reorder ts p) = Inr rs'"
  shows "rs' = rs"
proof -
  have rn: "readyNow prog (reorder ts p) = readyNow prog p"
    by (simp add: fun_eq_iff readyNow_iff reorder_readiness [OF assms(1,2)])
  let ?ts = "\<lambda>q. filter (readyNow prog p) (filter eligibleTask (tasksOf q))"
  obtain vs where vs: "mapResult (schedule prog) (?ts p) = Inr vs" "rs = sortBy taskOrder vs"
    using assms(3) by (auto simp: readyScheduled_Inr)
  obtain vs' where vs': "mapResult (schedule prog) (?ts (reorder ts p)) = Inr vs'" "rs' = sortBy taskOrder vs'"
    using assms(4) by (auto simp: readyScheduled_Inr rn)
  have "mset (?ts (reorder ts p)) = mset (?ts p)" by (simp add: reorder_tasks [OF assms(2)])
  from mapResult_perm [OF vs(1) this] vs' have eq: "mset vs' = mset vs" by auto
  have inj: "inj_on schedInstance (set vs)"
    using readyScheduled_distinct [OF assms(1,3)] vs(2) by (simp add: distinct_map)
  show ?thesis
    unfolding vs(2) vs'(2) taskOrder_def
    by (rule keyed2.sortBy_perm [OF eq])
      (use inj mset_eq_setD [OF eq] in
        \<open>auto simp: thenBy_def byKey_def compare_simps split: if_splits dest: inj_onD\<close>)
qed

lemma reorder_activeScheduled:
  assumes "processWellFormed p" "mset ts = mset (processTasks p)"
    and "activeScheduled prog p = Inr as" "activeScheduled prog (reorder ts p) = Inr as'"
  shows "mset as' = mset as"
proof -
  let ?f = "\<lambda>k. case taskNamed p k of None \<Rightarrow> Inl NativeError | Some t \<Rightarrow> schedule prog t"
  have a: "mapResult ?f (activeTaskIds p) = Inr as"
    and b: "mapResult ?f (activeTaskIds (reorder ts p)) = Inr as'"
    using assms(3,4) unfolding activeScheduled_def reorder_named [OF assms(1,2)] by simp_all
  show ?thesis
    by (rule mapResult_perm [OF a reorder_activeIds [OF assms(2)]]) (use b in auto)
qed

lemma anyResult_set:
  assumes "anyResult P xs = Inr b" "anyResult P ys = Inr b'" "set xs = set ys"
  shows "b' = b"
  using assms anyResult_False [of P xs] anyResult_False [of P ys] by (cases b; cases b') auto

lemma selectTasks_cong:
  assumes "set act = set act'" "\<And>g. set (lookupList ai g) = set (lookupList ai' g)"
    and "selectTasks n act ai sel si cs = Inr out" "selectTasks n act' ai' sel si cs = Inr out'"
  shows "out' = out"
  using assms(3,4)
proof (induction cs arbitrary: sel si)
  case (Cons c cs)
  show ?case
  proof (cases "length sel < n")
    case True
    have blocked: "membershipBlocked ai' si m = membershipBlocked ai si m" for m
      using assms(2) by (simp add: membershipBlocked_iff)
    obtain a where a: "clashesWith c act = Inr a" using Cons.prems True by (auto simp: andThen_Inr)
    obtain a' where a': "clashesWith c act' = Inr a'" using Cons.prems True by (auto simp: andThen_Inr)
    have "a' = a"
      using anyResult_set [OF a [unfolded clashesWith_def] a' [unfolded clashesWith_def] assms(1)] .
    then have act': "clashesWith c act' = clashesWith c act" using a a' by simp
    show ?thesis
      using Cons.prems True unfolding selectTasks.simps act' blocked
      by (auto simp: andThen_Inr split: if_splits intro: Cons.IH)
  qed (use Cons.prems in auto)
qed simp

lemma reorder_selection:
  assumes wf: "processWellFormed p" "mset ts = mset (processTasks p)"
    and "sgosDispatchSelection prog p mp = Inr sel" "sgosDispatchSelection prog (reorder ts p) mp = Inr sel'"
  shows "sel' = sel"
proof -
  have st: "processStatus (reorder ts p) = processStatus p" by (simp add: reorder_def)
  have len: "length as' = length as"
    if "activeScheduled prog p = Inr as" "activeScheduled prog (reorder ts p) = Inr as'" for as as'
    using mset_eq_length reorder_activeScheduled [OF wf that] by blast
  from assms(3) show ?thesis
  proof (cases rule: selection_cases)
    case 1
    from assms(4) show ?thesis
      by (cases rule: selection_cases) (use 1 st in simp_all)
  next
    case old: (2 active)
    from assms(4) show ?thesis
    proof (cases rule: selection_cases)
      case (3 active' ready')
      with len [OF old(2) 3(1)] old(3) show ?thesis by simp
    qed (use old in simp_all)
  next
    case old: (3 active ready)
    from assms(4) show ?thesis
    proof (cases rule: selection_cases)
      case 1
      with old(5) st show ?thesis by simp
    next
      case (2 active')
      with len [OF old(1) 2(2)] old(3) show ?thesis by simp
    next
      case (3 active' ready')
      have rd: "ready' = ready" by (rule reorder_ready [OF wf old(2) 3(2)])
      have eq: "mset active' = mset active" by (rule reorder_activeScheduled [OF wf old(1) 3(1)])
      then have act: "set active = set active'" "length active' = length active"
        by (auto dest: mset_eq_setD mset_eq_length)
      have "set (lookupList (foldl addMemberships [] active) g)
          = set (lookupList (foldl addMemberships [] active') g)" for g
        using act(1) by (simp add: lookup_addMemberships groupItemsOf_def)
      from selectTasks_cong [OF act(1) this old(6)] 3(6) show ?thesis
        unfolding rd act(2) by blast
    qed
  qed
qed

section \<open>Properties\<close>

text \<open>
  C3: safety of the dispatch plan. Every task of the plan is a distinct task of the Process in a
  dispatchable state whose readiness test says ready; no two of them, and none of them and a task
  that is executing, conflict over a resource; and together with the executing tasks they are at
  most \<open>maximumParallel\<close>, itself at most 8.
\<close>

theorem dispatch_plan_safe:
  assumes "processWellFormed p" "deterministicSgosDispatchPlan prog p mp = Inr plan" "plan \<noteq> []"
  shows "\<exists>sel active. plan = map dispatchOf sel \<and> activeScheduled prog p = Inr active \<and>
    int (length active + length plan) \<le> numberOf mp \<and> numberOf mp \<le> 8 \<and>
    distinct (map dispatchInstance plan) \<and>
    (\<forall>s \<in> set sel. \<exists>t r. taskNamed p (schedInstance s) = Some t \<and> eligibleTask t \<and>
       sgosTaskReadiness prog p t = Inr r \<and> isReady r \<and> schedule prog t = Inr s) \<and>
    (\<forall>i < length sel. \<forall>j < length sel. i \<noteq> j \<longrightarrow>
       sgosResourceEntriesConflict (schedEntries (sel ! i)) (schedEntries (sel ! j)) = Inr False) \<and>
    (\<forall>s \<in> set sel. \<forall>a \<in> set active.
       sgosResourceEntriesConflict (schedEntries s) (schedEntries a) = Inr False)"
proof -
  obtain sel where sel: "sgosDispatchSelection prog p mp = Inr sel" "plan = map dispatchOf sel"
    using assms(2) by (auto simp: deterministicSgosDispatchPlan_def andThen_Inr)
  from sel(1) obtain active ready where a: "activeScheduled prog p = Inr active"
    and r: "readyScheduled prog p = Inr ready" and n: "int (length active) < numberOf mp" "numberOf mp \<le> 8"
    and run: "selectTasks (nat (numberOf mp - int (length active))) active
      (foldl addMemberships [] active) [] [] ready = Inr sel"
    using assms(3) sel(2) by (auto elim: selection_cases)
  have safe: "leases.apart schedEntries sel" "\<forall>s \<in> set sel. clashesWith s active = Inr False"
    "length sel \<le> nat (numberOf mp - int (length active))" "subseq sel ready"
    using selectTasks_safe [OF run] by auto
  have "dispatchInstance \<circ> dispatchOf = schedInstance" by (simp add: fun_eq_iff dispatchOf_def)
  then have "distinct (map dispatchInstance plan)"
    unfolding sel(2) map_map
    using subseq_distinct [OF subseq_map [OF safe(4)] readyScheduled_distinct [OF assms(1) r]] by simp
  moreover have "\<forall>s \<in> set sel. \<exists>t r. taskNamed p (schedInstance s) = Some t \<and> eligibleTask t \<and>
       sgosTaskReadiness prog p t = Inr r \<and> isReady r \<and> schedule prog t = Inr s"
    using selection_member [OF sel(1)] tasksOf_named [OF assms(1)] schedule_instance by metis
  moreover have "int (length active + length plan) \<le> numberOf mp" using safe(3) n sel(2) by simp
  ultimately show ?thesis
    using a n(2) sel(2) safe(2) leases.apart_nth [OF safe(1)]
    by - (rule exI [of _ sel], rule exI [of _ active], simp add: clashesWith_False)
qed

text \<open>A Process with one running writer, one task that conflicts with it and two that do not.\<close>

definition exampleTemplate :: "string \<Rightarrow> string \<Rightarrow> task_template" where
  "exampleTemplate k w = \<lparr>templateId = k, templateOpcode = AGENT, templateDependsOn = [],
     templateInputs = JUndef, templateResources = JObj [(''writes'', JArr [JStr w])],
     templateMetadata = JUndef\<rparr>"

definition exampleProgram :: gvm_program where
  "exampleProgram = \<lparr>programTemplates =
     [exampleTemplate ''a'' ''x'', exampleTemplate ''b'' ''x/1'', exampleTemplate ''c'' ''y'',
      exampleTemplate ''d'' ''z''], programEdges = [], programJoins = JArr []\<rparr>"

definition exampleTask :: "string \<Rightarrow> string \<Rightarrow> task_state \<Rightarrow> string list \<Rightarrow> string \<times> task_instance" where
  "exampleTask k tpl st attempts = (k, \<lparr>instanceId = k, instanceTemplate = tpl, taskState = st,
     taskPredecessors = [], taskInputRefs = [], taskOutputRefs = [], taskAttemptIds = attempts,
     taskReceipt = None, taskInvalidatedBy = None, taskRevision = 1, taskFanoutBinding = None\<rparr>)"

definition exampleProcess :: gvm_process where
  "exampleProcess = \<lparr>processId = ''PROC-1'', processStatus = ProcessRunning,
     processTasks = [exampleTask ''T1'' ''a'' Running [''ATT-1''], exampleTask ''T2'' ''b'' Ready [],
       exampleTask ''T3'' ''c'' Ready [], exampleTask ''T4'' ''d'' Planned []],
     activeExecutions = [''ATT-1''], openHumanRequests = [], activeLeases = [], processRevision = 1\<rparr>"

lemma example_wellFormed: "processWellFormed exampleProcess"
  by code_simp

lemma example_plan: "deterministicSgosDispatchPlan exampleProgram exampleProcess (JNum 2) =
    Inr [\<lparr>dispatchInstance = ''T3'', dispatchTemplate = ''c'', dispatchOpcode = AGENT\<rparr>]"
  by code_simp

theorem dispatch_plan_safe_witness:
  "\<exists>active. activeScheduled exampleProgram exampleProcess = Inr active \<and> length active + 1 \<le> 2"
  using dispatch_plan_safe [OF example_wellFormed example_plan] by auto

text \<open>
  C15: the parallel ceiling of a fan-out group. If every task's membership in group \<open>g\<close> allows at
  most \<open>k\<close> items at once, then after the selection at most \<open>k\<close> different items of \<open>g\<close> are executing or
  selected, or no more than were executing before.
\<close>

theorem fanout_ceiling_respected:
  assumes "sgosDispatchSelection prog p mp = Inr sel" "activeScheduled prog p = Inr active"
    and "\<forall>t \<in> set (tasksOf p). \<forall>s. schedule prog t = Inr s \<longrightarrow>
           (\<forall>m \<in> set (schedMemberships s). memberParent m = g \<longrightarrow> memberMaximum m \<le> k)"
  shows "card (groupItemsOf g (active @ sel)) \<le> max (nat k) (card (groupItemsOf g active))"
  using assms(1)
proof (cases rule: selection_cases)
  case (3 active' ready)
  then have [simp]: "active' = active" using assms(2) by simp
  have "\<forall>s \<in> set ready. \<exists>t \<in> set (tasksOf p). schedule prog t = Inr s"
    using readyScheduled_member [OF 3(2)] by metis
  then have "\<forall>s \<in> set ready. \<forall>m \<in> set (schedMemberships s). memberParent m = g \<longrightarrow> memberMaximum m \<le> k"
    and "\<forall>s \<in> set ready. distinct (map memberParent (schedMemberships s))"
    using assms(3) schedule_memberships(1) by blast+
  from selectTasks_fanout [OF 3(6) _ _ _ this(1) _ this(2)] show ?thesis by simp
qed simp_all

definition fanoutProgram :: gvm_program where
  "fanoutProgram = \<lparr>programTemplates = map (\<lambda>k. \<lparr>templateId = k, templateOpcode = AGENT,
       templateDependsOn = [], templateInputs = JUndef, templateResources = JUndef,
       templateMetadata = JObj [(''fanout'', JObj [(''parentTaskId'', JStr ''each''), (''itemKey'', JStr k),
         (''maximumParallel'', JNum 1)])]\<rparr>) [''a'', ''b''], programEdges = [], programJoins = JArr []\<rparr>"

definition fanoutProcess :: gvm_process where
  "fanoutProcess = exampleProcess\<lparr>activeExecutions := [], processTasks :=
     [exampleTask ''T1'' ''a'' Ready [], exampleTask ''T2'' ''b'' Ready []]\<rparr>"

definition fanoutSelection :: "scheduled list" where
  "fanoutSelection = [\<lparr>schedInstance = ''T1'', schedTemplate = ''a'', schedOpcode = AGENT, schedEntries = [],
     schedMemberships = [\<lparr>memberParent = ''each'', memberItem = ''a'', memberMaximum = 1\<rparr>]\<rparr>]"

theorem fanout_ceiling_respected_witness:
  "sgosDispatchSelection fanoutProgram fanoutProcess (JNum 2) = Inr fanoutSelection \<and>
   card (groupItemsOf ''each'' fanoutSelection) \<le> 1"
proof -
  have run: "sgosDispatchSelection fanoutProgram fanoutProcess (JNum 2) = Inr fanoutSelection" by code_simp
  have active: "activeScheduled fanoutProgram fanoutProcess = Inr []" by code_simp
  have "list_all (\<lambda>t. case schedule fanoutProgram t of Inl _ \<Rightarrow> True
      | Inr s \<Rightarrow> list_all (\<lambda>m. memberMaximum m \<le> 1) (schedMemberships s)) (tasksOf fanoutProcess)" by code_simp
  then have "\<forall>t \<in> set (tasksOf fanoutProcess). \<forall>s. schedule fanoutProgram t = Inr s \<longrightarrow>
      (\<forall>m \<in> set (schedMemberships s). memberParent m = ''each'' \<longrightarrow> memberMaximum m \<le> 1)"
    by (auto simp: list_all_iff)
  from fanout_ceiling_respected [OF run active this] run show ?thesis by (simp add: groupItemsOf_def)
qed



text \<open>
  C17: progress. When nothing is executing and the Process is not stopped, an empty plan means that
  no dispatchable task is ready.
\<close>

theorem dispatch_plan_progress:
  assumes "deterministicSgosDispatchPlan prog p mp = Inr []" "\<not> stoppedStatus (processStatus p)"
    and "activeTaskIds p = []" "t \<in> set (tasksOf p)" "eligibleTask t"
  shows "\<exists>r. sgosTaskReadiness prog p t = Inr r \<and> \<not> isReady r"
proof -
  have act: "activeScheduled prog p = Inr []" using assms(3) by (simp add: activeScheduled_def)
  have "sgosDispatchSelection prog p mp = Inr []"
    using assms(1) by (auto simp: deterministicSgosDispatchPlan_def andThen_Inr)
  then show ?thesis
  proof (cases rule: selection_cases)
    case (3 active ready)
    have "ready = []"
    proof (rule ccontr)
      assume "ready \<noteq> []"
      then obtain c cs where c: "ready = c # cs" by (cases ready) auto
      obtain t' where "schedule prog t' = Inr c"
        using readyScheduled_member [OF 3(2), of c] c by auto
      then have "\<not> list_ex (membershipBlocked [] []) (schedMemberships c)"
        using schedule_memberships(2) by (fastforce simp: list_ex_iff membershipBlocked_def)
      with 3 act c have "selectTasks (nat (numberOf mp)) [] [] [c] (addMemberships [] c) cs = Inr []"
        by (simp add: clashesWith_def split: if_splits)
      then show False using selectTasks_prefix by fastforce
    qed
    moreover obtain r where "sgosTaskReadiness prog p t = Inr r"
      using 3(2) assms(4,5) by (auto simp: readyScheduled_Inr)
    ultimately show ?thesis
      using readyScheduled_complete [OF 3(2) assms(4,5)] by blast
  qed (use act assms(2) in simp_all)
qed

theorem dispatch_plan_progress_witness:
  "\<exists>r. sgosTaskReadiness exampleProgram (exampleProcess\<lparr>activeExecutions := [], processTasks :=
      [exampleTask ''T1'' ''a'' Running [], (''T2'', (snd (exampleTask ''T2'' ''b'' Waiting []))
        \<lparr>taskPredecessors := [''T1'']\<rparr>)]\<rparr>)
      ((snd (exampleTask ''T2'' ''b'' Waiting []))\<lparr>taskPredecessors := [''T1'']\<rparr>) = Inr r \<and> \<not> isReady r"
proof -
  let ?t = "(snd (exampleTask ''T2'' ''b'' Waiting []))\<lparr>taskPredecessors := [''T1'']\<rparr>"
  let ?p = "exampleProcess\<lparr>activeExecutions := [], processTasks :=
      [exampleTask ''T1'' ''a'' Running [], (''T2'', ?t)]\<rparr>"
  have plan: "deterministicSgosDispatchPlan exampleProgram ?p (JNum 2) = Inr []" by code_simp
  have st: "\<not> stoppedStatus (processStatus ?p)" by code_simp
  have act: "activeTaskIds ?p = []" by code_simp
  have mem: "?t \<in> set (tasksOf ?p)" by (simp add: tasksOf_def)
  have el: "eligibleTask ?t" by code_simp
  show ?thesis by (rule dispatch_plan_progress [OF plan st act mem el])
qed

end
