(* ===== verification/CanonicalJson.thy ===== *)
theory CanonicalJson
  imports SgosOrder
begin

text \<open>
  \<open>src/records.mjs\<close>: the canonical JSON text of a record and its content address.

  \<open>canonicalize\<close> sorts the keys of every object; \<open>Object.fromEntries\<close> then enumerates
  integer-like keys first. \<open>stringify\<close> is \<open>JSON.stringify(value, null, 2)\<close>: it drops
  undefined fields, prints undefined elements and non-finite numbers as \<open>null\<close>, and escapes
  quotes, backslashes and control characters. SHA-256 comes from \<open>node:crypto\<close>; it is the
  parameter \<open>H\<close> of every definition that hashes, a function from texts to hexadecimal digests.
\<close>

type_synonym hash_function = "string \<Rightarrow> string"

section \<open>Printing\<close>

definition hexDigit :: "nat \<Rightarrow> char" where
  "hexDigit n = (if n < 10 then char_of (48 + n) else char_of (87 + n))"

definition escapeChar :: "char \<Rightarrow> string" where
  "escapeChar c =
     (if codePoint c = 34 then [CHR 0x5C, CHR 0x22]
      else if codePoint c = 92 then [CHR 0x5C, CHR 0x5C]
      else if codePoint c = 8 then [CHR 0x5C, CHR ''b'']
      else if codePoint c = 12 then [CHR 0x5C, CHR ''f'']
      else if codePoint c = 10 then [CHR 0x5C, CHR ''n'']
      else if codePoint c = 13 then [CHR 0x5C, CHR ''r'']
      else if codePoint c = 9 then [CHR 0x5C, CHR ''t'']
      else if codePoint c < 32
      then CHR 0x5C # ''u00'' @ [hexDigit (codePoint c div 16), hexDigit (codePoint c mod 16)]
      else [c])"

lemma escapeChar_code [code]:
  "escapeChar (Char a b c d e f g h) = (let x = Char a b c d e f g h in
     if h \<or> g \<or> f
     then (if \<not> h \<and> (if g then \<not> f \<and> e \<and> d \<and> c \<and> \<not> b \<and> \<not> a else \<not> e \<and> \<not> d \<and> \<not> c \<and> b \<and> \<not> a)
       then [CHR 0x5C, x] else [x])
     else if x = CHR 0x08 then [CHR 0x5C, CHR ''b'']
     else if x = CHR 0x0C then [CHR 0x5C, CHR ''f'']
     else if x = CHR 0x0A then [CHR 0x5C, CHR ''n'']
     else if x = CHR 0x0D then [CHR 0x5C, CHR ''r'']
     else if x = CHR 0x09 then [CHR 0x5C, CHR ''t'']
     else CHR 0x5C # ''u00'' @ [hexDigit (codePoint x div 16), hexDigit (codePoint x mod 16)])"
  by (cases a; cases b; cases c; cases d; cases e; cases f; cases g; cases h;
      simp add: escapeChar_def codePoint_def Let_def)

definition quoteJson :: "string \<Rightarrow> string" where
  "quoteJson s = CHR 0x22 # concat (map escapeChar s) @ [CHR 0x22]"

definition newline :: "nat \<Rightarrow> string" where
  "newline n = CHR 0x0A # replicate (2 * n) (CHR '' '')"

definition block :: "nat \<Rightarrow> char \<Rightarrow> char \<Rightarrow> string list \<Rightarrow> string" where
  "block n opening closing items =
     (if items = [] then [opening, closing]
      else opening # newline (Suc n) @ joinWith (CHR '','' # newline (Suc n)) items @ newline n @ [closing])"

fun stringify :: "nat \<Rightarrow> jsval \<Rightarrow> string" where
  "stringify n JUndef = ''null''"
| "stringify n JNull = ''null''"
| "stringify n (JBool b) = (if b then ''true'' else ''false'')"
| "stringify n (JNum i) = showInt i"
| "stringify n (JFrac t) = (if t \<in> {''NaN'', ''Infinity'', ''-Infinity''} then ''null'' else t)"
| "stringify n (JStr s) = quoteJson s"
| "stringify n (JArr xs) = block n (CHR ''['') (CHR '']'') (map (stringify (Suc n)) xs)"
| "stringify n (JObj fs) = block n (CHR ''{'') (CHR ''}'')
     (map (\<lambda>f. quoteJson (fst f) @ '': '' @ stringify (Suc n) (snd f))
       (filter (\<lambda>f. snd f \<noteq> JUndef) fs))"

section \<open>Canonical form\<close>

fun canonicalize :: "jsval \<Rightarrow> jsval" where
  "canonicalize (JArr xs) = JArr (map canonicalize xs)"
| "canonicalize (JObj fs) =
     JObj (fromEntries (sortBy (byKey fst) (map (\<lambda>f. (fst f, canonicalize (snd f))) fs)))"
| "canonicalize v = v"

definition canonicalJson :: "jsval \<Rightarrow> string" where
  "canonicalJson value =
     (if canonicalize value = JUndef then ''undefined'' else stringify 0 (canonicalize value)) @ [CHR 0x0A]"

definition recordSha256 :: "hash_function \<Rightarrow> jsval \<Rightarrow> string" where
  "recordSha256 H value = H (canonicalJson value)"

text \<open>\<open>sgosSha256\<close> of \<open>src/sgos/evidence.mjs\<close> and the prefixed form used inline elsewhere.\<close>

definition sgosSha256 :: "hash_function \<Rightarrow> jsval \<Rightarrow> string" where
  "sgosSha256 H value = ''sha256:'' @ recordSha256 H value"

section \<open>Evaluation\<close>

text \<open>
  Printing and sorting as they are evaluated: the text is built in front of an accumulator, and no
  function goes through a record again that it has already gone through.
\<close>

lemma joinWith_Cons: "joinWith d (w # ws) = w @ concat (map (\<lambda>v. d @ v) ws)"
  by (induction ws arbitrary: w) auto

fun quoteOnto :: "string \<Rightarrow> string \<Rightarrow> string" where
  "quoteOnto [] acc = CHR 0x22 # acc"
| "quoteOnto (c # cs) acc = escapeChar c @ quoteOnto cs acc"

declare quoteOnto.simps [code]

definition separator :: "bool \<Rightarrow> string" where "separator begun = (if begun then [CHR '',''] else [])"
definition endObject :: "nat \<Rightarrow> bool \<Rightarrow> string" where "endObject n begun = (if begun then newline n else [])"

definition stringifyOnto :: "nat \<Rightarrow> jsval \<Rightarrow> string \<Rightarrow> string" where
  "stringifyOnto n v acc = stringify n v @ acc"

definition elementsOnto :: "nat \<Rightarrow> jsval list \<Rightarrow> string \<Rightarrow> string" where
  "elementsOnto n xs acc = concat (map (\<lambda>x. CHR '','' # newline (Suc n) @ stringify (Suc n) x) xs) @ newline n @ CHR '']'' # acc"

definition fieldText :: "nat \<Rightarrow> string \<times> jsval \<Rightarrow> string" where
  "fieldText n f = quoteJson (fst f) @ '': '' @ stringify (Suc n) (snd f)"

definition fieldsOnto :: "nat \<Rightarrow> bool \<Rightarrow> fields \<Rightarrow> string \<Rightarrow> string" where
  "fieldsOnto n begun fs acc =
     (let items = map (fieldText n) (filter (\<lambda>f. snd f \<noteq> JUndef) fs) in
      (if begun then concat (map (\<lambda>w. CHR '','' # newline (Suc n) @ w) items) @ newline n
       else if items = [] then [] else newline (Suc n) @ joinWith (CHR '','' # newline (Suc n)) items @ newline n)
      @ CHR ''}'' # acc)"

definition fieldOnto :: "nat \<Rightarrow> bool \<Rightarrow> bool \<Rightarrow> string \<Rightarrow> jsval \<Rightarrow> fields \<Rightarrow> string \<Rightarrow> string" where
  "fieldOnto n begun dropped k v fs acc =
     (if dropped then fieldsOnto n begun fs acc
      else separator begun @ newline (Suc n) @ fieldText n (k, v) @ fieldsOnto n True fs acc)"

lemma quoteOnto_eq: "CHR 0x22 # quoteOnto s acc = quoteJson s @ acc"
proof -
  have "quoteOnto s acc = concat (map escapeChar s) @ CHR 0x22 # acc" for acc by (induction s) auto
  then show ?thesis by (simp add: quoteJson_def)
qed

lemma stringifyOnto_code [code]:
  "stringifyOnto n JUndef acc = ''null'' @ acc"
  "stringifyOnto n JNull acc = ''null'' @ acc"
  "stringifyOnto n (JBool b) acc = (if b then ''true'' else ''false'') @ acc"
  "stringifyOnto n (JNum i) acc = showInt i @ acc"
  "stringifyOnto n (JFrac t) acc = (if t \<in> {''NaN'', ''Infinity'', ''-Infinity''} then ''null'' else t) @ acc"
  "stringifyOnto n (JStr s) acc = CHR 0x22 # quoteOnto s acc"
  "stringifyOnto n (JArr []) acc = CHR ''['' # CHR '']'' # acc"
  "stringifyOnto n (JArr (x # xs)) acc = CHR ''['' # newline (Suc n) @ stringifyOnto (Suc n) x (elementsOnto n xs acc)"
  "stringifyOnto n (JObj fs) acc = CHR ''{'' # fieldsOnto n False fs acc"
  by (simp_all add: stringifyOnto_def elementsOnto_def fieldsOnto_def block_def joinWith_Cons fieldText_def [abs_def]
      quoteOnto_eq comp_def Let_def)

lemma elementsOnto_code [code]:
  "elementsOnto n [] acc = newline n @ CHR '']'' # acc"
  "elementsOnto n (x # xs) acc = CHR '','' # newline (Suc n) @ stringifyOnto (Suc n) x (elementsOnto n xs acc)"
  by (simp_all add: elementsOnto_def stringifyOnto_def)

lemma fieldsOnto_code [code]:
  "fieldsOnto n begun [] acc = endObject n begun @ CHR ''}'' # acc"
  "fieldsOnto n begun ((k, v) # fs) acc = fieldOnto n begun (isUndef v) k v fs acc"
  by (auto simp: fieldsOnto_def fieldOnto_def endObject_def separator_def isUndef_iff joinWith_Cons Let_def)

lemma fieldOnto_code [code]:
  "fieldOnto n begun True k v fs acc = fieldsOnto n begun fs acc"
  "fieldOnto n begun False k v fs acc = separator begun @ newline (Suc n) @ CHR 0x22 # quoteOnto k
     (CHR '':'' # CHR '' '' # stringifyOnto (Suc n) v (fieldsOnto n True fs acc))"
  by (simp_all add: fieldOnto_def quoteOnto_eq stringifyOnto_def fieldText_def)

lemma stringify_code [code]: "stringify n v = stringifyOnto n v []"
  by (simp add: stringifyOnto_def)

fun canonicalFields :: "fields \<Rightarrow> fields" where
  "canonicalFields [] = []"
| "canonicalFields ((k, v) # fs) = (k, canonicalize v) # canonicalFields fs"

lemma canonicalFields_eq: "canonicalFields fs = map (\<lambda>f. (fst f, canonicalize (snd f))) fs"
  by (induction fs rule: canonicalFields.induct) auto

lemma canonicalize_code [code]:
  "canonicalize JUndef = JUndef"
  "canonicalize JNull = JNull"
  "canonicalize (JBool b) = JBool b"
  "canonicalize (JNum i) = JNum i"
  "canonicalize (JFrac t) = JFrac t"
  "canonicalize (JStr s) = JStr s"
  "canonicalize (JArr xs) = JArr (map canonicalize xs)"
  "canonicalize (JObj fs) = JObj (fromEntries (sortBy (byKey fst) (canonicalFields fs)))"
  by (simp_all add: canonicalFields_eq)

definition canonicalTail :: "jsval \<Rightarrow> string" where
  "canonicalTail v = (if isUndef v then ''undefined'' @ [CHR 0x0A] else stringifyOnto 0 v [CHR 0x0A])"

lemma canonicalJson_code [code]: "canonicalJson value = canonicalTail (canonicalize value)"
  by (simp add: canonicalJson_def canonicalTail_def isUndef_iff stringifyOnto_def)

section \<open>Key order is not identity\<close>

text \<open>Two values that differ only in the order of object keys, at any depth.\<close>

inductive sameUpToKeyOrder :: "jsval \<Rightarrow> jsval \<Rightarrow> bool" where
  leaf: "sameUpToKeyOrder v v"
| array: "list_all2 sameUpToKeyOrder xs ys \<Longrightarrow> sameUpToKeyOrder (JArr xs) (JArr ys)"
| object: "list_all2 (\<lambda>f g. fst f = fst g \<and> sameUpToKeyOrder (snd f) (snd g)) fs gs \<Longrightarrow>
    mset gs' = mset gs \<Longrightarrow> distinct (map fst gs) \<Longrightarrow> sameUpToKeyOrder (JObj fs) (JObj gs')"

lemma canonicalize_sameUpToKeyOrder:
  "sameUpToKeyOrder v w \<Longrightarrow> canonicalize v = canonicalize w"
proof (induction rule: sameUpToKeyOrder.induct)
  case (array xs ys)
  then have "map canonicalize xs = map canonicalize ys"
    by (induction rule: list_all2_induct) auto
  then show ?case by simp
next
  case (object fs gs gs')
  let ?c = "\<lambda>f. (fst f, canonicalize (snd f))"
  from object.IH have "map ?c fs = map ?c gs"
    by (induction rule: list_all2_induct) auto
  moreover have "sortBy (byKey fst) (map ?c gs) = sortBy (byKey fst) (map ?c gs')"
    by (rule sortBy_byKey_perm) (use object.hyps in \<open>simp_all add: comp_def\<close>)
  ultimately show ?case by simp
qed simp

section \<open>Texts of string arrays are unambiguous\<close>

lemma codePoint_less_256: "codePoint c < 256"
  unfolding codePoint_def by (rule nat_of_char_less_256)

lemma codePoint_char_of [simp]: "n < 256 \<Longrightarrow> codePoint (char_of n) = n"
  by (simp add: codePoint_def)

lemma codePoint_eqI: "codePoint c = codePoint d \<Longrightarrow> c = d"
  by simp

lemma hexDigit_inj: "m < 16 \<Longrightarrow> n < 16 \<Longrightarrow> hexDigit m = hexDigit n \<Longrightarrow> m = n"
  by (drule arg_cong [where f = codePoint]) (auto simp: hexDigit_def split: if_splits)

definition escapeCode :: "nat \<Rightarrow> nat option" where
  "escapeCode n = map_of [(34, 34), (92, 92), (8, 98), (12, 102), (10, 110), (13, 114), (9, 116)] n"

lemma escapeChar_short:
  "escapeCode (codePoint c) = Some k \<Longrightarrow> escapeChar c = [CHR 0x5C, char_of k]"
  by (rule sym) (auto simp: escapeCode_def escapeChar_def char_of_eq_iff take_bit_eq_mod split: if_splits)

lemma escapeChar_long:
  "escapeCode (codePoint c) = None \<Longrightarrow> codePoint c < 32 \<Longrightarrow>
     escapeChar c = CHR 0x5C # ''u00'' @ [hexDigit (codePoint c div 16), hexDigit (codePoint c mod 16)]"
  by (auto simp: escapeCode_def escapeChar_def split: if_splits)

lemma escapeChar_plain:
  "escapeCode (codePoint c) = None \<Longrightarrow> \<not> codePoint c < 32 \<Longrightarrow> escapeChar c = [c] \<and> c \<noteq> CHR 0x5C \<and> c \<noteq> CHR 0x22"
  by (auto simp: escapeCode_def escapeChar_def codePoint_def split: if_splits)

lemma escapeCode_inj: "escapeCode m = Some k \<Longrightarrow> escapeCode n = Some k \<Longrightarrow> m = n"
  by (auto simp: escapeCode_def split: if_splits)

lemma escapeCode_range: "escapeCode m = Some k \<Longrightarrow> k < 256 \<and> k \<noteq> 117"
  by (auto simp: escapeCode_def split: if_splits)

lemma char_of_eq: "(m::nat) < 256 \<Longrightarrow> (n::nat) < 256 \<Longrightarrow> char_of m = char_of n \<Longrightarrow> m = n"
  by (metis codePoint_char_of)

lemma escapeChar_head:
  obtains k where "escapeCode (codePoint c) = Some k" "escapeChar c = [CHR 0x5C, char_of k]"
  | "escapeCode (codePoint c) = None" "codePoint c < 32"
    "escapeChar c = CHR 0x5C # ''u00'' @ [hexDigit (codePoint c div 16), hexDigit (codePoint c mod 16)]"
  | "escapeCode (codePoint c) = None" "escapeChar c = [c]" "c \<noteq> CHR 0x5C" "c \<noteq> CHR 0x22"
  using escapeChar_short escapeChar_long escapeChar_plain by (metis option.exhaust)

lemma char_of_not_u: "(k::nat) < 256 \<Longrightarrow> k \<noteq> 117 \<Longrightarrow> char_of k \<noteq> CHR ''u''"
  by (simp add: char_of_eq_iff take_bit_eq_mod)

lemma escapeChar_prefix_free:
  assumes "escapeChar c @ x = escapeChar d @ y"
  shows "c = d \<and> x = y"
proof (cases c rule: escapeChar_head)
  case c: (1 k)
  show ?thesis
  proof (cases d rule: escapeChar_head)
    case (1 l)
    then show ?thesis using assms c escapeCode_inj escapeCode_range char_of_eq
      by (metis append_Cons append_Nil list.inject codePoint_inj)
  qed (use assms c escapeCode_range char_of_not_u in auto)
next
  case c: 2
  show ?thesis
  proof (cases d rule: escapeChar_head)
    case 2
    then have "codePoint c div 16 = codePoint d div 16" "codePoint c mod 16 = codePoint d mod 16" "x = y"
      using assms c by (auto intro!: hexDigit_inj)
    then have "codePoint c = codePoint d" by (metis div_mult_mod_eq)
    with \<open>x = y\<close> show ?thesis by simp
  next
    case (1 l)
    then have "CHR ''u'' = char_of l" using assms c by auto
    with 1 show ?thesis using escapeCode_range char_of_not_u by metis
  qed (use assms c in auto)
next
  case c: 3
  show ?thesis by (cases d rule: escapeChar_head) (use assms c in auto)
qed

lemma escapeChar_no_quote: "escapeChar c @ x \<noteq> CHR 0x22 # y"
  by (cases c rule: escapeChar_head) auto

lemma escape_prefix_free:
  "concat (map escapeChar s) @ CHR 0x22 # x = concat (map escapeChar t) @ CHR 0x22 # y \<Longrightarrow> s = t \<and> x = y"
proof (induction s arbitrary: t)
  case Nil
  then show ?case
    using escapeChar_no_quote by (cases t) (auto, metis)
next
  case (Cons c s)
  show ?case
  proof (cases t)
    case Nil
    with Cons.prems escapeChar_no_quote show ?thesis by auto
  next
    case (Cons d u)
    with Cons.prems have "escapeChar c @ concat (map escapeChar s) @ CHR 0x22 # x
        = escapeChar d @ concat (map escapeChar u) @ CHR 0x22 # y" by simp
    from escapeChar_prefix_free [OF this] Cons.IH [of u] Cons show ?thesis by blast
  qed
qed

lemma quoteJson_prefix_free: "quoteJson s @ x = quoteJson t @ y \<Longrightarrow> s = t \<and> x = y"
  by (rule escape_prefix_free) (simp add: quoteJson_def)

definition arrayTail :: "string list \<Rightarrow> string" where
  "arrayTail ss = concat (map (\<lambda>s. CHR '','' # newline 1 @ quoteJson s) ss) @ newline 0 @ '']''"

lemma stringify_strings:
  "stringify 0 (JArr (map JStr (s # ss))) = CHR ''['' # newline 1 @ quoteJson s @ arrayTail ss"
  by (simp add: block_def joinWith_Cons arrayTail_def comp_def)

lemma arrayTail_inj: "arrayTail ss = arrayTail ts \<Longrightarrow> ss = ts"
proof (induction ss arbitrary: ts)
  case Nil
  then show ?case by (cases ts) (auto simp: arrayTail_def newline_def)
next
  case (Cons s ss)
  then obtain t us where ts: "ts = t # us"
    by (cases ts) (auto simp: arrayTail_def newline_def)
  with Cons.prems have "quoteJson s @ arrayTail ss = quoteJson t @ arrayTail us"
    by (simp add: arrayTail_def)
  from quoteJson_prefix_free [OF this] Cons.IH ts show ?case by blast
qed

lemma canonicalJson_strings_inj [simp]:
  "canonicalJson (JArr (map JStr ss)) = canonicalJson (JArr (map JStr ts)) \<longleftrightarrow> ss = ts"
proof
  have canon: "map canonicalize (map JStr us) = map JStr us" for us by (induction us) auto
  assume "canonicalJson (JArr (map JStr ss)) = canonicalJson (JArr (map JStr ts))"
  then have eq: "stringify 0 (JArr (map JStr ss)) = stringify 0 (JArr (map JStr ts))"
    by (simp add: canonicalJson_def canon del: map_map stringify.simps)
  show "ss = ts"
  proof (cases ss; cases ts)
    fix s ss' t ts'
    assume l: "ss = s # ss'" "ts = t # ts'"
    with eq have "quoteJson s @ arrayTail ss' = quoteJson t @ arrayTail ts'"
      by (simp add: stringify_strings del: list.map stringify.simps)
    from quoteJson_prefix_free [OF this] arrayTail_inj l show "ss = ts" by blast
  qed (use eq in \<open>auto simp: block_def newline_def\<close>)
qed simp

lemma canonicalJson_string_inj [simp]: "canonicalJson (JStr s) = canonicalJson (JStr t) \<longleftrightarrow> s = t"
proof
  assume "canonicalJson (JStr s) = canonicalJson (JStr t)"
  then have "quoteJson s @ [CHR 0x0A] = quoteJson t @ [CHR 0x0A]" by (simp add: canonicalJson_def)
  from quoteJson_prefix_free [OF this] show "s = t" by simp
qed simp

end
