(* ===== verification/SgosFanout.thy ===== *)
theory SgosFanout
  imports CanonicalJson
begin

text \<open>
  \<open>src/sgos/fanout.mjs\<close>: the finite fan-out profiles. A static fan-out lists its items in the
  approved workflow; a dynamic one names an output of an earlier task whose elements become the
  items. Both give items with unique keys in canonical order and a digest of the collection.
\<close>

section \<open>Items\<close>

record fanout_item =
  itemKey :: string
  itemValue :: jsval
  itemSha256 :: string

record fanout_profile =
  profileTask :: string
  profileMaximumItems :: int
  profileMaximumParallel :: int
  profileCollectionSha256 :: string
  profileItems :: "fanout_item list"
  profileCanonicalBytes :: string

definition sgosFanoutItemSha256 :: "hash_function \<Rightarrow> jsval \<Rightarrow> string" where
  "sgosFanoutItemSha256 H value =
     sgosSha256 H (JObj [(''kind'', JStr ''sgos-fanout-item''), (''value'', value)])"

text \<open>\<open>items.map(({ itemKey, itemSha256 }) => ({ itemKey, itemSha256 }))\<close>.\<close>

definition itemIdentities :: "fanout_item list \<Rightarrow> jsval" where
  "itemIdentities items =
     JArr (map (\<lambda>i. JObj [(''itemKey'', JStr (itemKey i)), (''itemSha256'', JStr (itemSha256 i))]) items)"

definition boundedMaximum :: "jsval \<Rightarrow> int \<Rightarrow> int \<Rightarrow> bool" where
  "boundedMaximum v low high \<longleftrightarrow> isSafeInteger v \<and> low \<le> numberOf v \<and> numberOf v \<le> high"

definition nul :: char where "nul = CHR 0x00"

definition staticItem :: "hash_function \<Rightarrow> jsval \<Rightarrow> fanout_item result" where
  "staticItem H item =
     (if \<not> plainObject item \<or> \<not> isString (getp item ''key'') \<or> trim (stringOf (getp item ''key'')) = []
         \<or> \<not> hasOwn item ''value''
      then fail ''SGOS_FANOUT_INVALID''
      else let key = trim (stringOf (getp item ''key'')); value = getp item ''value''
           in if nul \<in> set key then fail ''SGOS_FANOUT_INVALID''
              else Inr \<lparr>itemKey = key, itemValue = value, itemSha256 = sgosFanoutItemSha256 H value\<rparr>)"

definition normalizeSgosFanout ::
    "hash_function \<Rightarrow> string \<Rightarrow> jsval \<Rightarrow> jsval \<Rightarrow> jsval \<Rightarrow> fanout_profile result" where
  "normalizeSgosFanout H taskId items maximumItems maximumParallel =
     (if \<not> isArray items then fail ''SGOS_FANOUT_INVALID''
      else if \<not> boundedMaximum maximumItems 0 maximumFanoutItems then fail ''SGOS_FANOUT_LIMIT''
      else if int (length (elements items)) > numberOf maximumItems then fail ''SGOS_FANOUT_LIMIT''
      else if \<not> boundedMaximum maximumParallel 1 maximumFanoutParallel then fail ''SGOS_FANOUT_PARALLEL_LIMIT''
      else andThen (mapResult (staticItem H) (elements items)) (\<lambda>values.
        let normalized = sortBy (byKey itemKey) values in
        if length (dedupe (map itemKey normalized)) \<noteq> length normalized then fail ''SGOS_FANOUT_INVALID''
        else Inr \<lparr>profileTask = taskId, profileMaximumItems = numberOf maximumItems,
          profileMaximumParallel = numberOf maximumParallel,
          profileCollectionSha256 = sgosSha256 H (JObj
            [(''kind'', JStr ''sgos-fanout-collection''), (''items'', itemIdentities normalized)]),
          profileItems = normalized,
          profileCanonicalBytes = canonicalJson (itemIdentities normalized)\<rparr>))"

definition sgosFanoutChildTemplateId :: "hash_function \<Rightarrow> string \<Rightarrow> string \<Rightarrow> string \<Rightarrow> string" where
  "sgosFanoutChildTemplateId H parent key sha =
     parent @ '':item:'' @ take 20 (recordSha256 H (JObj
       [(''parentTaskId'', JStr parent), (''itemKey'', JStr key), (''itemSha256'', JStr sha)]))"

section \<open>Selectors\<close>

text \<open>
  The two regular expressions. The first group of \<open>DYNAMIC_SOURCE\<close> is greedy, so the split at
  \<open>.outputs.\<close> is the last one that leaves an identifier before it and a name after it.
\<close>

definition nameChar :: "char \<Rightarrow> bool" where
  "nameChar c \<longleftrightarrow> isAlnum c \<or> c \<in> {CHR ''.'', CHR ''_'', CHR ''-''}"

definition identifierChar :: "char \<Rightarrow> bool" where
  "identifierChar c \<longleftrightarrow> nameChar c \<or> c = CHR '':''"

fun headThen :: "(char \<Rightarrow> bool) \<Rightarrow> string \<Rightarrow> bool" where
  "headThen p [] = False"
| "headThen p (c # cs) = (isAlnum c \<and> list_all p cs)"

definition splitsAt :: "string \<Rightarrow> string \<Rightarrow> (string \<times> string) list" where
  "splitsAt sep s =
     map (\<lambda>i. (take i s, drop (i + length sep) s))
       (filter (\<lambda>i. take (length sep) (drop i s) = sep) (rev [0..<length s]))"

definition matchDynamicSource :: "string \<Rightarrow> (string \<times> string) option" where
  "matchDynamicSource s =
     (if startsWith s ''$tasks.''
      then find (\<lambda>(t, n). headThen identifierChar t \<and> headThen nameChar n)
             (splitsAt ''.outputs.'' (drop (length ''$tasks.'') s))
      else None)"

definition matchDynamicItemKey :: "string \<Rightarrow> string option" where
  "matchDynamicItemKey s =
     (if startsWith s ''$.'' \<and> headThen nameChar (drop 2 s) then Some (drop 2 s) else None)"

definition selectorText :: "jsval \<Rightarrow> string" where
  "selectorText value = jsString (coalesce value (JStr []))"

definition parseSgosDynamicFanoutSource :: "jsval \<Rightarrow> (string \<times> string) result" where
  "parseSgosDynamicFanoutSource value =
     (case matchDynamicSource (selectorText value) of
        None \<Rightarrow> fail ''SGOS_DYNAMIC_FANOUT_SELECTOR_INVALID'' | Some m \<Rightarrow> Inr m)"

definition parseSgosDynamicFanoutItemKey :: "jsval \<Rightarrow> (jsval \<times> string option) result" where
  "parseSgosDynamicFanoutItemKey value =
     (if value = JStr ''$'' then Inr (JStr ''$'', None)
      else case matchDynamicItemKey (selectorText value) of
        None \<Rightarrow> fail ''SGOS_DYNAMIC_FANOUT_SELECTOR_INVALID''
      | Some f \<Rightarrow> Inr (value, Some f))"

record dynamic_fanout =
  dynamicParent :: string
  dynamicSource :: string
  dynamicOutput :: string
  dynamicSelector :: jsval
  dynamicBody :: string
  dynamicMaximumItems :: int
  dynamicMaximumParallel :: int

definition sgosDynamicFanoutBodyTemplateId :: "string \<Rightarrow> string" where
  "sgosDynamicFanoutBodyTemplateId parent = parent @ '':dynamic-body''"

definition normalizeSgosDynamicFanoutDescriptor ::
    "string \<Rightarrow> jsval \<Rightarrow> jsval \<Rightarrow> jsval \<Rightarrow> jsval \<Rightarrow> string option \<Rightarrow> dynamic_fanout result" where
  "normalizeSgosDynamicFanoutDescriptor taskId over itemKeySelector maximumItems maximumParallel body =
     andThen (parseSgosDynamicFanoutSource over) (\<lambda>source.
     andThen (parseSgosDynamicFanoutItemKey itemKeySelector) (\<lambda>key.
       if \<not> boundedMaximum maximumItems 0 maximumFanoutItems then fail ''SGOS_FANOUT_LIMIT''
       else if \<not> boundedMaximum maximumParallel 1 maximumFanoutParallel then fail ''SGOS_FANOUT_PARALLEL_LIMIT''
       else Inr \<lparr>dynamicParent = taskId, dynamicSource = fst source, dynamicOutput = snd source,
         dynamicSelector = fst key,
         dynamicBody = (case body of None \<Rightarrow> sgosDynamicFanoutBodyTemplateId taskId | Some b \<Rightarrow> b),
         dynamicMaximumItems = numberOf maximumItems,
         dynamicMaximumParallel = numberOf maximumParallel\<rparr>))"

definition sgosDynamicFanoutChildInstanceId ::
    "hash_function \<Rightarrow> string \<Rightarrow> string \<Rightarrow> string \<Rightarrow> string \<Rightarrow> string" where
  "sgosDynamicFanoutChildInstanceId H pid parent key sha =
     ''TSK-'' @ toUpperCase (take 24 (recordSha256 H (JObj
       [(''processId'', JStr pid), (''parentTaskId'', JStr parent), (''itemKey'', JStr key),
        (''itemSha256'', JStr sha)])))"

section \<open>Dynamic collections\<close>

definition dynamicItemKey :: "jsval \<Rightarrow> jsval \<Rightarrow> string result" where
  "dynamicItemKey value selector =
     andThen (parseSgosDynamicFanoutItemKey selector) (\<lambda>parsed.
       let selected = (case snd parsed of None \<Rightarrow> value
             | Some f \<Rightarrow> if plainObject value then getp value f else JUndef);
           key = (if isString selected then trim (stringOf selected) else jsString selected)
       in if \<not> (isString selected \<or> isNumber selected \<or> isBoolean selected)
             \<or> (isString selected \<and> trim (stringOf selected) = [])
          then fail ''SGOS_DYNAMIC_FANOUT_ITEM_KEY_INVALID''
          else if nul \<in> set key then fail ''SGOS_FANOUT_INVALID'' else Inr key)"

definition dynamicItem :: "hash_function \<Rightarrow> jsval \<Rightarrow> jsval \<Rightarrow> fanout_item result" where
  "dynamicItem H selector value =
     andThen (dynamicItemKey value selector) (\<lambda>key.
       Inr \<lparr>itemKey = key, itemValue = value, itemSha256 = sgosFanoutItemSha256 H value\<rparr>)"

definition normalizeSgosDynamicFanoutCollection ::
    "hash_function \<Rightarrow> string \<Rightarrow> jsval \<Rightarrow> jsval \<Rightarrow> int \<Rightarrow> (string \<times> fanout_item list) result" where
  "normalizeSgosDynamicFanoutCollection H outputName selector values maximumItems =
     (if \<not> isArray values then fail ''SGOS_DYNAMIC_FANOUT_COLLECTION_INVALID''
      else if int (length (elements values)) > maximumItems then fail ''SGOS_FANOUT_LIMIT''
      else andThen (mapResult (dynamicItem H selector) (elements values)) (\<lambda>vs.
        let items = sortBy (byKey itemKey) vs in
        if length (dedupe (map itemKey items)) \<noteq> length items
        then fail ''SGOS_DYNAMIC_FANOUT_ITEM_KEY_DUPLICATE''
        else Inr (sgosSha256 H (JObj
            [(''kind'', JStr ''sgos-dynamic-fanout-collection''), (''outputName'', JStr outputName),
             (''itemKeySelector'', selector), (''items'', itemIdentities items)]), items)))"

section \<open>Lemmas\<close>

lemma normalizeSgosFanout_Inr:
  "normalizeSgosFanout H t (JArr xs) mi mp = Inr p \<longleftrightarrow>
     boundedMaximum mi 0 maximumFanoutItems \<and> int (length xs) \<le> numberOf mi \<and>
     boundedMaximum mp 1 maximumFanoutParallel \<and>
     (\<exists>vs. mapResult (staticItem H) xs = Inr vs \<and> distinct (map itemKey vs) \<and>
       p = \<lparr>profileTask = t, profileMaximumItems = numberOf mi, profileMaximumParallel = numberOf mp,
          profileCollectionSha256 = sgosSha256 H (JObj
            [(''kind'', JStr ''sgos-fanout-collection''),
             (''items'', itemIdentities (sortBy (byKey itemKey) vs))]),
          profileItems = sortBy (byKey itemKey) vs,
          profileCanonicalBytes = canonicalJson (itemIdentities (sortBy (byKey itemKey) vs))\<rparr>)"
  unfolding normalizeSgosFanout_def Let_def if_fail_Inr andThen_Inr by auto

lemma staticItem_Inr:
  "staticItem H v = Inr i \<longleftrightarrow>
     plainObject v \<and> isString (getp v ''key'') \<and> hasOwn v ''value'' \<and>
     itemKey i = trim (stringOf (getp v ''key'')) \<and> itemKey i \<noteq> [] \<and> nul \<notin> set (itemKey i) \<and>
     itemValue i = getp v ''value'' \<and> itemSha256 i = sgosFanoutItemSha256 H (itemValue i)"
  unfolding staticItem_def Let_def if_fail_Inr by (auto intro: fanout_item.equality)

lemma sorted_item_keys:
  assumes "distinct (map itemKey vs)"
  shows "sorted_wrt (<) (map itemKey (sortBy (byKey itemKey) vs))"
  using assms sortBy_byKey_keys [of itemKey vs] by (simp add: sortPoints_sort strict_sorted_iff)

lemma dynamicCollection_Inr:
  "normalizeSgosDynamicFanoutCollection H out sel (JArr xs) mi = Inr (sha, items) \<longleftrightarrow>
     int (length xs) \<le> mi \<and>
     (\<exists>vs. mapResult (dynamicItem H sel) xs = Inr vs \<and> distinct (map itemKey vs) \<and>
       items = sortBy (byKey itemKey) vs \<and>
       sha = sgosSha256 H (JObj
            [(''kind'', JStr ''sgos-dynamic-fanout-collection''), (''outputName'', JStr out),
             (''itemKeySelector'', sel), (''items'', itemIdentities items)]))"
  unfolding normalizeSgosDynamicFanoutCollection_def Let_def if_fail_Inr andThen_Inr by auto

lemma dynamicItem_Inr:
  "dynamicItem H sel v = Inr i \<longleftrightarrow>
     dynamicItemKey v sel = Inr (itemKey i) \<and> itemValue i = v \<and>
     itemSha256 i = sgosFanoutItemSha256 H v"
  by (auto simp: dynamicItem_def andThen_Inr intro: fanout_item.equality)

lemma splitsAt_set:
  "(a, b) \<in> set (splitsAt sep s) \<longleftrightarrow> s = a @ sep @ b \<and> (sep = [] \<longrightarrow> b \<noteq> [])"
proof
  assume "(a, b) \<in> set (splitsAt sep s)"
  then obtain i where "i < length s" "take (length sep) (drop i s) = sep" "a = take i s"
    "b = drop (i + length sep) s" by (auto simp: splitsAt_def)
  then show "s = a @ sep @ b \<and> (sep = [] \<longrightarrow> b \<noteq> [])"
    by (metis add.commute append_take_drop_id drop_drop drop_eq_Nil leD list.size(3) add.right_neutral)
next
  assume s: "s = a @ sep @ b \<and> (sep = [] \<longrightarrow> b \<noteq> [])"
  then show "(a, b) \<in> set (splitsAt sep s)"
    by (auto simp: splitsAt_def image_iff intro!: exI [of _ "length a"])
qed

lemma splitsAt_decreasing: "sorted_wrt (\<lambda>x y. length (fst y) < length (fst x)) (splitsAt sep s)"
proof -
  have "sorted_wrt (\<lambda>i j. j < i) (rev [0..<length s])"
    by (simp add: sorted_wrt_rev)
  then have "sorted_wrt (\<lambda>i j. j < i) (filter (\<lambda>i. take (length sep) (drop i s) = sep) (rev [0..<length s]))"
    by (rule sorted_wrt_filter)
  then show ?thesis
    unfolding splitsAt_def sorted_wrt_map
    by (rule sorted_wrt_mono_rel [rotated]) auto
qed

lemma find_sorted_first:
  assumes "sorted_wrt R xs" "find P xs = Some x" "y \<in> set xs" "P y"
  shows "y = x \<or> R x y"
  using assms by (induction xs) (auto split: if_splits)

definition dynamicSourceText :: "string \<Rightarrow> string \<Rightarrow> string" where
  "dynamicSourceText t n = ''$tasks.'' @ t @ ''.outputs.'' @ n"

lemma startsWith_iff: "startsWith s p \<longleftrightarrow> (\<exists>r. s = p @ r)"
  by (auto simp: startsWith_def) (metis append_take_drop_id)

lemma matchDynamicSource_Some:
  assumes "matchDynamicSource s = Some (t, n)"
  shows "s = dynamicSourceText t n \<and> headThen identifierChar t \<and> headThen nameChar n"
proof -
  let ?r = "drop (length ''$tasks.'') s"
  have st: "startsWith s ''$tasks.''" and f: "find (\<lambda>(t, n). headThen identifierChar t \<and> headThen nameChar n)
      (splitsAt ''.outputs.'' ?r) = Some (t, n)"
    using assms by (auto simp: matchDynamicSource_def split: if_splits)
  from f have "(t, n) \<in> set (splitsAt ''.outputs.'' ?r)" "headThen identifierChar t" "headThen nameChar n"
    by (auto simp: find_Some_iff in_set_conv_nth)
  moreover from this(1) have "?r = t @ ''.outputs.'' @ n" by (simp only: splitsAt_set)
  moreover obtain r where "s = ''$tasks.'' @ r" using st by (auto simp: startsWith_iff)
  ultimately show ?thesis by (simp add: dynamicSourceText_def)
qed

lemma matchDynamicSource_greedy:
  assumes "headThen identifierChar t" "headThen nameChar n"
  shows "\<exists>t' n'. matchDynamicSource (dynamicSourceText t n) = Some (t', n') \<and> length t \<le> length t'"
proof -
  let ?P = "\<lambda>(t, n). headThen identifierChar t \<and> headThen nameChar n"
  let ?r = "t @ ''.outputs.'' @ n"
  have m: "matchDynamicSource (dynamicSourceText t n) = find ?P (splitsAt ''.outputs.'' ?r)"
    by (simp add: matchDynamicSource_def dynamicSourceText_def startsWith_def)
  have "(t, n) \<in> set (splitsAt ''.outputs.'' ?r)" by (simp only: splitsAt_set) simp
  moreover from this obtain x where x: "find ?P (splitsAt ''.outputs.'' ?r) = Some x"
    using assms by (cases "find ?P (splitsAt ''.outputs.'' ?r)") (auto simp: find_None_iff)
  ultimately have "(t, n) = x \<or> length (fst (t, n)) < length (fst x)"
    by (intro find_sorted_first [OF splitsAt_decreasing x]) (use assms in auto)
  then show ?thesis using m x by (cases x) auto
qed

section \<open>Properties\<close>

text \<open>
  C35: an accepted static fan-out. Its items have strictly increasing, trimmed, non-empty keys free of
  \<open>NUL\<close>; there are at most \<open>maximumItems\<close> of them, which is at most 256; the parallel ceiling is
  in \<open>1..8\<close>; each item carries the digest of its own value; and any permutation of the declared
  items gives the same profile, collection digest included.
\<close>

theorem static_fanout_canonical:
  assumes "normalizeSgosFanout H t (JArr xs) mi mp = Inr p" "mset ys = mset xs"
  shows "normalizeSgosFanout H t (JArr ys) mi mp = Inr p \<and>
         sorted_wrt (<) (map itemKey (profileItems p)) \<and>
         length (profileItems p) = length xs \<and> int (length xs) \<le> profileMaximumItems p \<and>
         profileMaximumItems p \<le> 256 \<and> 1 \<le> profileMaximumParallel p \<and> profileMaximumParallel p \<le> 8 \<and>
         (\<forall>i \<in> set (profileItems p). itemKey i \<noteq> [] \<and> trim (itemKey i) = itemKey i \<and>
            nul \<notin> set (itemKey i) \<and> itemSha256 i = sgosFanoutItemSha256 H (itemValue i))"
proof -
  obtain vs where vs: "mapResult (staticItem H) xs = Inr vs" and d: "distinct (map itemKey vs)"
    and p: "profileItems p = sortBy (byKey itemKey) vs" "profileMaximumItems p = numberOf mi"
      "profileMaximumParallel p = numberOf mp"
    and b: "boundedMaximum mi 0 maximumFanoutItems" "int (length xs) \<le> numberOf mi"
      "boundedMaximum mp 1 maximumFanoutParallel"
    using assms(1) by (auto simp: normalizeSgosFanout_Inr)
  obtain us where us: "mapResult (staticItem H) ys = Inr us" "mset us = mset vs"
    using mapResult_perm [OF vs assms(2)] by blast
  have "sortBy (byKey itemKey) us = sortBy (byKey itemKey) vs"
    by (rule sortBy_byKey_perm [OF us(2) [symmetric] d, symmetric])
  moreover have "length ys = length xs" using assms(2) by (rule mset_eq_length)
  ultimately have "normalizeSgosFanout H t (JArr ys) mi mp = Inr p"
    using assms(1) vs us mset_distinct_map [OF us(2)] unfolding normalizeSgosFanout_Inr by auto
  moreover have "\<forall>i \<in> set vs. \<exists>v. staticItem H v = Inr i"
    using vs list_all2_in_right unfolding mapResult_Inr by fastforce
  moreover have "length vs = length xs"
    using vs by (auto simp: mapResult_Inr dest: list_all2_lengthD)
  ultimately show ?thesis
    using sorted_item_keys [OF d] b p
    by (auto simp: staticItem_Inr boundedMaximum_def maximumFanoutItems_def maximumFanoutParallel_def)
qed

theorem static_fanout_canonical_witness:
  "\<exists>p. normalizeSgosFanout (\<lambda>_. ''ab'') ''each'' (JArr
      [JObj [(''key'', JStr ''a''), (''value'', JNum 1)], JObj [(''key'', JStr '' b ''), (''value'', JNull)]])
      (JNum 2) (JNum 3) = Inr p \<and> map itemKey (profileItems p) = [''a'', ''b'']"
proof -
  let ?a = "JObj [(''key'', JStr ''a''), (''value'', JNum 1)]"
  let ?b = "JObj [(''key'', JStr '' b ''), (''value'', JNull)]"
  have run: "isl (normalizeSgosFanout (\<lambda>_. ''ab'') ''each'' (JArr [?b, ?a]) (JNum 2) (JNum 3)) = False \<and>
      map itemKey (profileItems (projr (normalizeSgosFanout (\<lambda>_. ''ab'') ''each'' (JArr [?b, ?a]) (JNum 2) (JNum 3))))
      = [''a'', ''b'']" by code_simp
  then obtain p where "normalizeSgosFanout (\<lambda>_. ''ab'') ''each'' (JArr [?b, ?a]) (JNum 2) (JNum 3) = Inr p"
    "map itemKey (profileItems p) = [''a'', ''b'']"
    by (metis isl_def sum.exhaust_sel sum.collapse(2))
  with static_fanout_canonical [OF this(1), of "[?a, ?b]"] show ?thesis by auto
qed

text \<open>
  C36: an accepted dynamic collection. The items are the produced values in strictly increasing key
  order, no more than the descriptor allows, each with the key its selector picks and the digest of
  its value; the order in which the source task produced the values changes neither the items nor
  the collection digest.
\<close>

theorem dynamic_fanout_canonical:
  assumes "normalizeSgosDynamicFanoutCollection H out sel (JArr xs) mi = Inr (sha, items)" "mset ys = mset xs"
  shows "normalizeSgosDynamicFanoutCollection H out sel (JArr ys) mi = Inr (sha, items) \<and>
         sorted_wrt (<) (map itemKey items) \<and> int (length items) \<le> mi \<and>
         mset (map itemValue items) = mset xs \<and>
         (\<forall>i \<in> set items. dynamicItemKey (itemValue i) sel = Inr (itemKey i) \<and>
            itemSha256 i = sgosFanoutItemSha256 H (itemValue i))"
proof -
  obtain vs where vs: "mapResult (dynamicItem H sel) xs = Inr vs" and d: "distinct (map itemKey vs)"
    and it: "items = sortBy (byKey itemKey) vs" and le: "int (length xs) \<le> mi"
    using assms(1) by (auto simp: dynamicCollection_Inr)
  obtain us where us: "mapResult (dynamicItem H sel) ys = Inr us" "mset us = mset vs"
    using mapResult_perm [OF vs assms(2)] by blast
  have "sortBy (byKey itemKey) us = sortBy (byKey itemKey) vs"
    by (rule sortBy_byKey_perm [OF us(2) [symmetric] d, symmetric])
  moreover have "length ys = length xs" using assms(2) by (rule mset_eq_length)
  ultimately have "normalizeSgosDynamicFanoutCollection H out sel (JArr ys) mi = Inr (sha, items)"
    using assms(1) vs us mset_distinct_map [OF us(2)] unfolding dynamicCollection_Inr by auto
  moreover have "map itemValue vs = xs" and ok: "\<forall>i \<in> set vs. dynamicItem H sel (itemValue i) = Inr i"
    using vs unfolding mapResult_Inr by (induction rule: list_all2_induct) (auto simp: dynamicItem_Inr)
  moreover have "length vs = length xs"
    using vs by (auto simp: mapResult_Inr dest: list_all2_lengthD)
  ultimately show ?thesis
    using sorted_item_keys [OF d] it le by (auto simp: dynamicItem_Inr)
qed

theorem dynamic_fanout_canonical_witness:
  "\<exists>sha items. normalizeSgosDynamicFanoutCollection (\<lambda>_. ''ab'') ''rows'' (JStr ''$.id'') (JArr
      [JObj [(''id'', JNum 10)], JObj [(''id'', JStr ''a'')]]) 5 = Inr (sha, items) \<and>
      map itemKey items = [''10'', ''a'']"
proof -
  let ?a = "JObj [(''id'', JNum 10)]"
  let ?b = "JObj [(''id'', JStr ''a'')]"
  let ?n = "\<lambda>xs. normalizeSgosDynamicFanoutCollection (\<lambda>_. ''ab'') ''rows'' (JStr ''$.id'') (JArr xs) 5"
  have "isl (?n [?b, ?a]) = False \<and> map itemKey (snd (projr (?n [?b, ?a]))) = [''10'', ''a'']" by code_simp
  then obtain sha items where "?n [?b, ?a] = Inr (sha, items)" "map itemKey items = [''10'', ''a'']"
    by (metis isl_def sum.exhaust_sel sum.collapse(2) prod.collapse)
  with dynamic_fanout_canonical [OF this(1), of "[?a, ?b]"] show ?thesis by auto
qed

text \<open>
  C39: the installed selector grammar. A source selector is accepted exactly when it has the form
  \<open>$tasks.\<close>task\<open>.outputs.\<close>name; what the parser returns re-prints as the selector, both parts
  obey the character classes, and where several splits are possible the longest task ID is taken.
\<close>

theorem selector_grammar:
  "((\<exists>m. parseSgosDynamicFanoutSource (JStr s) = Inr m) \<longleftrightarrow>
      (\<exists>t n. s = dynamicSourceText t n \<and> headThen identifierChar t \<and> headThen nameChar n)) \<and>
   (parseSgosDynamicFanoutSource (JStr s) = Inr (t, n) \<longrightarrow>
      s = dynamicSourceText t n \<and> headThen identifierChar t \<and> headThen nameChar n \<and>
      (\<forall>t' n'. s = dynamicSourceText t' n' \<longrightarrow> headThen identifierChar t' \<longrightarrow> headThen nameChar n' \<longrightarrow>
         length t' \<le> length t))"
proof -
  have *: "parseSgosDynamicFanoutSource (JStr s) = Inr m \<longleftrightarrow> matchDynamicSource s = Some m" for m
    by (auto simp: parseSgosDynamicFanoutSource_def selectorText_def split: option.splits)
  have "(\<exists>m. matchDynamicSource s = Some m) \<longleftrightarrow>
     (\<exists>t n. s = dynamicSourceText t n \<and> headThen identifierChar t \<and> headThen nameChar n)"
    using matchDynamicSource_Some matchDynamicSource_greedy by (metis surj_pair)
  moreover have "matchDynamicSource s = Some (t, n) \<Longrightarrow>
     s = dynamicSourceText t n \<and> headThen identifierChar t \<and> headThen nameChar n \<and>
     (\<forall>t' n'. s = dynamicSourceText t' n' \<longrightarrow> headThen identifierChar t' \<longrightarrow> headThen nameChar n' \<longrightarrow>
        length t' \<le> length t)"
    using matchDynamicSource_Some matchDynamicSource_greedy by fastforce
  ultimately show ?thesis unfolding * by blast
qed

theorem selector_grammar_witness:
  "''$tasks.a.outputs.b.outputs.c'' = dynamicSourceText ''a.outputs.b'' ''c'' \<and>
   parseSgosDynamicFanoutSource (JStr ''$tasks.a.outputs.b.outputs.c'') = Inr (''a.outputs.b'', ''c'')"
proof -
  have "parseSgosDynamicFanoutSource (JStr ''$tasks.a.outputs.b.outputs.c'') = Inr (''a.outputs.b'', ''c'')"
    by code_simp
  with selector_grammar [of "''$tasks.a.outputs.b.outputs.c''" "''a.outputs.b''" "''c''"]
  show ?thesis by blast
qed

end
