(* ===== verification/SgosMaterialization.thy ===== *)
theory SgosMaterialization
  imports SgosScheduler SgosFanout
begin

text \<open>
  \<open>src/sgos/materialization.mjs\<close>: the task instances a Program gives to a new Process, and the check
  that a stored Process is still the deterministic materialization of its approved Program. Instance
  identifiers are derived from a hash, so every definition takes the hash function \<open>H\<close>.
\<close>

section \<open>Materialization\<close>

definition edgeFrom :: "jsval \<Rightarrow> jsval" where
  "edgeFrom edge = (if isArray edge then getp edge ''0''
     else coalesceAll [getp edge ''from'', getp edge ''source'', getp edge ''predecessor''])"

definition edgeTo :: "jsval \<Rightarrow> jsval" where
  "edgeTo edge = (if isArray edge then getp edge ''1''
     else coalesceAll [getp edge ''to'', getp edge ''target'', getp edge ''successor''])"

text \<open>
  The \<open>Map\<close> from a template to the \<open>Set\<close> of its dependencies. An endpoint that is not a string
  names no template; as a source it would only be dropped again by the lookup in \<open>taskIds\<close>.
\<close>

definition addEdge :: "(string \<times> string list) list \<Rightarrow> jsval \<Rightarrow> (string \<times> string list) list" where
  "addEdge deps edge =
     (let source = stringOf (edgeFrom edge); target = stringOf (edgeTo edge) in
      if source \<noteq> [] \<and> target \<noteq> [] \<and> target \<in> set (map fst deps)
      then AList.update target (dedupe (lookupList deps target @ [source])) deps else deps)"

definition edgeDependencies :: "gvm_program \<Rightarrow> (string \<times> string list) list" where
  "edgeDependencies program =
     foldl addEdge
       (foldl (\<lambda>m t. AList.update (templateId t) (dedupe (templateDependsOn t)) m) [] (programTemplates program))
       (programEdges program)"

definition stableId :: "hash_function \<Rightarrow> string \<Rightarrow> jsval \<Rightarrow> string" where
  "stableId H tag value = tag @ ''-'' @ toUpperCase (take 24 (recordSha256 H value))"

definition templateRef :: "hash_function \<Rightarrow> jsval \<Rightarrow> string" where
  "templateRef H value =
     (if isString value then stringOf value
      else if isString (getp value ''ref'') then stringOf (getp value ''ref'')
      else sgosSha256 H value)"

definition templateRefs :: "hash_function \<Rightarrow> jsval \<Rightarrow> string list" where
  "templateRefs H values = sortPoints (dedupe (map (templateRef H) (elements values)))"

definition materializable :: "task_template \<Rightarrow> bool" where
  "materializable t \<longleftrightarrow> nullish (getp (templateMetadata t) ''dynamicFanoutBody'')"

definition taskInstanceIdFor :: "hash_function \<Rightarrow> string \<Rightarrow> string \<Rightarrow> string" where
  "taskInstanceIdFor H pid tid =
     stableId H ''TSK'' (JObj [(''processId'', JStr pid), (''taskTemplateId'', JStr tid)])"

text \<open>\<open>taskIds.get(id)\<close>: only the materializable templates have an instance.\<close>

definition taskIdOf :: "hash_function \<Rightarrow> gvm_program \<Rightarrow> string \<Rightarrow> string \<Rightarrow> string option" where
  "taskIdOf H program pid tid =
     (if tid \<in> templateId ` set (filter materializable (programTemplates program))
      then Some (taskInstanceIdFor H pid tid) else None)"

definition coordinatorOf :: "task_template \<Rightarrow> jsval" where
  "coordinatorOf t = getp (templateMetadata t) ''dynamicFanoutCoordinator''"

definition dependencyTemplates :: "gvm_program \<Rightarrow> task_template \<Rightarrow> string list" where
  "dependencyTemplates program template =
     (if nullish (coordinatorOf template)
      then lookupList (edgeDependencies program) (templateId template)
      else case getp (coordinatorOf template) ''bodyTaskTemplateId'' of
          JStr b \<Rightarrow> (case templateNamed program b of None \<Rightarrow> [] | Some t \<Rightarrow> templateDependsOn t)
        | _ \<Rightarrow> [])"

definition instantiateTask :: "hash_function \<Rightarrow> gvm_program \<Rightarrow> string \<Rightarrow> task_template \<Rightarrow> task_instance" where
  "instantiateTask H program pid template =
     (let preds = sortPoints (List.map_filter (taskIdOf H program pid) (dependencyTemplates program template)) in
      \<lparr>instanceId = taskInstanceIdFor H pid (templateId template), instanceTemplate = templateId template,
       taskState = (if preds = [] then Ready else Waiting), taskPredecessors = preds,
       taskInputRefs = templateRefs H (templateInputs template), taskOutputRefs = [], taskAttemptIds = [],
       taskReceipt = None, taskInvalidatedBy = None, taskRevision = 1, taskFanoutBinding = None\<rparr>)"

definition taskInstancesForSgosProgram ::
    "hash_function \<Rightarrow> gvm_program \<Rightarrow> string \<Rightarrow> (string \<times> task_instance) list" where
  "taskInstancesForSgosProgram H program pid =
     foldl (\<lambda>m t. AList.update (instanceId t) t m) []
       (map (instantiateTask H program pid)
         (sortBy (byKey templateId) (filter materializable (programTemplates program))))"

section \<open>The durable check\<close>

definition stringsJson :: "string list \<Rightarrow> string" where
  "stringsJson ss = canonicalJson (JArr (map JStr ss))"

abbreviation invalidMaterialization :: string where
  "invalidMaterialization \<equiv> ''SGOS_PROCESS_MATERIALIZATION_INVALID''"

definition coordinatorTemplate :: "gvm_program \<Rightarrow> string \<Rightarrow> jsval" where
  "coordinatorTemplate program tid =
     (case templateNamed program tid of None \<Rightarrow> JUndef | Some t \<Rightarrow> coordinatorOf t)"

definition checkCompiledTask :: "gvm_program \<Rightarrow> gvm_process \<Rightarrow> string \<times> task_instance \<Rightarrow> unit result" where
  "checkCompiledTask program process kb =
     (case taskNamed process (fst kb) of None \<Rightarrow> Inl NativeError
      | Some observed \<Rightarrow> let baseline = snd kb in checks
        [refuseIf (canonicalJson (JStr (instanceId observed)) \<noteq> canonicalJson (JStr (instanceId baseline)))
           invalidMaterialization,
         refuseIf (canonicalJson (JStr (instanceTemplate observed)) \<noteq> canonicalJson (JStr (instanceTemplate baseline)))
           invalidMaterialization,
         refuseIf (stringsJson (taskInputRefs observed) \<noteq> stringsJson (taskInputRefs baseline))
           invalidMaterialization,
         refuseIf (nullish (coordinatorTemplate program (instanceTemplate baseline)) \<and>
             stringsJson (taskPredecessors observed) \<noteq> stringsJson (taskPredecessors baseline))
           invalidMaterialization,
         refuseIf (taskState observed = Skipped) invalidMaterialization])"

definition checkDynamicTask ::
    "hash_function \<Rightarrow> gvm_program \<Rightarrow> gvm_process \<Rightarrow> (string \<times> task_instance) list \<Rightarrow> string \<Rightarrow> unit result" where
  "checkDynamicTask H program process static key =
     (case taskNamed process key of None \<Rightarrow> Inl NativeError
      | Some observed \<Rightarrow>
        (case (taskFanoutBinding observed, templateNamed program (instanceTemplate observed)) of
           (Some binding, Some body) \<Rightarrow>
             let descriptor = getp (templateMetadata body) ''dynamicFanoutBody'' in
             if \<not> truthy descriptor
                \<or> JStr (bindingParent binding) \<noteq> getp descriptor ''parentTaskId''
                \<or> JNum (bindingMaximumParallel binding) \<noteq> getp descriptor ''maximumParallel''
                \<or> sgosDynamicFanoutChildInstanceId H (processId process) (bindingParent binding)
                    (bindingItemKey binding) (bindingItemSha256 binding) \<noteq> key
             then fail invalidMaterialization
             else
               let expectedPredecessors = sortPoints (List.map_filter
                     (\<lambda>tid. map_option instanceId (find (\<lambda>t. instanceTemplate t = tid) (map snd static)))
                     (templateDependsOn body));
                   expectedInputs = sortPoints (dedupe (templateRefs H (templateInputs body)
                     @ [bindingCollectionRecordSha256 binding, bindingItemSha256 binding]))
               in refuseIf (stringsJson (taskPredecessors observed) \<noteq> stringsJson expectedPredecessors
                     \<or> stringsJson (taskInputRefs observed) \<noteq> stringsJson expectedInputs)
                    invalidMaterialization
         | _ \<Rightarrow> fail invalidMaterialization))"

text \<open>\<open>task.fanoutBinding?.parentTaskTemplateId\<close>.\<close>

definition bindingParentValue :: "task_instance \<Rightarrow> jsval" where
  "bindingParentValue t =
     (case taskFanoutBinding t of None \<Rightarrow> JUndef | Some b \<Rightarrow> JStr (bindingParent b))"

definition checkCoordinator :: "gvm_program \<Rightarrow> gvm_process \<Rightarrow> string \<times> task_instance \<Rightarrow> unit result" where
  "checkCoordinator program process kb =
     (let baseline = snd kb; descriptor = coordinatorTemplate program (instanceTemplate baseline) in
      if \<not> truthy descriptor then Inr ()
      else case taskNamed process (instanceId baseline) of None \<Rightarrow> Inl NativeError
      | Some coordinator \<Rightarrow>
        let children = sortPoints (map instanceId
              (filter (\<lambda>t. bindingParentValue t = getp descriptor ''parentTaskId'') (tasksOf process)));
            allowed = (if children \<noteq> [] then children else taskPredecessors baseline)
        in refuseIf (stringsJson (taskPredecessors coordinator) \<noteq> stringsJson allowed) invalidMaterialization)"

definition assertSgosProcessMaterialization ::
    "hash_function \<Rightarrow> gvm_program \<Rightarrow> gvm_process \<Rightarrow> unit result" where
  "assertSgosProcessMaterialization H program process =
     (let expected = taskInstancesForSgosProgram H program (processId process);
          expectedIds = sortPoints (map fst expected);
          observedIds = sortPoints (map fst (processTasks process))
      in checks
        [refuseIf (list_ex (\<lambda>k. k \<notin> set observedIds) expectedIds) invalidMaterialization,
         eachOf (checkCompiledTask program process) (sortBy (byKey fst) expected),
         eachOf (checkDynamicTask H program process expected)
           (filter (\<lambda>k. k \<notin> set expectedIds) observedIds),
         eachOf (checkCoordinator program process) expected])"

section \<open>Lemmas\<close>

lemma map_of_foldl_update:
  "map_of (foldl (\<lambda>m t. AList.update (key t) (f t) m) m0 ts) k =
     (case find (\<lambda>t. key t = k) (rev ts) of None \<Rightarrow> map_of m0 k | Some t \<Rightarrow> Some (f t))"
proof (induction ts arbitrary: m0)
  case (Cons t ts)
  then show ?case
    by (auto simp: update_conv' find_append split: option.splits)
qed simp

lemma distinct_foldl_update:
  "distinct (map fst m0) \<Longrightarrow> distinct (map fst (foldl (\<lambda>m t. AList.update (key t) (f t) m) m0 ts))"
  by (induction ts arbitrary: m0) (auto simp: distinct_update)

lemma keys_foldl_update:
  "fst ` set (foldl (\<lambda>m t. AList.update (key t) (f t) m) m0 ts) = fst ` set m0 \<union> key ` set ts"
  by (induction ts arbitrary: m0) (auto simp: dom_update)

lemma foldl_update_in:
  assumes "(k, v) \<in> set (foldl (\<lambda>m t. AList.update (key t) (f t) m) [] ts)"
  shows "\<exists>t \<in> set ts. k = key t \<and> v = f t"
proof -
  have "map_of (foldl (\<lambda>m t. AList.update (key t) (f t) m) [] ts) k = Some v"
    using assms by (intro map_of_is_SomeI distinct_foldl_update) simp_all
  then show ?thesis
    by (auto simp: map_of_foldl_update dest!: find_in split: option.splits)
qed

lemma instances_in:
  assumes "(k, t) \<in> set (taskInstancesForSgosProgram H program pid)"
  obtains tpl where "tpl \<in> set (programTemplates program)" "materializable tpl"
    "t = instantiateTask H program pid tpl" "k = instanceId t"
  using foldl_update_in [OF assms [unfolded taskInstancesForSgosProgram_def]] by auto

lemma instances_distinct: "distinct (map fst (taskInstancesForSgosProgram H program pid))"
  unfolding taskInstancesForSgosProgram_def
  by (rule distinct_foldl_update [where f = "\<lambda>t. t"]) simp

lemma instances_keys:
  "fst ` set (taskInstancesForSgosProgram H program pid) =
     (\<lambda>t. taskInstanceIdFor H pid (templateId t)) ` set (filter materializable (programTemplates program))"
  unfolding taskInstancesForSgosProgram_def keys_foldl_update [where f = "\<lambda>t. t"]
  by (simp add: image_image instantiateTask_def Let_def)

lemma taskIdOf_key:
  "taskIdOf H program pid tid = Some k \<Longrightarrow> k \<in> fst ` set (taskInstancesForSgosProgram H program pid)"
  by (auto simp: taskIdOf_def instances_keys split: if_splits)

lemma instance_predecessors:
  assumes "(k, t) \<in> set (taskInstancesForSgosProgram H program pid)"
  shows "set (taskPredecessors t) \<subseteq> fst ` set (taskInstancesForSgosProgram H program pid)"
proof -
  obtain tpl where "t = instantiateTask H program pid tpl" using assms by (rule instances_in)
  then show ?thesis
    by (auto simp: instantiateTask_def Let_def set_map_filter intro: taskIdOf_key)
qed

lemma instances_wellFormed: "list_all taskWellFormed (taskInstancesForSgosProgram H program pid)"
proof (clarsimp simp: list_all_iff)
  fix k t assume "(k, t) \<in> set (taskInstancesForSgosProgram H program pid)"
  then obtain tpl where "t = instantiateTask H program pid tpl" "k = instanceId t" by (rule instances_in)
  then show "taskWellFormed (k, t)"
    by (auto simp: taskWellFormed_def instantiateTask_def Let_def)
qed

lemma instance_state:
  assumes "(k, t) \<in> set (taskInstancesForSgosProgram H program pid)"
  shows "taskState t = (if taskPredecessors t = [] then Ready else Waiting)"
    and "sorted (taskPredecessors t)" and "taskFanoutBinding t = None" and "taskAttemptIds t = []"
proof -
  obtain tpl where t: "t = instantiateTask H program pid tpl" using assms by (rule instances_in)
  show "taskState t = (if taskPredecessors t = [] then Ready else Waiting)"
    and "sorted (taskPredecessors t)" and "taskFanoutBinding t = None" and "taskAttemptIds t = []"
    unfolding t by (simp_all add: instantiateTask_def Let_def sortPoints_sort del: sortBy_Nil_iff)
qed

definition freshProcess :: "hash_function \<Rightarrow> gvm_program \<Rightarrow> gvm_process \<Rightarrow> bool" where
  "freshProcess H program p \<longleftrightarrow> processTasks p = taskInstancesForSgosProgram H program (processId p)"

lemma fresh_wellFormed: "freshProcess H program p \<Longrightarrow> processWellFormed p"
  by (simp add: freshProcess_def processWellFormed_def instances_distinct instances_wellFormed)

lemma fresh_named:
  "freshProcess H program p \<Longrightarrow> (k, t) \<in> set (taskInstancesForSgosProgram H program (processId p)) \<Longrightarrow>
     taskNamed p k = Some t"
  by (simp add: freshProcess_def taskNamed_def instances_distinct)

lemma fresh_predecessors:
  assumes "freshProcess H program p" "t \<in> set (tasksOf p)"
  shows "length (predecessorTasks p t) = length (taskPredecessors t)"
    and "\<forall>u \<in> set (predecessorTasks p t). taskState u \<noteq> Succeeded"
proof -
  let ?ts = "taskInstancesForSgosProgram H program (processId p)"
  obtain k where k: "(k, t) \<in> set ?ts"
    using assms by (auto simp: freshProcess_def tasksOf_def)
  have "\<forall>q \<in> set (taskPredecessors t). \<exists>u. taskNamed p q = Some u"
    using instance_predecessors [OF k] fresh_named [OF assms(1)] by fastforce
  then show "length (predecessorTasks p t) = length (taskPredecessors t)"
    unfolding predecessorTasks_def by (rule length_map_filter)
  show "\<forall>u \<in> set (predecessorTasks p t). taskState u \<noteq> Succeeded"
  proof
    fix u assume "u \<in> set (predecessorTasks p t)"
    then obtain q where "taskNamed p q = Some u"
      by (auto simp: predecessorTasks_def set_map_filter)
    then have "(q, u) \<in> set ?ts"
      using assms(1) by (auto simp: taskNamed_def freshProcess_def dest: map_of_SomeD)
    from instance_state(1) [OF this] show "taskState u \<noteq> Succeeded" by auto
  qed
qed

lemma refuseIf_False [simp]: "refuseIf False code = Inr ()"
  by (simp add: refuseIf_def)

lemma fresh_compiledTask:
  assumes "freshProcess H program p" "kb \<in> set (taskInstancesForSgosProgram H program (processId p))"
  shows "checkCompiledTask program p kb = Inr ()"
proof -
  have "taskNamed p (fst kb) = Some (snd kb)" using fresh_named [OF assms(1)] assms(2) by simp
  moreover have "taskState (snd kb) \<noteq> Skipped"
    using instance_state(1) [of "fst kb" "snd kb"] assms(2) by (auto split: if_splits)
  ultimately show ?thesis by (simp add: checkCompiledTask_def)
qed

lemma fresh_coordinator:
  assumes "freshProcess H program p" "kb \<in> set (taskInstancesForSgosProgram H program (processId p))"
    and "\<forall>t \<in> set (programTemplates program). truthy (coordinatorOf t) \<longrightarrow> getp (coordinatorOf t) ''parentTaskId'' \<noteq> JUndef"
  shows "checkCoordinator program p kb = Inr ()"
proof (cases "truthy (coordinatorTemplate program (instanceTemplate (snd kb)))")
  case True
  then obtain tpl where tpl: "templateNamed program (instanceTemplate (snd kb)) = Some tpl" "truthy (coordinatorOf tpl)"
    by (auto simp: coordinatorTemplate_def split: option.splits)
  have "tpl \<in> set (programTemplates program)"
    using tpl(1) by (auto simp: templateNamed_def templateMap_def map_of_foldl_update dest: find_in split: option.splits)
  then have "getp (coordinatorOf tpl) ''parentTaskId'' \<noteq> JUndef" using assms(3) tpl(2) by blast
  then have none: "filter (\<lambda>t. bindingParentValue t =
      getp (coordinatorTemplate program (instanceTemplate (snd kb))) ''parentTaskId'') (tasksOf p) = []"
    using assms(1) instance_state(3) tpl(1)
    by (auto simp: filter_empty_conv tasksOf_def freshProcess_def bindingParentValue_def coordinatorTemplate_def)
  have k: "fst kb = instanceId (snd kb)"
    using assms(2) by (metis instances_in prod.collapse)
  then have "taskNamed p (instanceId (snd kb)) = Some (snd kb)"
    using fresh_named [OF assms(1), of "fst kb" "snd kb"] assms(2) by (metis prod.collapse)
  then show ?thesis by (simp add: checkCoordinator_def none Let_def)
qed (simp add: checkCoordinator_def Let_def)

section \<open>Properties\<close>

text \<open>
  C26: what a Program materializes to. For any hash function the instances are keyed by their own
  distinct identifiers, exactly one per identifier of a materializable template; each is well formed,
  unattempted, \<open>ready\<close> when it has no predecessor and \<open>waiting\<close> otherwise; and every predecessor it
  names, in sorted order, is an instance of the same Process.
\<close>

theorem materialization_shape:
  "distinct (map fst (taskInstancesForSgosProgram H program pid)) \<and>
   fst ` set (taskInstancesForSgosProgram H program pid) =
     (\<lambda>t. taskInstanceIdFor H pid (templateId t)) ` {t \<in> set (programTemplates program). materializable t} \<and>
   (\<forall>(k, t) \<in> set (taskInstancesForSgosProgram H program pid).
      taskWellFormed (k, t) \<and> taskAttemptIds t = [] \<and>
      taskState t = (if taskPredecessors t = [] then Ready else Waiting) \<and> sorted (taskPredecessors t) \<and>
      set (taskPredecessors t) \<subseteq> fst ` set (taskInstancesForSgosProgram H program pid))"
proof (intro conjI)
  show "\<forall>(k, t) \<in> set (taskInstancesForSgosProgram H program pid).
      taskWellFormed (k, t) \<and> taskAttemptIds t = [] \<and>
      taskState t = (if taskPredecessors t = [] then Ready else Waiting) \<and> sorted (taskPredecessors t) \<and>
      set (taskPredecessors t) \<subseteq> fst ` set (taskInstancesForSgosProgram H program pid)"
    using instances_wellFormed [of H program pid] instance_state instance_predecessors
    by (fastforce simp: list_all_iff)
qed (simp_all add: instances_distinct instances_keys)

definition twoTaskProgram :: gvm_program where
  "twoTaskProgram = \<lparr>programTemplates = [exampleTemplate ''b'' ''y'', (exampleTemplate ''a'' ''x'')
     \<lparr>templateInputs := JArr [JStr ''ref:1'', JStr ''ref:0'', JStr ''ref:1'']\<rparr>],
     programEdges = [JObj [(''from'', JStr ''a''), (''to'', JStr ''b'')]], programJoins = JArr []\<rparr>"

text \<open>A stand-in for SHA-256 that keeps the characters in which the records below differ.\<close>

definition exampleHash :: hash_function where
  "exampleHash s = drop 36 s"

theorem materialization_shape_witness:
  "map (taskState \<circ> snd) (taskInstancesForSgosProgram exampleHash twoTaskProgram ''P'') = [Ready, Waiting] \<and>
   list_all (\<lambda>kt. sorted (taskPredecessors (snd kt))) (taskInstancesForSgosProgram exampleHash twoTaskProgram ''P'')"
proof
  show "map (taskState \<circ> snd) (taskInstancesForSgosProgram exampleHash twoTaskProgram ''P'') = [Ready, Waiting]"
    by code_simp
  show "list_all (\<lambda>kt. sorted (taskPredecessors (snd kt))) (taskInstancesForSgosProgram exampleHash twoTaskProgram ''P'')"
    using conjunct2 [OF conjunct2 [OF materialization_shape [of exampleHash twoTaskProgram "''P''"]]]
    by (auto simp: list_all_iff split_beta)
qed


definition twoTaskProcess :: gvm_process where
  "twoTaskProcess = exampleProcess\<lparr>processId := ''P'', activeExecutions := [],
     processTasks := taskInstancesForSgosProgram exampleHash twoTaskProgram ''P''\<rparr>"

lemma twoTask_fresh: "freshProcess exampleHash twoTaskProgram twoTaskProcess"
  by (simp add: freshProcess_def twoTaskProcess_def)




end
