(* ===== verification/SgosGraph.thy ===== *)
theory SgosGraph
  imports SgosOrder
begin

text \<open>
  The graph algorithms shared by \<open>src/sgos/compiler.mjs\<close> (\<open>graphFacts\<close>, \<open>reachableFrom\<close>) and
  \<open>src/sgos/simulation.mjs\<close> (the wave loop of \<open>graphFor\<close>, \<open>descendants\<close>, the terminal queue).

  A \<open>Map\<close> from a task to its neighbours or its indegree is an association list over the sorted task
  IDs. The loops are recursive functions that terminate on every input: the topological queue by the
  number of positive indegrees plus the queue length, the worklist by the tasks not seen yet, the
  wave loop by the tasks that remain.
\<close>

type_synonym adjacency = "(string \<times> string list) list"
type_synonym edge_list = "(string \<times> string) list"
type_synonym indegrees = "(string \<times> int) list"

section \<open>Adjacency\<close>

definition forwardMap :: "string list \<Rightarrow> edge_list \<Rightarrow> adjacency" where
  "forwardMap ids edges = map (\<lambda>i. (i, sortPoints (map snd (filter (\<lambda>e. fst e = i) edges)))) ids"

definition reverseMap :: "string list \<Rightarrow> edge_list \<Rightarrow> adjacency" where
  "reverseMap ids edges = map (\<lambda>i. (i, sortPoints (map fst (filter (\<lambda>e. snd e = i) edges)))) ids"

definition indegreeMap :: "string list \<Rightarrow> edge_list \<Rightarrow> indegrees" where
  "indegreeMap ids edges = map (\<lambda>i. (i, int (length (filter (\<lambda>e. snd e = i) edges)))) ids"

text \<open>\<open>indegree.set(next, indegree.get(next) - 1)\<close>.\<close>

definition decrement :: "indegrees \<Rightarrow> string \<Rightarrow> indegrees" where
  "decrement ind n = (case map_of ind n of None \<Rightarrow> ind | Some d \<Rightarrow> AList.update n (d - 1) ind)"

section \<open>Topological order\<close>

fun relax :: "string list \<Rightarrow> indegrees \<Rightarrow> string list \<Rightarrow> indegrees \<times> string list" where
  "relax [] ind queue = (ind, queue)"
| "relax (n # ns) ind queue =
     (if map_of ind n = Some 1 then relax ns (decrement ind n) (sortPoints (queue @ [n]))
      else relax ns (decrement ind n) queue)"

definition positives :: "indegrees \<Rightarrow> nat" where
  "positives ind = length (filter (\<lambda>kd. 0 < snd kd) ind)"

lemma positives_update:
  "map_of ind n = Some d \<Longrightarrow> positives (AList.update n d' ind) + (if 0 < d then 1 else 0)
     = positives ind + (if 0 < d' then 1 else 0)"
  by (induction ind) (auto simp: positives_def)

lemma relax_measure:
  "positives (fst (relax ns ind q)) + length (snd (relax ns ind q)) \<le> positives ind + length q"
proof (induction ns arbitrary: ind q)
  case (Cons n ns)
  have le: "positives (decrement ind n) + (if map_of ind n = Some 1 then 1 else 0) \<le> positives ind"
  proof (cases "map_of ind n")
    case (Some d)
    with positives_update [OF Some, of "d - 1"] show ?thesis
      by (cases "d = 1") (auto simp: decrement_def split: if_splits)
  qed (simp add: decrement_def)
  show ?case
    using le Cons.IH [of "decrement ind n" "sortPoints (q @ [n])"] Cons.IH [of "decrement ind n" q]
    by (auto split: if_splits)
qed simp

function kahn :: "adjacency \<Rightarrow> indegrees \<Rightarrow> string list \<Rightarrow> string list \<Rightarrow> string list" where
  "kahn forward ind [] order = order"
| "kahn forward ind (i # queue) order =
     kahn forward (fst (relax (lookupList forward i) ind queue))
       (snd (relax (lookupList forward i) ind queue)) (order @ [i])"
  by pat_completeness auto
termination
proof (relation "measure (\<lambda>(forward, ind, queue, order). positives ind + length queue)")
  fix forward :: adjacency and ind i queue and order :: "string list"
  show "((forward, fst (relax (lookupList forward i) ind queue),
      snd (relax (lookupList forward i) ind queue), order @ [i]), forward, ind, i # queue, order)
      \<in> measure (\<lambda>(forward, ind, queue, order). positives ind + length queue)"
    using relax_measure [of "lookupList forward i" ind queue] by simp
qed simp

record task_graph =
  graphIds :: "string list"
  graphOrder :: "string list"
  graphRoots :: "string list"
  graphLeaves :: "string list"
  graphForward :: adjacency
  graphReverse :: adjacency

text \<open>
  An edge with an unknown endpoint raises a \<open>TypeError\<close> in \<open>graphFacts\<close>; its callers have refused
  such edges before.
\<close>

definition knownEdge :: "string list \<Rightarrow> string \<times> string \<Rightarrow> bool" where
  "knownEdge ids e \<longleftrightarrow> fst e \<in> set ids \<and> snd e \<in> set ids"

definition graphFacts :: "string list \<Rightarrow> edge_list \<Rightarrow> task_graph result" where
  "graphFacts taskIds edges =
     (let ids = sortPoints taskIds; forward = forwardMap ids edges; reverse = reverseMap ids edges;
          indegree = indegreeMap ids edges;
          order = kahn forward indegree
            (sortPoints (filter (\<lambda>i. map_of indegree i = Some 0) ids)) []
      in if \<not> list_all (knownEdge ids) edges then Inl NativeError
         else if length order \<noteq> length ids then fail ''SGOS_GRAPH_CYCLE''
         else Inr \<lparr>graphIds = ids, graphOrder = order,
           graphRoots = filter (\<lambda>i. lookupList reverse i = []) ids,
           graphLeaves = filter (\<lambda>i. lookupList forward i = []) ids,
           graphForward = forward, graphReverse = reverse\<rparr>)"

section \<open>Reachability\<close>

lemma unseen_measure:
  assumes "i \<notin> set seen"
  shows "card (fst ` set adj - set (seen @ [i])) < card (fst ` set adj - set seen) \<or>
         (lookupList adj i = [] \<and> fst ` set adj - set (seen @ [i]) = fst ` set adj - set seen)"
proof (cases "i \<in> fst ` set adj")
  case True
  then have "fst ` set adj - set (seen @ [i]) \<subset> fst ` set adj - set seen" using assms by auto
  then show ?thesis by (intro disjI1 psubset_card_mono) auto
next
  case False
  then have "map_of adj i = None" by (simp add: map_of_eq_None_iff)
  then have "lookupList adj i = []" by (simp add: lookupList_def)
  moreover have "fst ` set adj - set (seen @ [i]) = fst ` set adj - set seen" using False by auto
  ultimately show ?thesis by simp
qed

function worklist :: "adjacency \<Rightarrow> string list \<Rightarrow> string list \<Rightarrow> string list" where
  "worklist adj seen [] = seen"
| "worklist adj seen (i # queue) =
     (if i \<in> set seen then worklist adj seen queue
      else worklist adj (seen @ [i])
        (sortPoints (queue @ filter (\<lambda>n. n \<notin> set (seen @ [i])) (lookupList adj i))))"
  by pat_completeness auto
termination
proof (relation "measures [\<lambda>(adj, seen, queue). card (fst ` set adj - set seen), \<lambda>(adj, seen, queue). length queue]")
  fix adj :: adjacency and seen i and queue :: "string list"
  let ?q = "sortPoints (queue @ filter (\<lambda>n. n \<notin> set (seen @ [i])) (lookupList adj i))"
  assume new: "i \<notin> set seen"
  show "((adj, seen @ [i], ?q), adj, seen, i # queue) \<in>
      measures [\<lambda>(adj, seen, queue). card (fst ` set adj - set seen), \<lambda>(adj, seen, queue). length queue]"
    using new unseen_measure [of i seen adj] by auto
qed simp_all

definition reachableFrom :: "string list \<Rightarrow> adjacency \<Rightarrow> string list" where
  "reachableFrom start adj = worklist adj [] (sortPoints start)"

text \<open>\<open>pathExists\<close> of the compiler: the same search, which stops at the target.\<close>

function pathSearch :: "adjacency \<Rightarrow> string \<Rightarrow> string list \<Rightarrow> string list \<Rightarrow> bool" where
  "pathSearch adj target seen [] = False"
| "pathSearch adj target seen (i # queue) =
     (if i = target then True
      else if i \<in> set seen then pathSearch adj target seen queue
      else pathSearch adj target (seen @ [i]) (queue @ lookupList adj i))"
  by pat_completeness auto
termination
proof (relation "measures [\<lambda>(adj, target, seen, queue). card (fst ` set adj - set seen),
    \<lambda>(adj, target, seen, queue). length queue]")
  fix adj :: adjacency and target i :: string and seen and queue :: "string list"
  assume new: "i \<notin> set seen"
  show "((adj, target, seen @ [i], queue @ lookupList adj i), adj, target, seen, i # queue) \<in>
      measures [\<lambda>(adj, target, seen, queue). card (fst ` set adj - set seen),
        \<lambda>(adj, target, seen, queue). length queue]"
    using new unseen_measure [of i seen adj] by auto
qed simp_all

definition pathExists :: "string \<Rightarrow> string \<Rightarrow> adjacency \<Rightarrow> bool" where
  "pathExists source target forward =
     (if source = target then True else pathSearch forward target [] (lookupList forward source))"

section \<open>Waves\<close>

definition readyWave :: "indegrees \<Rightarrow> string list \<Rightarrow> string list" where
  "readyWave ind remaining = sortPoints (filter (\<lambda>i. map_of ind i = Some 0) remaining)"

function peelWaves :: "adjacency \<Rightarrow> indegrees \<Rightarrow> string list \<Rightarrow> string list list result" where
  "peelWaves forward ind remaining =
     (if remaining = [] then Inr []
      else if readyWave ind remaining = [] then fail ''SGOS_SIMULATION_GRAPH_CYCLE''
      else andThen
        (peelWaves forward
          (foldl decrement ind (concat (map (lookupList forward) (readyWave ind remaining))))
          (filter (\<lambda>i. i \<notin> set (readyWave ind remaining)) remaining))
        (\<lambda>waves. Inr (readyWave ind remaining # waves)))"
  by pat_completeness auto
termination
proof (relation "measure (\<lambda>(forward, ind, remaining). length remaining)")
  fix forward :: adjacency and ind remaining
  assume "readyWave ind remaining \<noteq> []"
  then obtain i where "i \<in> set (readyWave ind remaining)" by (cases "readyWave ind remaining") auto
  then have "i \<in> set remaining" "\<not> i \<notin> set (readyWave ind remaining)" by (auto simp: readyWave_def)
  then have "length (filter (\<lambda>i. i \<notin> set (readyWave ind remaining)) remaining) < length remaining"
    by (rule length_filter_less)
  then show "((forward, foldl decrement ind (concat (map (lookupList forward) (readyWave ind remaining))),
      filter (\<lambda>i. i \<notin> set (readyWave ind remaining)) remaining), forward, ind, remaining)
      \<in> measure (\<lambda>(forward, ind, remaining). length remaining)" by simp
qed simp

declare peelWaves.simps [simp del]

section \<open>Adjacency lemmas\<close>

lemma lookup_forward:
  "lookupList (forwardMap ids edges) i =
     (if i \<in> set ids then sortPoints (map snd (filter (\<lambda>e. fst e = i) edges)) else [])"
  by (simp add: forwardMap_def lookupList_map)

lemma lookup_reverse:
  "lookupList (reverseMap ids edges) i =
     (if i \<in> set ids then sortPoints (map fst (filter (\<lambda>e. snd e = i) edges)) else [])"
  by (simp add: reverseMap_def lookupList_map)

lemma set_lookup_forward: "set (lookupList (forwardMap ids edges) i) = {b. i \<in> set ids \<and> (i, b) \<in> set edges}"
  by (auto simp: lookup_forward image_iff)

lemma set_lookup_reverse: "set (lookupList (reverseMap ids edges) i) = {a. i \<in> set ids \<and> (a, i) \<in> set edges}"
  by (auto simp: lookup_reverse image_iff)

lemma count_list_mset: "count_list xs x = count (mset xs) x"
  by (induction xs) auto

lemma count_forward:
  "i \<in> set ids \<Longrightarrow> count_list (lookupList (forwardMap ids edges) i) k =
     length (filter (\<lambda>e. e = (i, k)) edges)"
proof -
  assume "i \<in> set ids"
  then have "count_list (lookupList (forwardMap ids edges) i) k
      = count_list (map snd (filter (\<lambda>e. fst e = i) edges)) k"
    by (simp add: lookup_forward count_list_mset)
  also have "\<dots> = length (filter (\<lambda>e. e = (i, k)) edges)"
    by (induction edges) auto
  finally show ?thesis .
qed

lemma map_of_decrement:
  "map_of (decrement ind n) k = (if k = n then map_option (\<lambda>d. d - 1) (map_of ind k) else map_of ind k)"
  by (auto simp: decrement_def update_conv' split: option.splits)

lemma map_of_decrements:
  "map_of (foldl decrement ind ns) k = map_option (\<lambda>d. d - int (count_list ns k)) (map_of ind k)"
  by (induction ns arbitrary: ind)
    (auto simp: map_of_decrement option.map_comp comp_def option.map_ident algebra_simps)

section \<open>Pending predecessors\<close>

text \<open>The edges into \<open>k\<close> whose source has not been processed.\<close>

definition pending :: "edge_list \<Rightarrow> string set \<Rightarrow> string \<Rightarrow> nat" where
  "pending edges finished k = length (filter (\<lambda>e. snd e = k \<and> fst e \<notin> finished) edges)"

lemma pending_zero: "pending edges finished k = 0 \<longleftrightarrow> (\<forall>a. (a, k) \<in> set edges \<longrightarrow> a \<in> finished)"
  by (auto simp: pending_def filter_empty_conv)

lemma pending_insert:
  "i \<notin> finished \<Longrightarrow> pending edges (insert i finished) k + length (filter (\<lambda>e. e = (i, k)) edges) = pending edges finished k"
  unfolding pending_def by (induction edges) auto

lemma pending_union:
  assumes "distinct xs" "set xs \<inter> finished = {}" "set xs \<subseteq> set ids"
  shows "pending edges (finished \<union> set xs) k
     + count_list (concat (map (lookupList (forwardMap ids edges)) xs)) k = pending edges finished k"
  using assms
proof (induction xs arbitrary: finished)
  case (Cons x xs)
  have "pending edges (insert x finished \<union> set xs) k
     + count_list (concat (map (lookupList (forwardMap ids edges)) xs)) k = pending edges (insert x finished) k"
    by (rule Cons.IH) (use Cons.prems in auto)
  moreover have "count_list (lookupList (forwardMap ids edges) x) k = length (filter (\<lambda>e. e = (x, k)) edges)"
    using Cons.prems by (intro count_forward) simp
  ultimately show ?case
    using pending_insert [of x finished edges k] Cons.prems by simp
qed simp

text \<open>The indegree table of every loop is the table of pending predecessors.\<close>

definition tracks :: "indegrees \<Rightarrow> string list \<Rightarrow> edge_list \<Rightarrow> string set \<Rightarrow> bool" where
  "tracks ind ids edges finished \<longleftrightarrow>
     (\<forall>k. map_of ind k = (if k \<in> set ids then Some (int (pending edges finished k)) else None))"

lemma tracks_initial: "tracks (indegreeMap ids edges) ids edges {}"
  by (auto simp: tracks_def indegreeMap_def map_of_map_restrict pending_def restrict_map_def)

lemma tracks_decrements:
  assumes "tracks ind ids edges finished" "distinct xs" "set xs \<inter> finished = {}" "set xs \<subseteq> set ids"
  shows "tracks (foldl decrement ind (concat (map (lookupList (forwardMap ids edges)) xs))) ids edges (finished \<union> set xs)"
  unfolding tracks_def map_of_decrements
proof
  fix k
  show "map_option (\<lambda>d. d - int (count_list (concat (map (lookupList (forwardMap ids edges)) xs)) k)) (map_of ind k)
      = (if k \<in> set ids then Some (int (pending edges (finished \<union> set xs) k)) else None)"
    using assms(1) pending_union [OF assms(2-4), of edges k] by (auto simp: tracks_def)
qed

lemma relax_fst: "fst (relax ns ind q) = foldl decrement ind ns"
  by (induction ns arbitrary: ind q) auto

lemma relax_snd:
  assumes "\<forall>k d. map_of ind k = Some d \<longrightarrow> int (count_list ns k) \<le> d" "distinct q" "set q \<inter> set ns = {}"
  shows "distinct (snd (relax ns ind q)) \<and>
    set (snd (relax ns ind q)) = set q \<union> {k \<in> set ns. map_of ind k = Some (int (count_list ns k))}"
  using assms
proof (induction ns arbitrary: ind q)
  case (Cons n ns)
  let ?c = "\<lambda>k. int (count_list ns k)"
  have le: "int (count_list (n # ns) k) \<le> d" if "map_of ind k = Some d" for k d
    using Cons.prems(1) that by blast
  have bound: "\<forall>k d. map_of (decrement ind n) k = Some d \<longrightarrow> ?c k \<le> d"
  proof (intro allI impI)
    fix k d assume "map_of (decrement ind n) k = Some d"
    then show "?c k \<le> d" using le [of k] by (cases "k = n") (auto simp: map_of_decrement)
  qed
  have eq: "map_of (decrement ind n) k = Some (?c k) \<longleftrightarrow> map_of ind k = Some (int (count_list (n # ns) k))" for k
    by (cases "map_of ind k") (auto simp: map_of_decrement)
  show ?case
  proof (cases "map_of ind n = Some 1")
    case True
    then have new: "n \<notin> set ns" using le [OF True] by (auto simp: count_list_0_iff [symmetric])
    have "distinct (snd (relax ns (decrement ind n) (sortPoints (q @ [n])))) \<and>
        set (snd (relax ns (decrement ind n) (sortPoints (q @ [n])))) =
          set (sortPoints (q @ [n])) \<union> {k \<in> set ns. map_of (decrement ind n) k = Some (?c k)}"
      by (rule Cons.IH [OF bound]) (use Cons.prems new in auto)
    then show ?thesis
      using True new unfolding eq by (auto simp: count_notin)
  next
    case False
    have "distinct (snd (relax ns (decrement ind n) q)) \<and>
        set (snd (relax ns (decrement ind n) q)) =
          set q \<union> {k \<in> set ns. map_of (decrement ind n) k = Some (?c k)}"
      by (rule Cons.IH [OF bound]) (use Cons.prems in auto)
    moreover have "map_of ind n = Some (int (count_list (n # ns) n)) \<Longrightarrow> n \<in> set ns"
      using False by (rule_tac ccontr) (simp add: count_notin)
    ultimately show ?thesis
      using False unfolding eq by auto
  qed
qed simp

section \<open>Correctness of the topological order\<close>

text \<open>Every edge into a position of the order comes from an earlier position.\<close>

definition topological :: "edge_list \<Rightarrow> string list \<Rightarrow> bool" where
  "topological edges order \<longleftrightarrow>
     (\<forall>i < length order. \<forall>a. (a, order ! i) \<in> set edges \<longrightarrow> a \<in> set (take i order))"

lemma topological_snoc:
  "topological edges order \<Longrightarrow> pending edges (set order) k = 0 \<Longrightarrow> topological edges (order @ [k])"
  by (auto simp: topological_def pending_zero nth_append less_Suc_eq)

lemma topological_append:
  "topological edges order \<Longrightarrow> \<forall>k \<in> set ks. pending edges (set order) k = 0 \<Longrightarrow> topological edges (order @ ks)"
  by (auto simp: topological_def pending_zero nth_append)

definition kahnInv :: "string list \<Rightarrow> edge_list \<Rightarrow> indegrees \<Rightarrow> string list \<Rightarrow> string list \<Rightarrow> bool" where
  "kahnInv ids edges ind queue order \<longleftrightarrow>
     tracks ind ids edges (set order) \<and> distinct (order @ queue) \<and> set (order @ queue) \<subseteq> set ids \<and>
     (\<forall>k \<in> set ids. pending edges (set order) k = 0 \<longleftrightarrow> k \<in> set (order @ queue)) \<and>
     topological edges order"

lemma kahnInv_step:
  assumes inv: "kahnInv ids edges ind (i # queue) order"
  defines "ns \<equiv> lookupList (forwardMap ids edges) i"
  shows "kahnInv ids edges (fst (relax ns ind queue)) (snd (relax ns ind queue)) (order @ [i])"
proof -
  have tr: "tracks ind ids edges (set order)" and i: "i \<in> set ids" "i \<notin> set order"
    and zero: "\<And>k. k \<in> set ids \<Longrightarrow> pending edges (set order) k = 0 \<longleftrightarrow> k \<in> set (order @ i # queue)"
    using inv by (auto simp: kahnInv_def)
  have cnt: "count_list ns k = length (filter (\<lambda>e. e = (i, k)) edges)" for k
    unfolding ns_def by (rule count_forward [OF i(1)])
  have pend: "pending edges (insert i (set order)) k + count_list ns k = pending edges (set order) k" for k
    using pending_insert [OF i(2), of edges k] by (simp add: cnt)
  have notin: "k \<notin> set ns" if "k \<in> set ids" "pending edges (set order) k = 0" for k
    using pend [of k] that by (metis add_is_0 count_list_0_iff)
  have q: "distinct (snd (relax ns ind queue)) \<and> set (snd (relax ns ind queue)) =
      set queue \<union> {k \<in> set ns. map_of ind k = Some (int (count_list ns k))}"
  proof (rule relax_snd)
    show "\<forall>k d. map_of ind k = Some d \<longrightarrow> int (count_list ns k) \<le> d"
    proof (intro allI impI)
      fix k d assume "map_of ind k = Some d"
      then show "int (count_list ns k) \<le> d"
        using tr pend [of k] by (auto simp: tracks_def split: if_splits)
    qed
    show "distinct queue" using inv by (simp add: kahnInv_def)
    show "set queue \<inter> set ns = {}" using notin zero inv by (auto simp: kahnInv_def)
  qed
  have new: "{k \<in> set ns. map_of ind k = Some (int (count_list ns k))}
      = {k \<in> set ids. k \<in> set ns \<and> pending edges (insert i (set order)) k = 0}" (is "?L = ?R")
  proof (intro set_eqI)
    fix k show "k \<in> ?L \<longleftrightarrow> k \<in> ?R"
      using tr pend [of k] by (auto simp: tracks_def split: if_splits)
  qed
  have "k \<notin> set (order @ [i]) \<and> k \<notin> set queue" if "k \<in> set ids" "k \<in> set ns" for k
    using zero [OF that(1)] notin that by auto
  moreover have "pending edges (insert i (set order)) k = 0 \<longleftrightarrow>
      k \<in> set (order @ i # queue) \<or> (k \<in> set ns \<and> pending edges (insert i (set order)) k = 0)"
    if "k \<in> set ids" for k
    using zero [OF that] pend [of k] count_list_0_iff [of ns k] by auto
  moreover have "tracks (fst (relax ns ind queue)) ids edges (set (order @ [i]))"
    using tracks_decrements [OF tr, of "[i]"] i by (simp add: relax_fst ns_def)
  ultimately show ?thesis
    using inv q i unfolding kahnInv_def new by (auto simp: topological_snoc)
qed

lemma kahn_invariant:
  assumes "kahnInv ids edges ind queue order"
  shows "\<exists>ind'. kahnInv ids edges ind' [] (kahn (forwardMap ids edges) ind queue order)"
  using assms
proof (induction "forwardMap ids edges" ind queue order rule: kahn.induct)
  case (2 ind i queue order)
  from 2(1) [OF kahnInv_step [OF 2(2)]] show ?case by simp
qed auto

lemma kahnInv_initial:
  assumes "distinct ids"
  shows "kahnInv ids edges (indegreeMap ids edges)
    (sortPoints (filter (\<lambda>i. map_of (indegreeMap ids edges) i = Some 0) ids)) []"
proof -
  have z: "map_of (indegreeMap ids edges) k = Some 0 \<longleftrightarrow> pending edges {} k = 0" if "k \<in> set ids" for k
    using tracks_initial [of ids edges] that by (simp add: tracks_def)
  show ?thesis
    using assms tracks_initial [of ids edges] z by (auto simp: kahnInv_def topological_def)
qed

lemma topological_acyclic:
  assumes "topological edges order" "set (map snd edges) \<subseteq> set order" "distinct order"
  shows "acyclic (set edges)"
proof -
  define pos where "pos k = (LEAST i. i < length order \<and> order ! i = k)" for k
  have at: "pos (order ! i) = i" if "i < length order" for i
    unfolding pos_def using that assms(3) by (intro Least_equality) (auto simp: nth_eq_iff_index_eq)
  have "pos a < pos b" if "(a, b) \<in> set edges" for a b
  proof -
    have "b \<in> set order" using assms(2) that by force
    then obtain i where i: "i < length order" "order ! i = b" by (auto simp: in_set_conv_nth)
    then have "a \<in> set (take i order)" using assms(1) that by (auto simp: topological_def)
    then obtain j where "j < i" "order ! j = a" using i by (auto simp: in_set_conv_nth)
    with i at [of i] at [of j] show ?thesis by simp
  qed
  then have "set edges \<subseteq> measure pos" by auto
  then show ?thesis by (meson acyclic_subset wf_acyclic wf_measure)
qed

lemma all_processed:
  assumes acyc: "acyclic (set edges)" and known: "list_all (knownEdge ids) edges"
    and closed: "\<forall>k \<in> set ids. pending edges (set order) k = 0 \<longrightarrow> k \<in> set order"
  shows "set ids \<subseteq> set order"
proof (rule ccontr)
  assume "\<not> set ids \<subseteq> set order"
  then obtain x where x: "x \<in> set ids - set order" by blast
  have "wf (set edges)" using acyc by (simp add: finite_acyclic_wf)
  then obtain z where z: "z \<in> set ids - set order" "\<And>y. (y, z) \<in> set edges \<Longrightarrow> y \<notin> set ids - set order"
    using x by (rule wfE_min) blast
  then have "\<forall>a. (a, z) \<in> set edges \<longrightarrow> a \<in> set order"
    using known by (auto simp: list_all_iff knownEdge_def)
  then have "z \<in> set order" using closed z(1) by (auto simp: pending_zero)
  with z(1) show False by simp
qed

lemma graphFacts_order:
  fixes edges :: edge_list
  assumes "distinct taskIds"
  defines "ids \<equiv> sortPoints taskIds"
  defines "order \<equiv> kahn (forwardMap ids edges) (indegreeMap ids edges)
      (sortPoints (filter (\<lambda>i. map_of (indegreeMap ids edges) i = Some 0) ids)) []"
  shows "distinct order" "set order \<subseteq> set ids" "topological edges order"
    "\<forall>k \<in> set ids. pending edges (set order) k = 0 \<longrightarrow> k \<in> set order"
proof -
  have "distinct ids" using assms(1) by (simp add: ids_def)
  from kahn_invariant [OF kahnInv_initial [OF this, of edges]]
  show "distinct order" "set order \<subseteq> set ids" "topological edges order"
    "\<forall>k \<in> set ids. pending edges (set order) k = 0 \<longrightarrow> k \<in> set order"
    by (auto simp: order_def kahnInv_def)
qed

lemma graphFacts_Inr:
  "graphFacts taskIds edges = Inr g \<longleftrightarrow>
     (let ids = sortPoints taskIds; forward = forwardMap ids edges; reverse = reverseMap ids edges;
          order = kahn forward (indegreeMap ids edges)
            (sortPoints (filter (\<lambda>i. map_of (indegreeMap ids edges) i = Some 0) ids)) []
      in list_all (knownEdge ids) edges \<and> length order = length ids \<and>
         g = \<lparr>graphIds = ids, graphOrder = order,
           graphRoots = filter (\<lambda>i. lookupList reverse i = []) ids,
           graphLeaves = filter (\<lambda>i. lookupList forward i = []) ids,
           graphForward = forward, graphReverse = reverse\<rparr>)"
  by (auto simp: graphFacts_def Let_def)

section \<open>Correctness of the searches\<close>

definition adjacencyRel :: "adjacency \<Rightarrow> (string \<times> string) set" where
  "adjacencyRel adj = {(a, b). b \<in> set (lookupList adj a)}"

lemma worklist_sound:
  assumes "\<forall>x \<in> set (seen @ queue). \<exists>s \<in> S. (s, x) \<in> (adjacencyRel adj)\<^sup>*"
  shows "\<forall>x \<in> set (worklist adj seen queue). \<exists>s \<in> S. (s, x) \<in> (adjacencyRel adj)\<^sup>*"
  using assms
proof (induction adj seen queue rule: worklist.induct)
  case (2 adj seen i queue)
  obtain s where s: "s \<in> S" "(s, i) \<in> (adjacencyRel adj)\<^sup>*" using 2(3) by auto
  have step: "\<exists>s \<in> S. (s, x) \<in> (adjacencyRel adj)\<^sup>*" if "x \<in> set (lookupList adj i)" for x
  proof (rule bexI [OF _ s(1)])
    have "(i, x) \<in> adjacencyRel adj" using that by (simp add: adjacencyRel_def)
    with s(2) show "(s, x) \<in> (adjacencyRel adj)\<^sup>*" by (rule rtrancl_into_rtrancl)
  qed
  show ?case
  proof (cases "i \<in> set seen")
    case True
    with 2(1) [OF True] 2(3) show ?thesis by simp
  next
    case False
    have "\<forall>x \<in> set ((seen @ [i]) @ sortPoints (queue @ filter (\<lambda>n. n \<notin> set (seen @ [i])) (lookupList adj i))).
        \<exists>s \<in> S. (s, x) \<in> (adjacencyRel adj)\<^sup>*"
      using 2(3) step by auto
    from 2(2) [OF False this] False show ?thesis by simp
  qed
qed simp

lemma worklist_closed:
  assumes "\<forall>x \<in> set seen. adjacencyRel adj `` {x} \<subseteq> set seen \<union> set queue"
  shows "set seen \<union> set queue \<subseteq> set (worklist adj seen queue) \<and>
    (\<forall>x \<in> set (worklist adj seen queue). adjacencyRel adj `` {x} \<subseteq> set (worklist adj seen queue))"
  using assms
proof (induction adj seen queue rule: worklist.induct)
  case (2 adj seen i queue)
  show ?case
  proof (cases "i \<in> set seen")
    case True
    then have "\<forall>x \<in> set seen. adjacencyRel adj `` {x} \<subseteq> set seen \<union> set queue"
      using 2(3) by auto
    from 2(1) [OF True this] True show ?thesis by auto
  next
    case False
    let ?q = "sortPoints (queue @ filter (\<lambda>n. n \<notin> set (seen @ [i])) (lookupList adj i))"
    have "\<forall>x \<in> set (seen @ [i]). adjacencyRel adj `` {x} \<subseteq> set (seen @ [i]) \<union> set ?q"
      using 2(3) by (auto simp: adjacencyRel_def)
    from 2(2) [OF False this] False show ?thesis by auto
  qed
qed auto

lemma worklist_distinct: "distinct seen \<Longrightarrow> distinct (worklist adj seen queue)"
  by (induction adj seen queue rule: worklist.induct) auto

lemma reachableFrom_set:
  "set (reachableFrom start adj) = {y. \<exists>x \<in> set start. (x, y) \<in> (adjacencyRel adj)\<^sup>*}"
proof (intro set_eqI iffI CollectI)
  fix y assume "y \<in> set (reachableFrom start adj)"
  then show "\<exists>x \<in> set start. (x, y) \<in> (adjacencyRel adj)\<^sup>*"
    using worklist_sound [of "[]" "sortPoints start" "set start" adj] by (auto simp: reachableFrom_def)
next
  fix y assume "y \<in> {y. \<exists>x \<in> set start. (x, y) \<in> (adjacencyRel adj)\<^sup>*}"
  then obtain x where x: "x \<in> set start" "(x, y) \<in> (adjacencyRel adj)\<^sup>*" by blast
  have c: "set start \<subseteq> set (reachableFrom start adj)"
    "\<forall>x \<in> set (reachableFrom start adj). adjacencyRel adj `` {x} \<subseteq> set (reachableFrom start adj)"
    using worklist_closed [of "[]" adj "sortPoints start"] by (auto simp: reachableFrom_def)
  from x(2) show "y \<in> set (reachableFrom start adj)"
    by (induction rule: rtrancl_induct) (use x(1) c in auto)
qed

lemma pathSearch_sound:
  "pathSearch adj target seen queue \<Longrightarrow> \<exists>x \<in> set queue. (x, target) \<in> (adjacencyRel adj)\<^sup>*"
proof (induction adj target seen queue rule: pathSearch.induct)
  case (2 adj target seen i queue)
  show ?case
  proof (cases "i = target \<or> i \<in> set seen")
    case True
    with 2 show ?thesis by (auto split: if_splits)
  next
    case False
    with 2 obtain x where "x \<in> set (queue @ lookupList adj i)" "(x, target) \<in> (adjacencyRel adj)\<^sup>*"
      by auto
    then show ?thesis
      by (auto simp: adjacencyRel_def intro: converse_rtrancl_into_rtrancl)
  qed
qed simp

text \<open>While the search has not found the target, what it has seen is closed up to its queue.\<close>

lemma pathSearch_complete:
  assumes "\<not> pathSearch adj target seen queue" "target \<notin> set seen"
    and "\<forall>x \<in> set seen. adjacencyRel adj `` {x} \<subseteq> set seen \<union> set queue"
  shows "\<exists>C. set seen \<union> set queue \<subseteq> C \<and> target \<notin> C \<and> (\<forall>x \<in> C. adjacencyRel adj `` {x} \<subseteq> C)"
  using assms
proof (induction adj target seen queue rule: pathSearch.induct)
  case (1 adj target seen)
  then show ?case by (intro exI [of _ "set seen"]) auto
next
  case (2 adj target seen i queue)
  have ne: "i \<noteq> target" using 2(3) by auto
  show ?case
  proof (cases "i \<in> set seen")
    case True
    have "\<forall>x \<in> set seen. adjacencyRel adj `` {x} \<subseteq> set seen \<union> set queue"
      using 2(5) True by auto
    moreover have "\<not> pathSearch adj target seen queue" using 2(3) ne True by simp
    ultimately obtain C where "set seen \<union> set queue \<subseteq> C" "target \<notin> C" "\<forall>x \<in> C. adjacencyRel adj `` {x} \<subseteq> C"
      using 2(1) [OF ne True _ 2(4)] by blast
    then show ?thesis using True by (intro exI [of _ C]) auto
  next
    case False
    have "\<forall>x \<in> set (seen @ [i]). adjacencyRel adj `` {x} \<subseteq> set (seen @ [i]) \<union> set (queue @ lookupList adj i)"
      using 2(5) by (auto simp: adjacencyRel_def)
    moreover have "\<not> pathSearch adj target (seen @ [i]) (queue @ lookupList adj i)" using 2(3) ne False by simp
    moreover have "target \<notin> set (seen @ [i])" using 2(4) ne by auto
    ultimately obtain C where "set (seen @ [i]) \<union> set (queue @ lookupList adj i) \<subseteq> C" "target \<notin> C"
        "\<forall>x \<in> C. adjacencyRel adj `` {x} \<subseteq> C"
      using 2(2) [OF ne False] by blast
    then show ?thesis by (intro exI [of _ C]) auto
  qed
qed

lemma pathExists_iff: "pathExists a b adj \<longleftrightarrow> (a, b) \<in> (adjacencyRel adj)\<^sup>*"
proof (cases "a = b")
  case False
  have "pathSearch adj b [] (lookupList adj a) \<longleftrightarrow> (\<exists>x \<in> set (lookupList adj a). (x, b) \<in> (adjacencyRel adj)\<^sup>*)"
  proof
    assume "\<exists>x \<in> set (lookupList adj a). (x, b) \<in> (adjacencyRel adj)\<^sup>*"
    then obtain x where x: "x \<in> set (lookupList adj a)" "(x, b) \<in> (adjacencyRel adj)\<^sup>*" by blast
    show "pathSearch adj b [] (lookupList adj a)"
    proof (rule ccontr)
      assume "\<not> pathSearch adj b [] (lookupList adj a)"
      from pathSearch_complete [OF this] obtain C where C: "set (lookupList adj a) \<subseteq> C" "b \<notin> C"
        "\<forall>x \<in> C. adjacencyRel adj `` {x} \<subseteq> C" by auto
      from x(2) have "b \<in> C" by (induction rule: rtrancl_induct) (use x(1) C in auto)
      with C(2) show False by simp
    qed
  qed (rule pathSearch_sound)
  moreover have "(a, b) \<in> (adjacencyRel adj)\<^sup>* \<longleftrightarrow>
      (\<exists>x \<in> set (lookupList adj a). (x, b) \<in> (adjacencyRel adj)\<^sup>*)"
  proof
    assume "(a, b) \<in> (adjacencyRel adj)\<^sup>*"
    then show "\<exists>x \<in> set (lookupList adj a). (x, b) \<in> (adjacencyRel adj)\<^sup>*"
      by (cases rule: converse_rtranclE) (use False in \<open>auto simp: adjacencyRel_def\<close>)
  next
    assume "\<exists>x \<in> set (lookupList adj a). (x, b) \<in> (adjacencyRel adj)\<^sup>*"
    then obtain x where "(a, x) \<in> adjacencyRel adj" "(x, b) \<in> (adjacencyRel adj)\<^sup>*"
      by (auto simp: adjacencyRel_def)
    then show "(a, b) \<in> (adjacencyRel adj)\<^sup>*" by (rule converse_rtrancl_into_rtrancl)
  qed
  ultimately show ?thesis using False by (simp add: pathExists_def)
qed (simp add: pathExists_def)

lemma adjacencyRel_forward:
  "list_all (knownEdge ids) edges \<Longrightarrow> adjacencyRel (forwardMap ids edges) = set edges"
  by (auto simp: adjacencyRel_def set_lookup_forward list_all_iff knownEdge_def)

lemma adjacencyRel_reverse:
  "list_all (knownEdge ids) edges \<Longrightarrow> adjacencyRel (reverseMap ids edges) = (set edges)\<inverse>"
  by (auto simp: adjacencyRel_def set_lookup_reverse list_all_iff knownEdge_def)

section \<open>Correctness of the waves\<close>

lemma peelWaves_correct:
  assumes "tracks ind ids edges finished" "set remaining = set ids - finished" "distinct remaining"
    and "peelWaves (forwardMap ids edges) ind remaining = Inr waves"
  shows "distinct (concat waves) \<and> set (concat waves) = set remaining \<and> [] \<notin> set waves \<and>
    (\<forall>w \<in> set waves. sorted w) \<and>
    (\<forall>i < length waves. \<forall>b \<in> set (waves ! i). \<forall>a. (a, b) \<in> set edges \<longrightarrow>
       a \<in> finished \<union> set (concat (take i waves)))"
  using assms
proof (induction "forwardMap ids edges" ind remaining arbitrary: finished waves rule: peelWaves.induct)
  case (1 ind remaining)
  let ?w = "readyWave ind remaining"
  show ?case
  proof (cases "remaining = []")
    case True
    with 1 show ?thesis by (simp add: peelWaves.simps)
  next
    case False
    with 1(5) obtain rest where ne: "?w \<noteq> []" and waves: "waves = ?w # rest"
      and rec: "peelWaves (forwardMap ids edges)
        (foldl decrement ind (concat (map (lookupList (forwardMap ids edges)) ?w)))
        (filter (\<lambda>i. i \<notin> set ?w) remaining) = Inr rest"
      by (subst (asm) peelWaves.simps) (auto simp: andThen_Inr split: if_splits)
    have wset: "set ?w = {i \<in> set remaining. pending edges finished i = 0}"
      using 1(2,3) by (auto simp: readyWave_def tracks_def)
    have d: "distinct ?w" using 1(4) by (simp add: readyWave_def)
    have tr: "tracks (foldl decrement ind (concat (map (lookupList (forwardMap ids edges)) ?w)))
        ids edges (finished \<union> set ?w)"
      by (rule tracks_decrements [OF 1(2) d]) (use wset 1(3) in auto)
    have "distinct (concat rest) \<and> set (concat rest) = set (filter (\<lambda>i. i \<notin> set ?w) remaining) \<and>
        [] \<notin> set rest \<and> (\<forall>w \<in> set rest. sorted w) \<and>
        (\<forall>i < length rest. \<forall>b \<in> set (rest ! i). \<forall>a. (a, b) \<in> set edges \<longrightarrow>
           a \<in> (finished \<union> set ?w) \<union> set (concat (take i rest)))"
      by (rule 1(1) [OF False ne tr _ _ rec]) (use 1(3,4) wset in auto)
    moreover have "sorted ?w" by (simp add: readyWave_def sortPoints_sort)
    ultimately show ?thesis
      using d ne wset unfolding waves
      by (auto simp: nth_Cons pending_zero split: nat.splits)
  qed
qed

lemma peelWaves_total:
  assumes "tracks ind ids edges finished" "set remaining = set ids - finished" "distinct remaining"
    and "acyclic (set edges)" "list_all (knownEdge ids) edges"
  shows "\<exists>waves. peelWaves (forwardMap ids edges) ind remaining = Inr waves"
  using assms(1-3)
proof (induction "forwardMap ids edges" ind remaining arbitrary: finished rule: peelWaves.induct)
  case (1 ind remaining)
  let ?w = "readyWave ind remaining"
  have wset: "set ?w = {i \<in> set remaining. pending edges finished i = 0}"
    using 1(2,3) by (auto simp: readyWave_def tracks_def)
  have d: "distinct ?w" using 1(4) by (simp add: readyWave_def)
  show ?case
  proof (cases "remaining = []")
    case True
    then show ?thesis by (simp add: peelWaves.simps)
  next
    case False
    have ne: "?w \<noteq> []"
    proof
      assume "?w = []"
      then have none: "\<forall>i \<in> set remaining. pending edges finished i \<noteq> 0" using wset by auto
      let ?done = "filter (\<lambda>i. i \<in> finished) ids"
      have "pending edges (set ?done) k = 0 \<longrightarrow> pending edges finished k = 0" for k
        using assms(5) by (auto simp: pending_zero)
      then have "\<forall>k \<in> set ids. pending edges (set ?done) k = 0 \<longrightarrow> k \<in> set ?done"
      proof (intro ballI impI)
        fix k assume k: "k \<in> set ids" "pending edges (set ?done) k = 0"
        then have "k \<notin> set remaining" using none \<open>pending edges (set ?done) k = 0 \<longrightarrow> pending edges finished k = 0\<close> by auto
        with k(1) 1(3) show "k \<in> set ?done" by simp
      qed
      then have "set ids \<subseteq> set ?done" by (rule all_processed [OF assms(4,5)])
      then have "set remaining = {}" using 1(3) by auto
      with False show False by simp
    qed
    have tr: "tracks (foldl decrement ind (concat (map (lookupList (forwardMap ids edges)) ?w)))
        ids edges (finished \<union> set ?w)"
      by (rule tracks_decrements [OF 1(2) d]) (use wset 1(3) in auto)
    have "\<exists>waves. peelWaves (forwardMap ids edges)
        (foldl decrement ind (concat (map (lookupList (forwardMap ids edges)) ?w)))
        (filter (\<lambda>i. i \<notin> set ?w) remaining) = Inr waves"
      by (rule 1(1) [OF False ne tr]) (use 1(3,4) wset in auto)
    then show ?thesis using False ne by (subst peelWaves.simps) auto
  qed
qed

lemma waves_acyclic:
  assumes "distinct (concat waves)" "set (map snd edges) \<subseteq> set (concat waves)"
    and "\<forall>i < length waves. \<forall>b \<in> set (waves ! i). \<forall>a. (a, b) \<in> set edges \<longrightarrow> a \<in> set (concat (take i waves))"
  shows "acyclic (set edges)"
proof -
  define level where "level k = (LEAST i. i < length waves \<and> k \<in> set (waves ! i))" for k
  have lv: "level k \<le> i" if "i < length waves" "k \<in> set (waves ! i)" for i k
    unfolding level_def using that by (intro Least_le) simp
  have at: "level k < length waves \<and> k \<in> set (waves ! level k)" if k: "k \<in> set (concat waves)" for k
  proof -
    obtain w where "w \<in> set waves" "k \<in> set w" using k by auto
    then obtain i where "i < length waves \<and> k \<in> set (waves ! i)" by (metis in_set_conv_nth)
    then show ?thesis unfolding level_def by (rule LeastI)
  qed
  have "level a < level b" if "(a, b) \<in> set edges" for a b
  proof -
    have "b \<in> set (concat waves)" using assms(2) that by force
    from at [OF this] have "a \<in> set (concat (take (level b) waves))" using assms(3) that by blast
    then obtain w where "w \<in> set (take (level b) waves)" "a \<in> set w" by auto
    then obtain j where "j < level b" "j < length waves" "a \<in> set (waves ! j)"
      by (metis in_set_conv_nth length_take min_less_iff_conj nth_take)
    with lv [of j a] show ?thesis by simp
  qed
  then have "set edges \<subseteq> measure level" by auto
  then show ?thesis by (meson acyclic_subset wf_acyclic wf_measure)
qed

definition wavesOf :: "string list \<Rightarrow> edge_list \<Rightarrow> string list list result" where
  "wavesOf ids edges = peelWaves (forwardMap ids edges) (indegreeMap ids edges) ids"

section \<open>Properties\<close>

lemma graphFacts_correct:
  assumes "distinct taskIds"
  shows "((\<exists>g. graphFacts taskIds edges = Inr g) \<longleftrightarrow>
            acyclic (set edges) \<and> (\<forall>(a, b) \<in> set edges. a \<in> set taskIds \<and> b \<in> set taskIds)) \<and>
         (\<forall>g. graphFacts taskIds edges = Inr g \<longrightarrow>
            mset (graphOrder g) = mset taskIds \<and>
            (\<forall>i < length (graphOrder g). \<forall>a. (a, graphOrder g ! i) \<in> set edges \<longrightarrow>
               a \<in> set (take i (graphOrder g))))"
proof -
  let ?ids = "sortPoints taskIds"
  let ?order = "kahn (forwardMap ?ids edges) (indegreeMap ?ids edges)
      (sortPoints (filter (\<lambda>i. map_of (indegreeMap ?ids edges) i = Some 0) ?ids)) []"
  note o = graphFacts_order [OF assms, of edges]
  have known: "list_all (knownEdge ?ids) edges \<longleftrightarrow> (\<forall>(a, b) \<in> set edges. a \<in> set taskIds \<and> b \<in> set taskIds)"
    by (auto simp: list_all_iff knownEdge_def)
  have full: "length ?order = length ?ids \<longleftrightarrow> set ?order = set ?ids"
    using o(1,2) assms by (metis card_subset_eq distinct_card distinct_sortBy finite_set)
  have acyc: "acyclic (set edges)" if "set ?order = set ?ids" "list_all (knownEdge ?ids) edges"
    by (rule topological_acyclic [OF o(3) _ o(1)])
      (use that in \<open>auto simp: list_all_iff knownEdge_def\<close>)
  have "set ?order = set ?ids" if "acyclic (set edges)" "list_all (knownEdge ?ids) edges"
    using all_processed [OF that o(4)] o(2) by blast
  then have "(\<exists>g. graphFacts taskIds edges = Inr g) \<longleftrightarrow>
      acyclic (set edges) \<and> list_all (knownEdge ?ids) edges"
    using acyc full by (auto simp: graphFacts_Inr Let_def)
  moreover have "mset ?order = mset taskIds" if "length ?order = length ?ids"
    using that full o(1) assms by (metis mset_sortBy set_eq_iff_mset_eq_distinct distinct_sortBy)
  ultimately show ?thesis
    using o(3) unfolding known by (auto simp: graphFacts_Inr Let_def topological_def)
qed

text \<open>
  C6: the compiler's topological order. For distinct task IDs \<open>graphFacts\<close> accepts exactly the acyclic
  graphs whose edges join known tasks, so the cycle error is raised for cycles only; the order it
  returns lists every task once, each after all its predecessors.
\<close>

theorem topological_order_correct:
  assumes "distinct taskIds"
  shows "((\<exists>g. graphFacts taskIds edges = Inr g) \<longleftrightarrow>
            acyclic (set edges) \<and> (\<forall>(a, b) \<in> set edges. a \<in> set taskIds \<and> b \<in> set taskIds)) \<and>
         (\<forall>g. graphFacts taskIds edges = Inr g \<longrightarrow>
            mset (graphOrder g) = mset taskIds \<and>
            (\<forall>i < length (graphOrder g). \<forall>a. (a, graphOrder g ! i) \<in> set edges \<longrightarrow>
               a \<in> set (take i (graphOrder g))))"
  using graphFacts_correct [OF assms] .

theorem topological_order_correct_witness:
  "acyclic (set [(''a'', ''b''), (''c'', ''b'')])"
proof -
  have d: "distinct [''b'', ''a'', ''c'']" by simp
  have "isl (graphFacts [''b'', ''a'', ''c''] [(''a'', ''b''), (''c'', ''b'')]) = False" by code_simp
  then have "\<exists>g. graphFacts [''b'', ''a'', ''c''] [(''a'', ''b''), (''c'', ''b'')] = Inr g"
    by (metis isl_def sum.exhaust_sel)
  with topological_order_correct [OF d] show ?thesis by blast
qed

text \<open>What the graph of an accepted Program gives to the checks that use it.\<close>

lemma graphFacts_maps:
  assumes "graphFacts taskIds edges = Inr g"
  shows "graphIds g = sortPoints taskIds" "graphForward g = forwardMap (sortPoints taskIds) edges"
    "graphReverse g = reverseMap (sortPoints taskIds) edges" "list_all (knownEdge taskIds) edges"
    "adjacencyRel (graphForward g) = set edges" "adjacencyRel (graphReverse g) = (set edges)\<inverse>"
  using assms adjacencyRel_forward [of "sortPoints taskIds" edges] adjacencyRel_reverse [of "sortPoints taskIds" edges]
  by (auto simp: graphFacts_Inr Let_def list_all_iff knownEdge_def)

text \<open>
  C24: the searches are exact. \<open>pathExists\<close> decides, and \<open>reachableFrom\<close> computes, the reflexive
  transitive closure of the adjacency they are given; on the forward map of a program that is the
  closure of its edges, on the reverse map the closure of the inverse. Both terminate on cyclic graphs.
\<close>

theorem searches_exact:
  "(pathExists a b adj \<longleftrightarrow> (a, b) \<in> (adjacencyRel adj)\<^sup>*) \<and>
   set (reachableFrom start adj) = {y. \<exists>x \<in> set start. (x, y) \<in> (adjacencyRel adj)\<^sup>*} \<and>
   distinct (reachableFrom start adj) \<and>
   (list_all (knownEdge ids) edges \<longrightarrow>
      adjacencyRel (forwardMap ids edges) = set edges \<and> adjacencyRel (reverseMap ids edges) = (set edges)\<inverse>)"
  using pathExists_iff reachableFrom_set adjacencyRel_forward adjacencyRel_reverse
    worklist_distinct [of "[]" adj "sortPoints start"]
  by (simp add: reachableFrom_def)

theorem searches_exact_witness:
  "adjacencyRel (reverseMap [''a'', ''b''] [(''a'', ''b''), (''b'', ''a'')]) = {(''b'', ''a''), (''a'', ''b'')} \<and>
   pathExists ''a'' ''a'' (forwardMap [''a'', ''b''] [(''a'', ''b''), (''b'', ''a'')])"
proof -
  have "list_all (knownEdge [''a'', ''b'']) [(''a'', ''b''), (''b'', ''a'')]" by code_simp
  then show ?thesis
    using searches_exact [of "''a''" "''a''" "forwardMap [''a'', ''b''] [(''a'', ''b''), (''b'', ''a'')]"
        "[]" "[''a'', ''b'']" "[(''a'', ''b''), (''b'', ''a'')]"] by auto
qed

text \<open>
  C25: the waves of the simulation. For distinct task IDs and edges between them the wave loop
  succeeds exactly on acyclic graphs; the waves are non-empty, sorted, list every task once, and every
  predecessor of a task lies in an earlier wave.
\<close>

theorem waves_correct:
  assumes "distinct ids" "list_all (knownEdge ids) edges"
  shows "((\<exists>waves. wavesOf ids edges = Inr waves) \<longleftrightarrow> acyclic (set edges)) \<and>
         (\<forall>waves. wavesOf ids edges = Inr waves \<longrightarrow>
            distinct (concat waves) \<and> set (concat waves) = set ids \<and> [] \<notin> set waves \<and>
            (\<forall>w \<in> set waves. sorted w) \<and>
            (\<forall>i < length waves. \<forall>b \<in> set (waves ! i). \<forall>a. (a, b) \<in> set edges \<longrightarrow>
               a \<in> set (concat (take i waves))))"
proof -
  have sound: "distinct (concat waves) \<and> set (concat waves) = set ids \<and> [] \<notin> set waves \<and>
      (\<forall>w \<in> set waves. sorted w) \<and>
      (\<forall>i < length waves. \<forall>b \<in> set (waves ! i). \<forall>a. (a, b) \<in> set edges \<longrightarrow> a \<in> set (concat (take i waves)))"
    if "wavesOf ids edges = Inr waves" for waves
    using peelWaves_correct [OF tracks_initial _ assms(1) that [unfolded wavesOf_def]] by simp
  have "acyclic (set edges)" if "wavesOf ids edges = Inr waves" for waves
    by (rule waves_acyclic [of waves])
      (use sound [OF that] assms(2) in \<open>auto simp: list_all_iff knownEdge_def\<close>)
  moreover have "\<exists>waves. wavesOf ids edges = Inr waves" if "acyclic (set edges)"
    unfolding wavesOf_def by (rule peelWaves_total [OF tracks_initial _ assms(1) that assms(2)]) simp
  ultimately show ?thesis using sound by blast
qed

theorem waves_correct_witness:
  "wavesOf [''a'', ''b'', ''c''] [(''a'', ''b''), (''c'', ''b'')] = Inr [[''a'', ''c''], [''b'']] \<and>
   acyclic (set [(''a'', ''b''), (''c'', ''b'')])"
proof -
  have run: "wavesOf [''a'', ''b'', ''c''] [(''a'', ''b''), (''c'', ''b'')] = Inr [[''a'', ''c''], [''b'']]"
    by code_simp
  have "distinct [''a'', ''b'', ''c'']" "list_all (knownEdge [''a'', ''b'', ''c'']) [(''a'', ''b''), (''c'', ''b'')]"
    by code_simp+
  from waves_correct [OF this] run show ?thesis by blast
qed

end
