(* ===== verification/SgosContract.thy ===== *)
theory SgosContract
  imports CanonicalJson
begin

text \<open>
  The contract machinery of \<open>src/sgos/contracts.mjs\<close>: the field checks, the descriptor table, the
  self-hash, deterministic identifiers, and \<open>createContract\<close> / \<open>returnValidated\<close>, which every
  durable record family goes through. The families themselves are in \<open>SgosContractsWork\<close>,
  \<open>SgosContractsReceipts\<close> and \<open>SgosContractsProcess\<close>.

  A validator is a list of guard statements run in order. Every guard fails with the same code
  \<open>SGOS_CONTRACT_INVALID\<close>; a native error remains where the source reads a property of a value it
  has not checked.
\<close>

section \<open>Guards\<close>

abbreviation contractInvalid :: string where
  "contractInvalid \<equiv> ''SGOS_CONTRACT_INVALID''"

definition must :: "bool \<Rightarrow> unit result" where
  "must b = refuseIf (\<not> b) contractInvalid"

definition whenPresent :: "jsval \<Rightarrow> unit result \<Rightarrow> unit result" where
  "whenPresent v c = (if nullish v then Inr () else c)"

definition unlessNull :: "jsval \<Rightarrow> unit result \<Rightarrow> unit result" where
  "unlessNull v c = (if v = JNull then Inr () else c)"

definition unsafeKeys :: "string list" where
  "unsafeKeys = [''__proto__'', ''prototype'', ''constructor'']"

fun jsonSafe :: "jsval \<Rightarrow> bool" where
  "jsonSafe JUndef = False"
| "jsonSafe (JFrac t) = (t \<notin> {''NaN'', ''Infinity'', ''-Infinity''})"
| "jsonSafe (JArr xs) = list_all jsonSafe xs"
| "jsonSafe (JObj fs) = list_all (\<lambda>f. fst f \<notin> set unsafeKeys \<and> jsonSafe (snd f)) fs"
| "jsonSafe v = True"

definition cloneJson :: "jsval \<Rightarrow> jsval result" where
  "cloneJson v = (if jsonSafe v then Inr v else fail contractInvalid)"

definition jsonCheck :: "jsval \<Rightarrow> unit result" where
  "jsonCheck v = must (jsonSafe v)"

definition objectCheck :: "jsval \<Rightarrow> unit result" where
  "objectCheck v = must (plainObject v)"

definition exactKeys :: "jsval \<Rightarrow> string list \<Rightarrow> unit result" where
  "exactKeys v allowed = checks [objectCheck v, must (list_all (\<lambda>f. fst f \<in> set allowed) (fieldsOf v))]"

definition requireKeys :: "jsval \<Rightarrow> string list \<Rightarrow> unit result" where
  "requireKeys v required = must (list_all (hasOwn v) required)"

definition nonBlank :: "jsval \<Rightarrow> bool" where
  "nonBlank v \<longleftrightarrow> isString v \<and> trim (stringOf v) \<noteq> []"

definition stringCheck :: "jsval \<Rightarrow> unit result" where
  "stringCheck v = must (nonBlank v)"

definition patternCheck :: "(string \<Rightarrow> bool) \<Rightarrow> jsval \<Rightarrow> unit result" where
  "patternCheck p v = must (nonBlank v \<and> p (stringOf v))"

definition sha256Pattern :: "string \<Rightarrow> bool" where
  "sha256Pattern s \<longleftrightarrow> startsWith s ''sha256:'' \<and> length s = 71 \<and> list_all isHex (drop 7 s)"

definition digestCheck :: "jsval \<Rightarrow> unit result" where
  "digestCheck v = must (isString v \<and> sha256Pattern (stringOf v))"

text \<open>In a template, \<open>0\<close> stands for any digit and every other character for itself.\<close>

fun matchTemplate :: "string \<Rightarrow> string \<Rightarrow> bool" where
  "matchTemplate [] [] = True"
| "matchTemplate (t # ts) (c # cs) = ((if t = CHR ''0'' then isDigit c else c = t) \<and> matchTemplate ts cs)"
| "matchTemplate _ _ = False"

definition zoneText :: "string \<Rightarrow> bool" where
  "zoneText z \<longleftrightarrow> z = ''Z'' \<or> matchTemplate ''+00:00'' z \<or> matchTemplate ''-00:00'' z"

definition timestampText :: "string \<Rightarrow> bool" where
  "timestampText s \<longleftrightarrow> matchTemplate ''0000-00-00T00:00:00'' (take 19 s) \<and>
     (let rest = drop 19 s; digits = takeWhile isDigit (tl rest) in
      zoneText rest \<or>
      (rest \<noteq> [] \<and> hd rest = CHR ''.'' \<and> digits \<noteq> [] \<and> length digits \<le> 9 \<and>
       zoneText (dropWhile isDigit (tl rest))))"

definition timestampCheck :: "jsval \<Rightarrow> unit result" where
  "timestampCheck v = patternCheck timestampText v"

definition integerCheck :: "int \<Rightarrow> jsval \<Rightarrow> unit result" where
  "integerCheck minimum v = must (isSafeInteger v \<and> minimum \<le> numberOf v)"

definition enumerationCheck :: "string list \<Rightarrow> jsval \<Rightarrow> unit result" where
  "enumerationCheck allowed v = must (v \<in> JStr ` set allowed)"

definition arrayCheck :: "jsval \<Rightarrow> unit result" where
  "arrayCheck v = must (isArray v)"

definition booleanCheck :: "jsval \<Rightarrow> unit result" where
  "booleanCheck v = must (isBoolean v)"

definition arrayOf :: "(jsval \<Rightarrow> unit result) \<Rightarrow> jsval \<Rightarrow> unit result" where
  "arrayOf c v = checks [arrayCheck v, eachOf c (elements v)]"

definition stringArray :: "jsval \<Rightarrow> unit result" where
  "stringArray v = checks [arrayOf stringCheck v, must (distinct (elements v))]"

definition digestArray :: "jsval \<Rightarrow> unit result" where
  "digestArray v = checks [arrayOf digestCheck v, must (distinct (elements v))]"

definition identifierChars :: "string \<Rightarrow> bool" where
  "identifierChars s \<longleftrightarrow> s \<noteq> [] \<and> isAlnum (hd s) \<and>
     list_all (\<lambda>c. isAlnum c \<or> c \<in> {CHR ''.'', CHR ''_'', CHR '':'', CHR ''-''}) (tl s)"

definition identifierText :: "string \<Rightarrow> string \<Rightarrow> bool" where
  "identifierText tag s \<longleftrightarrow> startsWith s (tag @ ''-'') \<and>
     (let rest = drop (length tag + 1) s in
      identifierChars rest \<and> 6 \<le> length rest \<and> length rest \<le> 128)"

definition identifierCheck :: "string \<Rightarrow> jsval \<Rightarrow> unit result" where
  "identifierCheck tag v = patternCheck (identifierText tag) v"

definition kebab :: "string \<Rightarrow> bool" where
  "kebab s \<longleftrightarrow> s \<noteq> [] \<and> isLower (hd s) \<and> list_all (\<lambda>c. isLower c \<or> isDigit c \<or> c = CHR ''-'') (tl s)"

definition operationText :: "string \<Rightarrow> bool" where
  "operationText s \<longleftrightarrow> 2 \<le> length (splitOn (CHR ''.'') s) \<and> list_all kebab (splitOn (CHR ''.'') s)"

definition repositoryPath :: "jsval \<Rightarrow> unit result" where
  "repositoryPath v = patternCheck (\<lambda>s. \<not> (startsWith s ''/'' \<or> startsWith s ''./'' \<or> CHR 0x5C \<in> set s
      \<or> endsWith s ''/'' \<or> list_ex (\<lambda>p. p = [] \<or> p = ''.'' \<or> p = ''..'') (splitOn (CHR ''/'') s))) v"

definition principalCheck :: "jsval \<Rightarrow> unit result" where
  "principalCheck v = checks
     [exactKeys v [''id'', ''kind'', ''name'', ''email'', ''authoritySha256''],
      requireKeys v [''id'', ''kind''],
      stringCheck (getp v ''id''),
      enumerationCheck [''human'', ''service'', ''agent'', ''system'', ''external''] (getp v ''kind''),
      whenPresent (getp v ''name'') (stringCheck (getp v ''name'')),
      whenPresent (getp v ''email'') (stringCheck (getp v ''email'')),
      whenPresent (getp v ''authoritySha256'') (digestCheck (getp v ''authoritySha256''))]"

definition subjectCheck :: "jsval \<Rightarrow> unit result" where
  "subjectCheck v = checks
     [exactKeys v [''kind'', ''id'', ''revision'', ''sha256''],
      requireKeys v [''kind'', ''id''],
      patternCheck kebab (getp v ''kind''),
      stringCheck (getp v ''id''),
      whenPresent (getp v ''revision'') (stringCheck (getp v ''revision'')),
      whenPresent (getp v ''sha256'') (digestCheck (getp v ''sha256''))]"

text \<open>\<open>for (const field of fields) check(record[field])\<close>.\<close>

definition fieldsEach :: "(jsval \<Rightarrow> unit result) \<Rightarrow> jsval \<Rightarrow> string list \<Rightarrow> unit result" where
  "fieldsEach c v names = eachOf (\<lambda>n. c (getp v n)) names"

section \<open>Descriptors and versions\<close>

record contract_descriptor =
  descriptorHash :: string
  descriptorId :: "string option"
  descriptorPrefix :: string

definition described :: "string \<Rightarrow> string \<Rightarrow> string \<Rightarrow> contract_descriptor" where
  "described h i p = \<lparr>descriptorHash = h, descriptorId = Some i, descriptorPrefix = p\<rparr>"

definition anonymous :: "string \<Rightarrow> contract_descriptor" where
  "anonymous h = \<lparr>descriptorHash = h, descriptorId = None, descriptorPrefix = []\<rparr>"

definition sgosContracts :: "(string \<times> contract_descriptor) list" where
  "sgosContracts =
     [(''intent-envelope'', described ''envelopeSha256'' ''intentId'' ''INT''),
      (''intent-ir'', described ''intentIrSha256'' ''intentId'' ''INT''),
      (''workflow-ir'', described ''workflowSha256'' ''workflowId'' ''WFL''),
      (''workflow-ratification'', described ''ratificationSha256'' ''ratificationId'' ''RAT''),
      (''policy-snapshot'', described ''snapshotSha256'' ''policyId'' ''POL''),
      (''candidate-snapshot'', described ''candidateSha256'' ''candidateId'' ''CAN''),
      (''resource-lease'', described ''leaseSha256'' ''leaseId'' ''RLS''),
      (''join-receipt'', described ''joinReceiptSha256'' ''joinReceiptId'' ''JNR''),
      (''quorum-join-receipt'', described ''quorumJoinReceiptSha256'' ''quorumJoinReceiptId'' ''QJR''),
      (''reducer-join-receipt'', described ''reducerJoinReceiptSha256'' ''reducerJoinReceiptId'' ''RJR''),
      (''manual-reconcile-join-receipt'',
         described ''manualReconcileJoinReceiptSha256'' ''manualReconcileJoinReceiptId'' ''MJR''),
      (''effect-replay-receipt'', described ''effectReplayReceiptSha256'' ''effectReplayReceiptId'' ''ERP''),
      (''effect-retry-receipt'', described ''effectRetryReceiptSha256'' ''effectRetryReceiptId'' ''ETR''),
      (''fork-prefix-task-import'', described ''forkTaskImportSha256'' ''forkTaskImportId'' ''FTI''),
      (''fork-prefix-import-receipt'', described ''forkImportReceiptSha256'' ''forkImportReceiptId'' ''FIR''),
      (''fork-dynamic-task-import'', described ''forkDynamicTaskImportSha256'' ''forkDynamicTaskImportId'' ''FDT''),
      (''fork-dynamic-prefix-import-receipt'',
         described ''forkDynamicImportReceiptSha256'' ''forkDynamicImportReceiptId'' ''FDI''),
      (''fanout-expansion-receipt'', described ''expansionSha256'' ''expansionId'' ''FOX''),
      (''dynamic-fanout-collection'', described ''collectionRecordSha256'' ''collectionId'' ''DFC''),
      (''dynamic-fanout-expansion-receipt'', described ''expansionSha256'' ''expansionId'' ''DFX''),
      (''sgos-replay-plan'', described ''replayPlanSha256'' ''replayPlanId'' ''RPL''),
      (''process-binding'', anonymous ''bindingSha256''),
      (''gvm-program'', described ''programSha256'' ''programId'' ''PRG''),
      (''gvm-process'', described ''processSha256'' ''processId'' ''PROC''),
      (''sgos-record-index'', anonymous ''recordIndexSha256''),
      (''sgos-control-event'', anonymous ''controlEventSha256''),
      (''sgos-control-successor'', anonymous ''successorSha256''),
      (''sgos-transition-intent'', anonymous ''intentSha256''),
      (''gvm-task-attempt'', described ''attemptSha256'' ''attemptId'' ''ATT''),
      (''gvm-task-receipt'', anonymous ''receiptSha256''),
      (''gvm-checkpoint'', described ''checkpointSha256'' ''checkpointId'' ''CHK''),
      (''human-request'', described ''requestSha256'' ''requestId'' ''HRQ''),
      (''human-response'', described ''responseSha256'' ''responseId'' ''HRS''),
      (''agent-proposal'', anonymous ''proposalSha256''),
      (''action-evidence'', anonymous ''evidenceSha256''),
      (''work-object'', described ''objectSha256'' ''objectId'' ''WKO'')]"

definition contractOf :: "string \<Rightarrow> contract_descriptor" where
  "contractOf family = (case map_of sgosContracts family of Some d \<Rightarrow> d | None \<Rightarrow> anonymous ''undefined'')"

text \<open>\<open>currentSchemaVersion\<close> of \<open>src/schema-migrations.mjs\<close> on the families above.\<close>

definition currentSchemaVersion :: "string \<Rightarrow> int" where
  "currentSchemaVersion family =
     (if family = ''gvm-process'' then 4
      else if family \<in> {''process-binding'', ''gvm-task-receipt'', ''human-request''} then 2
      else 1)"

section \<open>Hashes and identifiers\<close>

definition sha256Json :: "hash_function \<Rightarrow> jsval \<Rightarrow> string result" where
  "sha256Json H value = andThen (cloneJson value) (\<lambda>v. Inr (sgosSha256 H v))"

definition identifierPrefix :: "string \<Rightarrow> bool" where
  "identifierPrefix p \<longleftrightarrow> p \<noteq> [] \<and> isUpper (hd p) \<and> 2 \<le> length p \<and> length p \<le> 8 \<and>
     list_all (\<lambda>c. isUpper c \<or> isDigit c) (tl p)"

definition deterministicSgosId :: "hash_function \<Rightarrow> string \<Rightarrow> jsval \<Rightarrow> string result" where
  "deterministicSgosId H tag identity =
     (if \<not> identifierPrefix tag then fail contractInvalid
      else andThen (cloneJson identity) (\<lambda>i.
           andThen (sha256Json H (JObj [(''namespace'', JStr ''sflow/sgos/v1''), (''prefix'', JStr tag),
             (''identity'', i)])) (\<lambda>d.
           Inr (tag @ ''-'' @ toUpperCase (take 32 (drop 7 d))))))"

definition recordSelfSha256 :: "hash_function \<Rightarrow> jsval \<Rightarrow> string \<Rightarrow> string result" where
  "recordSelfSha256 H value hashField =
     (if \<not> plainObject value then fail contractInvalid
      else if hashField = [] then fail contractInvalid
      else andThen (cloneJson value) (\<lambda>core. sha256Json H (JObj (deleteField hashField (fieldsOf core)))))"

definition verifySelfHash :: "hash_function \<Rightarrow> string \<Rightarrow> jsval \<Rightarrow> bool \<Rightarrow> unit result" where
  "verifySelfHash H family value requireHash =
     (if \<not> requireHash then Inr ()
      else let h = descriptorHash (contractOf family) in
        andThen (digestCheck (getp value h)) (\<lambda>_.
        andThen (recordSelfSha256 H value h) (\<lambda>expected. must (getp value h = JStr expected))))"

definition validateBase ::
    "hash_function \<Rightarrow> string \<Rightarrow> string list \<Rightarrow> string list \<Rightarrow> jsval \<Rightarrow> bool \<Rightarrow> unit result" where
  "validateBase H family allowed required value requireHash =
     (let h = descriptorHash (contractOf family) in checks
       [exactKeys value ([''schemaVersion'', ''kind''] @ allowed @ [h]),
        requireKeys value ([''schemaVersion'', ''kind''] @ required @ (if requireHash then [h] else [])),
        must (getp value ''schemaVersion'' = JNum (currentSchemaVersion family)),
        must (getp value ''kind'' = JStr family),
        verifySelfHash H family value requireHash])"

section \<open>Creating and reading records\<close>

type_synonym validator = "jsval \<Rightarrow> bool \<Rightarrow> unit result"

definition stampedRecord :: "string \<Rightarrow> fields \<Rightarrow> jsval" where
  "stampedRecord family fs =
     JObj (spread (deleteField (descriptorHash (contractOf family)) fs)
       [(''schemaVersion'', JNum (currentSchemaVersion family)), (''kind'', JStr family)])"

definition withIdentifier :: "hash_function \<Rightarrow> string \<Rightarrow> (jsval \<Rightarrow> jsval result) \<Rightarrow> jsval \<Rightarrow> jsval result" where
  "withIdentifier H family identity value =
     (case descriptorId (contractOf family) of None \<Rightarrow> Inr value
      | Some i \<Rightarrow>
        if \<not> nullish (getp value i) then Inr value
        else andThen (identity value) (\<lambda>basis.
             andThen (deterministicSgosId H (descriptorPrefix (contractOf family)) basis) (\<lambda>k.
               Inr (JObj (spread (fieldsOf value) [(i, JStr k)])))))"

definition sealRecord :: "hash_function \<Rightarrow> string \<Rightarrow> jsval \<Rightarrow> jsval result" where
  "sealRecord H family value =
     (let h = descriptorHash (contractOf family) in
      andThen (recordSelfSha256 H value h) (\<lambda>d. Inr (JObj (spread (fieldsOf value) [(h, JStr d)]))))"

definition createContract ::
    "hash_function \<Rightarrow> string \<Rightarrow> validator \<Rightarrow> (jsval \<Rightarrow> jsval result) \<Rightarrow> (jsval \<Rightarrow> jsval result)
     \<Rightarrow> jsval \<Rightarrow> jsval result" where
  "createContract H family validator prepare identity source =
     andThen (cloneJson source) (\<lambda>input.
       let version = getp input ''schemaVersion''; kind = getp input ''kind'';
           h = descriptorHash (contractOf family); supplied = getp input h in
       if \<not> plainObject input then fail contractInvalid
       else if \<not> nullish version \<and> version \<noteq> JNum (currentSchemaVersion family) then fail contractInvalid
       else if \<not> nullish kind \<and> kind \<noteq> JStr family then fail contractInvalid
       else andThen (prepare (stampedRecord family (fieldsOf input))) (\<lambda>prepared.
            andThen (withIdentifier H family identity prepared) (\<lambda>unsealed.
            andThen (validator unsealed False) (\<lambda>_.
            andThen (sealRecord H family unsealed) (\<lambda>sealed.
              if \<not> nullish supplied \<and> supplied \<noteq> getp sealed h then fail contractInvalid
              else andThen (validator sealed True) (\<lambda>_. cloneJson sealed))))))"

definition returnValidated :: "validator \<Rightarrow> jsval \<Rightarrow> jsval result" where
  "returnValidated validator value = andThen (validator value True) (\<lambda>_. cloneJson value)"

text \<open>\<open>(record) => ({ a: record.a, ... })\<close> and the default identity of \<open>createContract\<close>.\<close>

definition pick :: "string list \<Rightarrow> jsval \<Rightarrow> jsval result" where
  "pick names value = Inr (JObj (map (\<lambda>n. (n, getp value n)) names))"

definition allBut :: "string list \<Rightarrow> jsval \<Rightarrow> jsval result" where
  "allBut names value = Inr (JObj (filter (\<lambda>f. fst f \<notin> set names) (fieldsOf value)))"

definition unprepared :: "jsval \<Rightarrow> jsval result" where
  "unprepared value = Inr value"

section \<open>Every record family\<close>

lemma must_Inr [result_simps, simp]: "must b = Inr u \<longleftrightarrow> b"
  by (simp add: must_def)

lemma must_eval [simp]: "must True = Inr ()" "must False = fail contractInvalid"
  by (simp_all add: must_def refuseIf_def)

lemma whenPresent_Inr [result_simps]: "whenPresent v c = Inr u \<longleftrightarrow> nullish v \<or> c = Inr u"
  by (simp add: whenPresent_def)

lemma unlessNull_Inr [result_simps]: "unlessNull v c = Inr u \<longleftrightarrow> v = JNull \<or> c = Inr u"
  by (simp add: unlessNull_def)

lemma cloneJson_Inr [result_simps]: "cloneJson v = Inr w \<longleftrightarrow> jsonSafe v \<and> w = v"
  by (auto simp: cloneJson_def)

lemma validateBase_Inr:
  assumes "validateBase H family allowed required r b = Inr ()"
  shows "plainObject r" "getp r ''schemaVersion'' = JNum (currentSchemaVersion family)"
    "getp r ''kind'' = JStr family" "verifySelfHash H family r b = Inr ()"
    "\<forall>k \<in> set required. hasOwn r k"
    "fst ` set (fieldsOf r) \<subseteq> {''schemaVersion'', ''kind'', descriptorHash (contractOf family)} \<union> set allowed"
  using assms
  by (auto simp: validateBase_def Let_def andThen_Inr exactKeys_def requireKeys_def objectCheck_def list_all_iff)

lemma getp_JObj: "getp (JObj fs) k = (case map_of fs k of None \<Rightarrow> JUndef | Some v \<Rightarrow> v)"
  by simp

lemma getp_setField: "getp (JObj (setField k v fs)) j = (if j = k then v else getp (JObj fs) j)"
  by (simp add: map_of_setField)

lemma spread_Cons: "spread fs (p # ps) = spread (setField (fst p) (snd p) fs) ps"
  by (simp add: spread_def case_prod_beta)

lemma spread_Nil [simp]: "spread fs [] = fs"
  by (simp add: spread_def)

lemmas spread_fields = spread_Cons spread_Nil fst_conv snd_conv

text \<open>Assignments to existing fields happen in place.\<close>

lemma setField_same [simp]: "setField k v (setField k w fs) = setField k v fs"
  unfolding setField_def by (induction fs) auto

lemma setField_commute:
  "k \<in> fst ` set fs \<Longrightarrow> j \<noteq> k \<Longrightarrow> setField j u (setField k v fs) = setField k v (setField j u fs)"
  unfolding setField_def by (induction fs) auto

lemma deleteField_setField: "h \<noteq> k \<Longrightarrow> deleteField h (setField k v fs) = setField k v (deleteField h fs)"
  unfolding setField_def deleteField_def by (induction fs) auto

lemma keys_setField [simp]: "fst ` set (setField k v fs) = insert k (fst ` set fs)"
  unfolding setField_def by (induction fs) auto

lemma keys_deleteField: "k \<in> fst ` set fs \<Longrightarrow> h \<noteq> k \<Longrightarrow> k \<in> fst ` set (deleteField h fs)"
  by (auto simp: deleteField_def image_iff)

lemma jsonSafe_setField:
  "jsonSafe (JObj fs) \<Longrightarrow> jsonSafe v \<Longrightarrow> k \<notin> set unsafeKeys \<Longrightarrow> jsonSafe (JObj (setField k v fs))"
  unfolding setField_def by (induction fs) auto

lemma getp_deleteField: "getp (JObj (deleteField h fs)) k = (if k = h then JUndef else getp (JObj fs) k)"
  unfolding deleteField_def by (induction fs) auto

lemma stamped_field:
  "k \<noteq> ''schemaVersion'' \<Longrightarrow> k \<noteq> ''kind'' \<Longrightarrow> k \<noteq> descriptorHash (contractOf family) \<Longrightarrow>
   getp (stampedRecord family fs) k = getp (JObj fs) k"
  unfolding stampedRecord_def by (simp add: spread_fields getp_setField getp_deleteField del: getp.simps)

lemma stamped_setField:
  "k \<in> fst ` set fs \<Longrightarrow> k \<noteq> ''schemaVersion'' \<Longrightarrow> k \<noteq> ''kind'' \<Longrightarrow> k \<noteq> descriptorHash (contractOf family) \<Longrightarrow>
   stampedRecord family (setField k v fs) = JObj (setField k v (fieldsOf (stampedRecord family fs)))"
  unfolding stampedRecord_def by (simp add: spread_fields deleteField_setField setField_commute keys_deleteField)

text \<open>Creation does not see a field that preparation normalizes away.\<close>

lemma createContract_setField:
  assumes "createContract H family validator prepare identity (JObj fs) = Inr r"
    and "k \<noteq> ''schemaVersion''" "k \<noteq> ''kind''" "k \<noteq> descriptorHash (contractOf family)" "k \<notin> set unsafeKeys"
    and "jsonSafe v"
    and "prepare (stampedRecord family (setField k v fs)) = prepare (stampedRecord family fs)"
  shows "createContract H family validator prepare identity (JObj (setField k v fs)) = Inr r"
proof -
  have safe: "jsonSafe (JObj fs)"
    using assms(1) unfolding createContract_def Let_def andThen_Inr if_fail_Inr cloneJson_Inr by blast
  have safe': "jsonSafe (JObj (setField k v fs))" using jsonSafe_setField [OF safe assms(6,5)] .
  have "cloneJson (JObj fs) = Inr (JObj fs)" "cloneJson (JObj (setField k v fs)) = Inr (JObj (setField k v fs))"
    using safe safe' by (simp_all only: cloneJson_def if_True)
  moreover have "getp (JObj (setField k v fs)) j = getp (JObj fs) j" if "j \<noteq> k" for j
    using that by (simp only: getp_setField if_False)
  ultimately have "createContract H family validator prepare identity (JObj (setField k v fs))
      = createContract H family validator prepare identity (JObj fs)"
    unfolding createContract_def Let_def
    by (simp only: andThen.simps assms(2-4,7) [symmetric] not_False_eq_True plainObject.simps fieldsOf.simps)
  then show ?thesis using assms(1) by simp
qed

text \<open>A created record has the fields of the prepared one, up to the identifier and the digest.\<close>

lemma createContract_Inr:
  assumes "createContract H family validator prepare identity source = Inr r"
  obtains p where "jsonSafe source" "plainObject source"
    "prepare (stampedRecord family (fieldsOf source)) = Inr p"
    "plainObject p \<longrightarrow> (\<forall>k. k \<noteq> descriptorHash (contractOf family) \<and> descriptorId (contractOf family) \<noteq> Some k \<longrightarrow>
       getp r k = getp p k)"
    "validator r True = Inr ()"
proof -
  let ?h = "descriptorHash (contractOf family)"
  from assms obtain p u s where steps: "jsonSafe source" "plainObject source"
      "prepare (stampedRecord family (fieldsOf source)) = Inr p"
      "withIdentifier H family identity p = Inr u" "sealRecord H family u = Inr s" "validator s True = Inr ()" "r = s"
    unfolding createContract_def Let_def andThen_Inr if_fail_Inr cloneJson_Inr by auto
  show thesis
  proof (rule that [OF steps(1-3)], intro impI allI)
    show "validator r True = Inr ()" using steps by simp
    fix k assume p: "plainObject p" and "k \<noteq> ?h \<and> descriptorId (contractOf family) \<noteq> Some k"
    then have k: "k \<noteq> ?h" "descriptorId (contractOf family) \<noteq> Some k" by auto
    from p obtain fs where fs: "p = JObj fs" by (auto simp: plainObject_iff)
    have "getp u k = getp p k" and u: "plainObject u"
      using steps(4) k(2) fs
      by (auto simp: withIdentifier_def andThen_Inr spread_fields getp_setField simp del: getp.simps
          split: option.splits if_splits)
    moreover from u obtain us where us: "u = JObj us" by (auto simp: plainObject_iff)
    have "getp s k = getp u k"
      using steps(5) k(1) us
      by (auto simp: sealRecord_def Let_def andThen_Inr spread_fields getp_setField simp del: getp.simps)
    ultimately show "getp r k = getp p k" using steps(7) by simp
  qed
qed

text \<open>
  What a family owes the machinery: a record its validator accepts has passed \<open>validateBase\<close>. From
  this alone follow the properties of its creator and its reader.
\<close>

locale contract_family =
  fixes H :: hash_function and family :: string and validate :: validator
  assumes based: "validate r b = Inr () \<Longrightarrow> plainObject r \<and>
    getp r ''schemaVersion'' = JNum (currentSchemaVersion family) \<and> getp r ''kind'' = JStr family \<and>
    verifySelfHash H family r b = Inr ()"
begin

lemma created_valid:
  "createContract H family validate prepare identity source = Inr r \<Longrightarrow> validate r True = Inr () \<and> jsonSafe r"
  unfolding createContract_def Let_def andThen_Inr if_fail_Inr cloneJson_Inr by auto

lemma created_read_back:
  "createContract H family validate prepare identity source = Inr r \<Longrightarrow> returnValidated validate r = Inr r"
  using created_valid by (auto simp: returnValidated_def andThen_Inr cloneJson_Inr)

lemma read_same: "returnValidated validate v = Inr r \<Longrightarrow> r = v \<and> validate v True = Inr () \<and> jsonSafe v"
  by (auto simp: returnValidated_def andThen_Inr cloneJson_Inr)

lemma self_hash:
  assumes "validate r True = Inr ()"
  shows "getp r (descriptorHash (contractOf family)) =
    JStr (sgosSha256 H (JObj (deleteField (descriptorHash (contractOf family)) (fieldsOf r))))"
  using based [OF assms]
  by (auto simp: verifySelfHash_def Let_def andThen_Inr recordSelfSha256_def sha256Json_def cloneJson_Inr
      split: if_splits)

text \<open>Two records carry the same digest exactly when the texts of their other fields hash alike.\<close>

lemma digest_determines:
  assumes "validate v True = Inr ()" "validate w True = Inr ()"
  shows "getp v (descriptorHash (contractOf family)) = getp w (descriptorHash (contractOf family)) \<longleftrightarrow>
    H (canonicalJson (JObj (deleteField (descriptorHash (contractOf family)) (fieldsOf v))))
    = H (canonicalJson (JObj (deleteField (descriptorHash (contractOf family)) (fieldsOf w))))"
  using self_hash [OF assms(1)] self_hash [OF assms(2)] by (simp add: sgosSha256_def recordSha256_def)

end

section \<open>Digests for examples\<close>

text \<open>A constant stand-in for SHA-256 with digests of the right shape.\<close>

definition sampleDigest :: string where
  "sampleDigest = ''sha256:'' @ replicate 64 (CHR ''a'')"

definition sampleHash :: "string \<Rightarrow> string" where
  "sampleHash text = replicate 64 (CHR ''a'')"

text \<open>SHA-256 always gives 64 hexadecimal characters.\<close>

definition hexDigests :: "hash_function \<Rightarrow> bool" where
  "hexDigests H \<longleftrightarrow> (\<forall>text. length (H text) = 64 \<and> list_all isHex (H text))"

lemma sampleHash_hex: "hexDigests sampleHash"
  by (simp add: hexDigests_def sampleHash_def isHex_def codePoint_def list_all_iff)

lemma sgosSha256_digest: "hexDigests H \<Longrightarrow> digestCheck (JStr (sgosSha256 H v)) = Inr ()"
  by (simp add: hexDigests_def digestCheck_def sha256Pattern_def sgosSha256_def recordSha256_def startsWith_def)

end
