(* ===== verification/SgosContractsWork.thy ===== *)
theory SgosContractsWork
  imports SgosContract SgosJoins SgosResources
begin

text \<open>
  The record families of \<open>src/sgos/contracts.mjs\<close> that describe work before it runs: the
  intent envelope, the intent, the workflow, its ratification, the policy snapshot, the candidate
  snapshot and the resource lease. Every validator follows the order of the guards in the source.
\<close>

section \<open>Vocabularies\<close>

definition intentSourceKinds :: "string list" where
  "intentSourceKinds = [''natural-language'', ''structured-api'', ''jira-issue'', ''document'', ''goal'',
     ''incident-event'', ''policy-change'', ''existing-adhoc-work'', ''scheduled-trigger'',
     ''external-system-signal'']"

definition intentProvenance :: "string list" where
  "intentProvenance = [''explicit'', ''human-confirmed'', ''source-imported'', ''policy-derived'',
     ''domain-derived'', ''deterministic-derived'', ''model-proposed'', ''defaulted'', ''reverse-converged'']"

definition workflowConstructs :: "string list" where
  "workflowConstructs = [''task'', ''sequence'', ''parallel'', ''foreach'', ''bounded-loop'', ''condition'',
     ''human-request'', ''join'', ''merge'', ''subprocess'', ''compensation'', ''checkpoint'', ''end'']"

definition policyDigestFields :: "string list" where
  "policyDigestFields = [''lawSha256'', ''registrySha256'', ''executionUnitPolicySha256'',
     ''devicePolicySha256'', ''storagePolicySha256'', ''memoryPolicySha256'', ''humanAuthoritySha256'',
     ''governedRootsSha256'', ''verificationPolicySha256'', ''publicationPolicySha256'']"

text \<open>Every field of the family is allowed and required.\<close>

definition fullBase :: "hash_function \<Rightarrow> string \<Rightarrow> string list \<Rightarrow> jsval \<Rightarrow> bool \<Rightarrow> unit result" where
  "fullBase H family names r b = validateBase H family names names r b"

definition exactly :: "jsval \<Rightarrow> string list \<Rightarrow> unit result" where
  "exactly v names = checks [exactKeys v names, requireKeys v names]"

text \<open>
  \<open>[...v]\<close>, \<open>[...v].sort(order)\<close> for an order that reads a property of its arguments, and
  \<open>[...new Set(v)].sort(compareSgosCodePoints)\<close>, on the JSON value \<open>cloneJson\<close> returned: no
  element is undefined, and objects are distinct from each other.
\<close>

definition spreadArray :: "jsval \<Rightarrow> jsval list result" where
  "spreadArray v =
     (case v of JArr xs \<Rightarrow> Inr xs | JStr s \<Rightarrow> Inr (map (\<lambda>c. JStr [c]) s) | _ \<Rightarrow> Inl NativeError)"

definition sortSpread :: "(jsval \<Rightarrow> jsval \<Rightarrow> int) \<Rightarrow> jsval \<Rightarrow> jsval list result" where
  "sortSpread cmp v = andThen (spreadArray v) (\<lambda>xs.
     if 2 \<le> length xs \<and> JNull \<in> set xs then Inl NativeError else Inr (sortBy cmp xs))"

fun isPrimitive :: "jsval \<Rightarrow> bool" where
  "isPrimitive (JArr _) = False" | "isPrimitive (JObj _) = False" | "isPrimitive _ = True"

fun jsSet :: "jsval list \<Rightarrow> jsval list" where
  "jsSet [] = []"
| "jsSet (x # xs) = x # (if isPrimitive x then removeAll x (jsSet xs) else jsSet xs)"

definition sortedSet :: "jsval \<Rightarrow> jsval list result" where
  "sortedSet v = andThen (if nullish v then Inr [] else spreadArray v)
     (\<lambda>xs. Inr (sortBy (byKey jsString) (jsSet xs)))"

definition byField :: "string \<Rightarrow> jsval \<Rightarrow> jsval \<Rightarrow> int" where
  "byField k = byKey (\<lambda>v. jsString (getp v k))"

text \<open>\<open>xs.some((x, i) => i > 0 && cmp(xs[i - 1], x) >= 0)\<close> refuses.\<close>

definition strictlySorted :: "(jsval \<Rightarrow> jsval \<Rightarrow> int) \<Rightarrow> jsval \<Rightarrow> unit result" where
  "strictlySorted cmp v = must (list_all (\<lambda>(x, y). cmp x y < 0) (adjacentPairs (elements v)))"

text \<open>\<open>{ ...record, a: v, b: w }\<close>.\<close>

definition overwrite :: "jsval \<Rightarrow> fields \<Rightarrow> jsval" where
  "overwrite v fs = JObj (spread (fieldsOf v) fs)"

section \<open>Intent\<close>

definition normativeClause :: "jsval \<Rightarrow> unit result" where
  "normativeClause v = checks
     [exactKeys v [''id'', ''clauseId'', ''statement'', ''value'', ''provenance'', ''required'', ''sourceRef'',
        ''category'', ''severity''],
      must (truthy (getp v ''id'') \<or> truthy (getp v ''clauseId'')),
      whenPresent (getp v ''id'') (stringCheck (getp v ''id'')),
      whenPresent (getp v ''clauseId'') (stringCheck (getp v ''clauseId'')),
      must (\<not> nullish (getp v ''statement'') \<or> \<not> nullish (getp v ''value'')),
      whenPresent (getp v ''statement'') (stringCheck (getp v ''statement'')),
      whenPresent (getp v ''value'') (jsonCheck (getp v ''value'')),
      enumerationCheck intentProvenance (getp v ''provenance''),
      whenPresent (getp v ''required'') (booleanCheck (getp v ''required'')),
      whenPresent (getp v ''sourceRef'') (stringCheck (getp v ''sourceRef'')),
      whenPresent (getp v ''category'') (stringCheck (getp v ''category'')),
      whenPresent (getp v ''severity'')
        (enumerationCheck [''low'', ''medium'', ''high'', ''critical''] (getp v ''severity''))]"

definition normativeArray :: "jsval \<Rightarrow> unit result" where
  "normativeArray v = arrayOf normativeClause v"

definition attachmentCheck :: "jsval \<Rightarrow> unit result" where
  "attachmentCheck v = checks
     [exactly v [''ref'', ''sha256'', ''mediaType''],
      stringCheck (getp v ''ref''), digestCheck (getp v ''sha256''), stringCheck (getp v ''mediaType'')]"

definition intentEnvelopeFields :: "string list" where
  "intentEnvelopeFields =
     [''intentId'', ''generation'', ''principal'', ''source'', ''rawRef'', ''rawSha256'', ''attachments'',
      ''capturedAt'']"

definition validateIntentEnvelopeRecord :: "hash_function \<Rightarrow> validator" where
  "validateIntentEnvelopeRecord H r b = (let src = getp r ''source'' in checks
     [fullBase H ''intent-envelope'' intentEnvelopeFields r b,
      identifierCheck ''INT'' (getp r ''intentId''),
      integerCheck 1 (getp r ''generation''),
      principalCheck (getp r ''principal''),
      exactly src [''kind'', ''revision''],
      enumerationCheck intentSourceKinds (getp src ''kind''),
      unlessNull (getp src ''revision'') (stringCheck (getp src ''revision'')),
      stringCheck (getp r ''rawRef''),
      digestCheck (getp r ''rawSha256''),
      arrayOf attachmentCheck (getp r ''attachments''),
      timestampCheck (getp r ''capturedAt'')])"

definition createIntentEnvelope :: "hash_function \<Rightarrow> jsval \<Rightarrow> jsval result" where
  "createIntentEnvelope H = createContract H ''intent-envelope'' (validateIntentEnvelopeRecord H) unprepared
     (pick [''generation'', ''principal'', ''source'', ''rawSha256''])"

definition validateIntentEnvelope :: "hash_function \<Rightarrow> jsval \<Rightarrow> jsval result" where
  "validateIntentEnvelope H = returnValidated (validateIntentEnvelopeRecord H)"

definition intentArrays :: "string list" where
  "intentArrays = [''outcomes'', ''successCriteria'', ''constraints'', ''invariants'', ''preferences'',
     ''nonGoals'', ''assumptions'', ''unknowns'', ''contradictions'', ''risks'', ''evidenceExpectations'',
     ''authorityRequirements'', ''budgets'', ''domainCandidates'', ''workTypeCandidates'']"

definition validateIntentIrRecord :: "hash_function \<Rightarrow> validator" where
  "validateIntentIrRecord H r b = (let objective = getp r ''objective'' in checks
     [fullBase H ''intent-ir'' ([''intentId'', ''generation'', ''objective''] @ intentArrays @ [''subjects'']) r b,
      identifierCheck ''INT'' (getp r ''intentId''),
      integerCheck 1 (getp r ''generation''),
      exactKeys objective [''statement'', ''provenance'', ''sourceRef''],
      requireKeys objective [''statement'', ''provenance''],
      stringCheck (getp objective ''statement''),
      enumerationCheck intentProvenance (getp objective ''provenance''),
      whenPresent (getp objective ''sourceRef'') (stringCheck (getp objective ''sourceRef'')),
      fieldsEach normativeArray r intentArrays,
      arrayOf subjectCheck (getp r ''subjects'')])"

definition createIntentIr :: "hash_function \<Rightarrow> jsval \<Rightarrow> jsval result" where
  "createIntentIr H = createContract H ''intent-ir'' (validateIntentIrRecord H) unprepared
     (pick [''generation'', ''objective'', ''subjects''])"

definition validateIntentIr :: "hash_function \<Rightarrow> jsval \<Rightarrow> jsval result" where
  "validateIntentIr H = returnValidated (validateIntentIrRecord H)"

section \<open>Workflow\<close>

definition validateResourceContract :: "jsval \<Rightarrow> unit result" where
  "validateResourceContract v = checks
     [exactly v [''reads'', ''writes'', ''devices'', ''externalEffects''],
      fieldsEach stringArray v [''reads'', ''writes'', ''devices'', ''externalEffects'']]"

definition workflowTaskFields :: "string list" where
  "workflowTaskFields =
     [''id'', ''taskId'', ''kind'', ''opcode'', ''operation'', ''dependsOn'', ''resources'', ''evidence'',
      ''authority'', ''recovery'', ''intentClauseIds'', ''material'', ''condition'', ''body'', ''items'',
      ''over'', ''itemKey'', ''maximumIterations'', ''maximumItems'', ''maximumParallel'', ''subprocess'',
      ''compensation'', ''checkpoint'', ''metadata'', ''inputs'', ''outputs'', ''timeoutMs'', ''retry'',
      ''policySnapshotSha256'']"

definition freeFormTaskFields :: "string list" where
  "freeFormTaskFields =
     [''evidence'', ''authority'', ''recovery'', ''condition'', ''body'', ''items'', ''subprocess'',
      ''compensation'', ''checkpoint'', ''metadata'', ''inputs'', ''outputs'', ''retry'']"

definition optionally :: "jsval \<Rightarrow> string \<Rightarrow> (jsval \<Rightarrow> unit result) \<Rightarrow> unit result" where
  "optionally v k c = whenPresent (getp v k) (c (getp v k))"

definition validateWorkflowTask :: "string option \<Rightarrow> jsval \<Rightarrow> unit result" where
  "validateWorkflowTask keyedId v =
     (let keyed = (case keyedId of None \<Rightarrow> JNull | Some k \<Rightarrow> JStr k);
          tid = coalesceAll [getp v ''id'', getp v ''taskId'', keyed] in checks
     [exactKeys v workflowTaskFields,
      requireKeys v [''kind''],
      stringCheck tid,
      must (truthy keyed \<longrightarrow> tid = keyed),
      enumerationCheck workflowConstructs (getp v ''kind''),
      optionally v ''opcode'' (enumerationCheck (map opcodeName gvmOpcodes)),
      optionally v ''operation'' (patternCheck operationText),
      optionally v ''dependsOn'' stringArray,
      optionally v ''resources'' validateResourceContract,
      optionally v ''intentClauseIds'' stringArray,
      optionally v ''material'' booleanCheck,
      optionally v ''maximumIterations'' (integerCheck 1),
      optionally v ''maximumItems'' (integerCheck 0),
      optionally v ''maximumParallel'' (integerCheck 1),
      optionally v ''over'' stringCheck,
      optionally v ''itemKey'' stringCheck,
      optionally v ''timeoutMs'' (integerCheck 1),
      optionally v ''policySnapshotSha256'' digestCheck,
      eachOf (\<lambda>k. optionally v k jsonCheck) freeFormTaskFields])"

definition coverageLink :: "jsval \<Rightarrow> unit result" where
  "coverageLink v = checks
     [exactKeys v [''kind'', ''targetId'', ''sourceId''],
      requireKeys v [''kind''],
      stringCheck (getp v ''kind''),
      optionally v ''targetId'' stringCheck,
      optionally v ''sourceId'' stringCheck,
      must (\<not> nullish (getp v ''targetId'') \<or> \<not> nullish (getp v ''sourceId''))]"

definition coverageDirection :: "jsval \<Rightarrow> unit result" where
  "coverageDirection v = checks
     [objectCheck v,
      eachOf (\<lambda>(k, links). checks [stringCheck (JStr k), arrayOf coverageLink links]) (entries v)]"

definition validateIntentWorkflowMap :: "jsval \<Rightarrow> unit result" where
  "validateIntentWorkflowMap v = checks
     [exactly v [''clauses'', ''tasks''], fieldsEach coverageDirection v [''clauses'', ''tasks'']]"

definition validateSgosIntentWorkflowMap :: "jsval \<Rightarrow> jsval result" where
  "validateSgosIntentWorkflowMap v = andThen (validateIntentWorkflowMap v) (\<lambda>_. cloneJson v)"

definition workflowTasks :: "jsval \<Rightarrow> unit result" where
  "workflowTasks v =
     (if isArray v then eachOf (validateWorkflowTask None) (elements v)
      else checks [objectCheck v, eachOf (\<lambda>(k, t). validateWorkflowTask (Some k) t) (entries v)])"

definition workflowSpecFields :: "string list" where
  "workflowSpecFields = [''inputs'', ''tasks'', ''joins'', ''terminalConditions'', ''budgets'', ''recovery'',
     ''evidence'', ''authority'', ''storageRequirements'']"

definition workflowIrFields :: "string list" where
  "workflowIrFields = [''apiVersion'', ''workflowId'', ''version'', ''intentIrSha256'',
     ''policySnapshotSha256'', ''metadata'', ''spec'']"

definition validateWorkflowIrRecord :: "hash_function \<Rightarrow> validator" where
  "validateWorkflowIrRecord H r b = (let metadata = getp r ''metadata''; spec = getp r ''spec'' in checks
     [fullBase H ''workflow-ir'' workflowIrFields r b,
      must (getp r ''apiVersion'' = JStr ''sflow/v1''),
      identifierCheck ''WFL'' (getp r ''workflowId''),
      stringCheck (getp r ''version''),
      digestCheck (getp r ''intentIrSha256''),
      digestCheck (getp r ''policySnapshotSha256''),
      exactKeys metadata [''id'', ''version'', ''domainPack'', ''domainPackSha256'', ''title''],
      requireKeys metadata [''id'', ''version'', ''domainPack''],
      stringCheck (getp metadata ''id''),
      stringCheck (getp metadata ''version''),
      stringCheck (getp metadata ''domainPack''),
      optionally metadata ''domainPackSha256'' digestCheck,
      optionally metadata ''title'' stringCheck,
      exactKeys spec (workflowSpecFields @ [''intentWorkflowMap'']),
      requireKeys spec workflowSpecFields,
      objectCheck (getp spec ''inputs''),
      workflowTasks (getp spec ''tasks''),
      objectCheck (getp spec ''joins''),
      arrayCheck (getp spec ''terminalConditions''),
      fieldsEach objectCheck spec [''budgets'', ''recovery'', ''evidence'', ''authority'', ''storageRequirements''],
      optionally spec ''intentWorkflowMap'' validateIntentWorkflowMap])"

definition createWorkflowIr :: "hash_function \<Rightarrow> jsval \<Rightarrow> jsval result" where
  "createWorkflowIr H = createContract H ''workflow-ir'' (validateWorkflowIrRecord H) unprepared
     (pick [''intentIrSha256'', ''version'', ''metadata'', ''spec''])"

definition validateWorkflowIr :: "hash_function \<Rightarrow> jsval \<Rightarrow> jsval result" where
  "validateWorkflowIr H = returnValidated (validateWorkflowIrRecord H)"

section \<open>Ratification and policy\<close>

definition ratifiedDigests :: "string list" where
  "ratifiedDigests = [''intentIrSha256'', ''workflowSha256'', ''policySnapshotSha256'',
     ''registrySnapshotSha256'', ''storageProfileSha256'', ''packetSha256'']"

definition validateWorkflowRatificationRecord :: "hash_function \<Rightarrow> validator" where
  "validateWorkflowRatificationRecord H r b =
     (let required = [''ratificationId''] @ ratifiedDigests @ [''decision'', ''principal'', ''decidedAt''] in checks
     [validateBase H ''workflow-ratification'' (required @ [''intentWorkflowMap'', ''coverage'']) required r b,
      identifierCheck ''RAT'' (getp r ''ratificationId''),
      fieldsEach digestCheck r ratifiedDigests,
      enumerationCheck [''ratified'', ''approved'', ''rejected'', ''changes-requested''] (getp r ''decision''),
      principalCheck (getp r ''principal''),
      optionally r ''intentWorkflowMap'' validateIntentWorkflowMap,
      optionally r ''coverage'' validateIntentWorkflowMap,
      timestampCheck (getp r ''decidedAt'')])"

definition createWorkflowRatification :: "hash_function \<Rightarrow> jsval \<Rightarrow> jsval result" where
  "createWorkflowRatification H = createContract H ''workflow-ratification''
     (validateWorkflowRatificationRecord H) unprepared
     (pick [''workflowSha256'', ''packetSha256'', ''decision'', ''principal''])"

definition validateWorkflowRatification :: "hash_function \<Rightarrow> jsval \<Rightarrow> jsval result" where
  "validateWorkflowRatification H = returnValidated (validateWorkflowRatificationRecord H)"

definition validatePolicySnapshotRecord :: "hash_function \<Rightarrow> validator" where
  "validatePolicySnapshotRecord H r b = checks
     [fullBase H ''policy-snapshot'' ([''policyId'', ''authorityRevision''] @ policyDigestFields) r b,
      identifierCheck ''POL'' (getp r ''policyId''),
      stringCheck (getp r ''authorityRevision''),
      fieldsEach digestCheck r policyDigestFields]"

definition createPolicySnapshot :: "hash_function \<Rightarrow> jsval \<Rightarrow> jsval result" where
  "createPolicySnapshot H = createContract H ''policy-snapshot'' (validatePolicySnapshotRecord H) unprepared
     (pick (''authorityRevision'' # policyDigestFields))"

definition validatePolicySnapshot :: "hash_function \<Rightarrow> jsval \<Rightarrow> jsval result" where
  "validatePolicySnapshot H = returnValidated (validatePolicySnapshotRecord H)"

definition policyComponentSha256 :: "hash_function \<Rightarrow> jsval \<Rightarrow> string result" where
  "policyComponentSha256 H value = andThen (cloneJson value) (\<lambda>v.
     sha256Json H (JObj [(''kind'', JStr ''policy-component''), (''value'', v)]))"

end
