(* ===== verification/SgosCandidates.thy ===== *)
theory SgosCandidates
  imports SgosContractsWork
begin

text \<open>
  Candidate snapshots of \<open>src/sgos/contracts.mjs\<close>: the sorted list of changed repository paths
  with the digests that bind it to its subject and baseline.
\<close>

section \<open>Candidate resources\<close>

definition candidateOperations :: "string list" where
  "candidateOperations = [''added'', ''modified'', ''deleted'', ''renamed'', ''copied'', ''type-changed'']"

definition candidateTypes :: "string list" where
  "candidateTypes = [''file'', ''symlink'', ''directory'']"

definition candidateModes :: "string list" where
  "candidateModes = [''100644'', ''100755'', ''120000'', ''040000'']"

definition candidateResourceFields :: "string list" where
  "candidateResourceFields =
     [''path'', ''type'', ''mode'', ''contentSha256'', ''operation'', ''renameFrom'', ''renameTo'', ''deletion'']"

definition validateCandidateResource :: "jsval \<Rightarrow> unit result" where
  "validateCandidateResource v =
     (let operation = getp v ''operation''; mode = getp v ''mode''; content = getp v ''contentSha256'';
          renameFrom = getp v ''renameFrom''; renameTo = getp v ''renameTo''; deletion = getp v ''deletion'' in checks
     [exactly v candidateResourceFields,
      repositoryPath (getp v ''path''),
      enumerationCheck candidateTypes (getp v ''type''),
      unlessNull mode (enumerationCheck candidateModes mode),
      unlessNull content (digestCheck content),
      enumerationCheck candidateOperations operation,
      unlessNull renameFrom (repositoryPath renameFrom),
      unlessNull renameTo (repositoryPath renameTo),
      booleanCheck deletion,
      (if operation = JStr ''deleted''
       then must (truthy deletion \<and> content = JNull \<and> mode = JNull)
       else must (\<not> truthy deletion \<and> content \<noteq> JNull \<and> mode \<noteq> JNull)),
      (if operation = JStr ''renamed''
       then must (renameFrom \<noteq> JNull \<and> renameTo \<noteq> JNull \<and> getp v ''path'' = renameTo)
       else must (renameFrom = JNull \<and> renameTo = JNull)),
      must (\<not> ((getp v ''type'' = JStr ''symlink'') \<noteq> (mode = JStr ''120000'') \<and> operation \<noteq> JStr ''deleted''))])"

definition candidateResourceOrder :: "jsval \<Rightarrow> jsval \<Rightarrow> int" where
  "candidateResourceOrder = thenBy (byField ''path'') (thenBy (byField ''operation'') (byField ''renameFrom''))"

definition candidateManifestSha256 :: "hash_function \<Rightarrow> jsval \<Rightarrow> string result" where
  "candidateManifestSha256 H resources = andThen (cloneJson resources) (\<lambda>manifest.
     andThen (arrayOf validateCandidateResource manifest) (\<lambda>_.
       sha256Json H (JObj [(''schemaVersion'', JNum 1), (''kind'', JStr ''candidate-manifest''),
         (''resources'', JArr (sortBy candidateResourceOrder (elements manifest)))])))"

definition logicalSnapshotSha256 :: "hash_function \<Rightarrow> jsval \<Rightarrow> jsval \<Rightarrow> jsval \<Rightarrow> string result" where
  "logicalSnapshotSha256 H subject baselineSha256 manifestSha256 =
     sha256Json H (JObj [(''kind'', JStr ''candidate-logical-snapshot''), (''subject'', subject),
       (''baselineSnapshotSha256'', baselineSha256), (''manifestSha256'', manifestSha256)])"

text \<open>\<open>record.baseline?.snapshotSha256\<close> is \<open>getp\<close>, which is undefined on a nullish value.\<close>

definition suppliedCandidate :: "jsval \<Rightarrow> string \<Rightarrow> string \<Rightarrow> unit result" where
  "suppliedCandidate candidate manifestSha256 snapshotSha256 = whenPresent candidate (checks
     [exactKeys candidate [''snapshotSha256'', ''manifestSha256''],
      optionally candidate ''manifestSha256'' (\<lambda>v. must (v = JStr manifestSha256)),
      optionally candidate ''snapshotSha256'' (\<lambda>v. must (v = JStr snapshotSha256))])"

definition prepareCandidate :: "hash_function \<Rightarrow> jsval \<Rightarrow> jsval result" where
  "prepareCandidate H r =
     andThen (arrayCheck (getp r ''resources'')) (\<lambda>_.
     andThen (sortSpread candidateResourceOrder (getp r ''resources'')) (\<lambda>resources.
     andThen (eachOf validateCandidateResource resources) (\<lambda>_.
     andThen (must (length (dedupe (map (\<lambda>v. getp v ''path'') resources)) = length resources)) (\<lambda>_.
     andThen (candidateManifestSha256 H (JArr resources)) (\<lambda>manifestSha256.
     andThen (logicalSnapshotSha256 H (getp r ''subject'') (getp (getp r ''baseline'') ''snapshotSha256'')
               (JStr manifestSha256)) (\<lambda>snapshotSha256.
     andThen (suppliedCandidate (getp r ''candidate'') manifestSha256 snapshotSha256) (\<lambda>_.
       Inr (overwrite r [(''resources'', JArr resources),
         (''candidate'', JObj [(''snapshotSha256'', JStr snapshotSha256),
           (''manifestSha256'', JStr manifestSha256)])]))))))))"

definition candidateSnapshotFields :: "string list" where
  "candidateSnapshotFields =
     [''candidateId'', ''subject'', ''baseline'', ''candidate'', ''resources'', ''createdBy'', ''createdAt'']"

definition validateCandidateSnapshotRecord :: "hash_function \<Rightarrow> validator" where
  "validateCandidateSnapshotRecord H r b =
     (let baseline = getp r ''baseline''; candidate = getp r ''candidate''; resources = getp r ''resources'' in checks
     [fullBase H ''candidate-snapshot'' candidateSnapshotFields r b,
      identifierCheck ''CAN'' (getp r ''candidateId''),
      subjectCheck (getp r ''subject''),
      exactly baseline [''revision'', ''snapshotSha256''],
      stringCheck (getp baseline ''revision''),
      digestCheck (getp baseline ''snapshotSha256''),
      exactly candidate [''snapshotSha256'', ''manifestSha256''],
      digestCheck (getp candidate ''snapshotSha256''),
      digestCheck (getp candidate ''manifestSha256''),
      arrayOf validateCandidateResource resources,
      must (list_all (\<lambda>(x, y). candidateResourceOrder x y \<le> 0) (adjacentPairs (elements resources))),
      andThen (candidateManifestSha256 H resources) (\<lambda>m. must (JStr m = getp candidate ''manifestSha256'')),
      andThen (logicalSnapshotSha256 H (getp r ''subject'') (getp baseline ''snapshotSha256'')
        (getp candidate ''manifestSha256'')) (\<lambda>s. must (JStr s = getp candidate ''snapshotSha256'')),
      principalCheck (getp r ''createdBy''),
      timestampCheck (getp r ''createdAt'')])"

definition createCandidateSnapshot :: "hash_function \<Rightarrow> jsval \<Rightarrow> jsval result" where
  "createCandidateSnapshot H = createContract H ''candidate-snapshot'' (validateCandidateSnapshotRecord H)
     (prepareCandidate H) (pick [''subject'', ''baseline'', ''candidate'', ''resources''])"

definition validateCandidateSnapshot :: "hash_function \<Rightarrow> jsval \<Rightarrow> jsval result" where
  "validateCandidateSnapshot H = returnValidated (validateCandidateSnapshotRecord H)"

section \<open>Candidate snapshots are canonical\<close>

interpretation candidates: sort_comparator candidateResourceOrder
  unfolding candidateResourceOrder_def
  by unfold_locales (auto simp: thenBy_def byField_def byKey_def compare_simps split: if_splits)

lemma candidateResourceOrder_path:
  "candidateResourceOrder x y \<le> 0 \<Longrightarrow> jsString (getp x ''path'') \<le> jsString (getp y ''path'')"
  by (auto simp: candidateResourceOrder_def thenBy_def byField_def byKey_def compare_simps split: if_splits)

lemma validResource_path: "validateCandidateResource v = Inr () \<Longrightarrow> isString (getp v ''path'')"
  by (auto simp: validateCandidateResource_def Let_def andThen_Inr repositoryPath_def patternCheck_def nonBlank_def)

definition resourcePath :: "jsval \<Rightarrow> string" where
  "resourcePath v = stringOf (getp v ''path'')"

lemma valid_paths:
  assumes "\<forall>v \<in> set xs. validateCandidateResource v = Inr ()"
  shows "distinct (map (\<lambda>v. getp v ''path'') xs) \<longleftrightarrow> distinct (map resourcePath xs)"
    and "v \<in> set xs \<Longrightarrow> jsString (getp v ''path'') = resourcePath v"
proof -
  have str: "getp v ''path'' = JStr (resourcePath v)" if "v \<in> set xs" for v
    using validResource_path assms that by (fastforce simp: isString_iff resourcePath_def)
  then have "map (\<lambda>v. getp v ''path'') xs = map JStr (map resourcePath xs)" by auto
  then show "distinct (map (\<lambda>v. getp v ''path'') xs) \<longleftrightarrow> distinct (map resourcePath xs)"
    by (simp only: distinct_map [of JStr] inj_on_def) auto
  show "v \<in> set xs \<Longrightarrow> jsString (getp v ''path'') = resourcePath v" by (simp add: str)
qed

text \<open>Resources with distinct paths have one sorted arrangement.\<close>

lemma candidates_sort_perm:
  assumes "mset ys = mset xs" "\<forall>v \<in> set xs. validateCandidateResource v = Inr ()"
    and "distinct (map (\<lambda>v. getp v ''path'') xs)"
  shows "sortBy candidateResourceOrder ys = sortBy candidateResourceOrder xs"
proof (rule sym, rule candidates.sortBy_perm)
  show "mset xs = mset ys" using assms(1) by simp
  fix x y assume "x \<in> set xs" "y \<in> set xs" "candidateResourceOrder x y \<le> 0" "candidateResourceOrder y x \<le> 0"
  then have "resourcePath x = resourcePath y"
    using candidateResourceOrder_path [of x y] candidateResourceOrder_path [of y x] valid_paths(2) [OF assms(2)]
    by (metis antisym)
  then show "x = y"
    using \<open>x \<in> set xs\<close> \<open>y \<in> set xs\<close> assms(3) valid_paths(1) [OF assms(2)]
    by (auto simp: distinct_map dest: inj_onD)
qed

lemma prepareCandidate_Inr:
  assumes "prepareCandidate H (JObj fs) = Inr p"
  obtains xs m s where "getp (JObj fs) ''resources'' = JArr xs" "\<not> (2 \<le> length xs \<and> JNull \<in> set xs)"
    "\<forall>v \<in> set xs. validateCandidateResource v = Inr ()" "distinct (map (\<lambda>v. getp v ''path'') xs)"
    "candidateManifestSha256 H (JArr (sortBy candidateResourceOrder xs)) = Inr m"
    "logicalSnapshotSha256 H (getp (JObj fs) ''subject'')
       (getp (getp (JObj fs) ''baseline'') ''snapshotSha256'') (JStr m) = Inr s"
    "suppliedCandidate (getp (JObj fs) ''candidate'') m s = Inr ()"
    "p = JObj (setField ''candidate'' (JObj [(''snapshotSha256'', JStr s), (''manifestSha256'', JStr m)])
           (setField ''resources'' (JArr (sortBy candidateResourceOrder xs)) fs))"
  using assms unfolding prepareCandidate_def andThen_Inr
  by (auto simp: arrayCheck_def isArray_iff sortSpread_def spreadArray_def eachOf_Inr overwrite_def spread_fields
      length_dedupe simp del: getp.simps split: if_splits)

section \<open>Properties of candidate snapshots\<close>

lemma candidate_contract:
  "descriptorHash (contractOf ''candidate-snapshot'') = ''candidateSha256''"
  "descriptorId (contractOf ''candidate-snapshot'') = Some ''candidateId''"
  by code_simp+


text \<open>
  C34: The order in which the changed resources are listed is not an input: a snapshot created from
  any arrangement of them is the same record, with the same identifier and digest.
\<close>
theorem candidate_order_independent:
  assumes "createCandidateSnapshot H (JObj fs) = Inr r"
    and "map_of fs ''resources'' = Some (JArr xs)" and "mset ys = mset xs"
  shows "createCandidateSnapshot H (JObj (setField ''resources'' (JArr ys) fs)) = Inr r"
  unfolding createCandidateSnapshot_def
proof (rule createContract_setField [OF assms(1) [unfolded createCandidateSnapshot_def]])
  have key: "''resources'' \<in> fst ` set fs" using assms(2) by (metis domI dom_map_of_conv_image_fst)
  from createContract_Inr [OF assms(1) [unfolded createCandidateSnapshot_def]] obtain p where
    safe: "jsonSafe (JObj fs)" and p: "prepareCandidate H (stampedRecord ''candidate-snapshot'' fs) = Inr p"
    by (metis fieldsOf.simps(1))
  show "jsonSafe (JArr ys)"
    using safe map_of_SomeD [OF assms(2)] mset_eq_setD [OF assms(3)] by (fastforce simp: list_all_iff)
  obtain st where st: "stampedRecord ''candidate-snapshot'' fs = JObj st" by (simp add: stampedRecord_def)
  from prepareCandidate_Inr [OF p [unfolded st]] obtain zs where
    x: "getp (JObj st) ''resources'' = JArr zs" "\<not> (2 \<le> length zs \<and> JNull \<in> set zs)"
      "\<forall>v \<in> set zs. validateCandidateResource v = Inr ()" "distinct (map (\<lambda>v. getp v ''path'') zs)" .
  have "zs = xs"
    using x(1) st assms(2) stamped_field [of "''resources''" "''candidate-snapshot''" fs]
    by (auto simp: candidate_contract)
  note x = x [unfolded this]
  have "length ys = length xs" "set ys = set xs" using assms(3) by (auto dest: mset_eq_length mset_eq_setD)
  then have "sortSpread candidateResourceOrder (JArr ys) = sortSpread candidateResourceOrder (JArr xs)"
    using x(2) candidates_sort_perm [OF assms(3) x(3,4)] by (simp add: sortSpread_def spreadArray_def)
  moreover have "stampedRecord ''candidate-snapshot'' (setField ''resources'' (JArr ys) fs)
      = JObj (setField ''resources'' (JArr ys) st)"
    using stamped_setField [OF key] st by (simp add: candidate_contract)
  ultimately show "prepareCandidate H (stampedRecord ''candidate-snapshot'' (setField ''resources'' (JArr ys) fs))
      = prepareCandidate H (stampedRecord ''candidate-snapshot'' fs)"
    using x(1) unfolding st prepareCandidate_def
    by (simp add: getp_setField arrayCheck_def overwrite_def spread_fields del: getp.simps)
qed (simp_all add: candidate_contract unsafeKeys_def)

section \<open>Examples\<close>

definition sampleResource :: "string \<Rightarrow> string \<Rightarrow> jsval" where
  "sampleResource path operation = JObj
     [(''path'', JStr path), (''type'', JStr ''file''), (''mode'', JStr ''100644''),
      (''contentSha256'', JStr sampleDigest), (''operation'', JStr operation), (''renameFrom'', JNull),
      (''renameTo'', JNull), (''deletion'', JBool False)]"

definition candidateSource :: "jsval list \<Rightarrow> fields" where
  "candidateSource resources =
     [(''subject'', JObj [(''kind'', JStr ''story''), (''id'', JStr ''S-1'')]),
      (''baseline'', JObj [(''revision'', JStr ''r1''), (''snapshotSha256'', JStr sampleDigest)]),
      (''resources'', JArr resources),
      (''createdBy'', JObj [(''id'', JStr ''u''), (''kind'', JStr ''human'')]),
      (''createdAt'', JStr ''2024-01-01T00:00:00Z'')]"

definition twoResources :: "jsval list" where
  "twoResources = [sampleResource ''src/b'' ''added'', sampleResource ''src/a'' ''modified'']"

definition sampleCandidate :: jsval where
  "sampleCandidate = projr (createCandidateSnapshot sampleHash (JObj (candidateSource twoResources)))"

lemma sampleCandidate_created:
  "createCandidateSnapshot sampleHash (JObj (candidateSource twoResources)) = Inr sampleCandidate"
proof -
  have "\<not> isl (createCandidateSnapshot sampleHash (JObj (candidateSource twoResources)))" by code_simp
  then show ?thesis by (simp add: sampleCandidate_def sum.expand isl_def split: sum.splits)
qed


theorem candidate_order_independent_witness:
  "createCandidateSnapshot sampleHash (JObj (setField ''resources'' (JArr (rev twoResources)) (candidateSource twoResources)))
     = Inr sampleCandidate"
  by (rule candidate_order_independent [OF sampleCandidate_created, of twoResources])
    (simp_all add: candidateSource_def)

section \<open>Repeated paths\<close>

definition repeatedPath :: "jsval list" where
  "repeatedPath = [sampleResource ''src/a'' ''added'', sampleResource ''src/a'' ''modified'']"

definition manifestOf :: "hash_function \<Rightarrow> jsval list \<Rightarrow> string" where
  "manifestOf H resources = sgosSha256 H (JObj [(''schemaVersion'', JNum 1), (''kind'', JStr ''candidate-manifest''),
     (''resources'', JArr resources)])"

definition repeatedCore :: "hash_function \<Rightarrow> fields" where
  "repeatedCore H = candidateSource repeatedPath @
     [(''candidate'', JObj
        [(''snapshotSha256'', JStr (sgosSha256 H (JObj [(''kind'', JStr ''candidate-logical-snapshot''),
            (''subject'', JObj [(''kind'', JStr ''story''), (''id'', JStr ''S-1'')]),
            (''baselineSnapshotSha256'', JStr sampleDigest), (''manifestSha256'', JStr (manifestOf H repeatedPath))]))),
         (''manifestSha256'', JStr (manifestOf H repeatedPath))]),
      (''candidateId'', JStr ''CAN-ABCDEF''), (''schemaVersion'', JNum 1), (''kind'', JStr ''candidate-snapshot'')]"

definition repeatedCandidate :: "hash_function \<Rightarrow> jsval" where
  "repeatedCandidate H = JObj (repeatedCore H @ [(''candidateSha256'', JStr (sgosSha256 H (JObj (repeatedCore H))))])"

lemma repeated_resources:
  "eachOf validateCandidateResource repeatedPath = Inr ()"
  "list_all (\<lambda>(x, y). candidateResourceOrder x y \<le> 0) (adjacentPairs repeatedPath)"
  "sortBy candidateResourceOrder repeatedPath = repeatedPath"
  "list_all jsonSafe repeatedPath"
  "JNull \<notin> set repeatedPath"
  "\<not> distinct (map (\<lambda>v. getp v ''path'') repeatedPath)"
  by code_simp+

lemma repeated_parts:
  "stringCheck (JStr ''r1'') = Inr ()"
  "subjectCheck (JObj [(''kind'', JStr ''story''), (''id'', JStr ''S-1'')]) = Inr ()"
  "principalCheck (JObj [(''id'', JStr ''u''), (''kind'', JStr ''human'')]) = Inr ()"
  "timestampCheck (JStr ''2024-01-01T00:00:00Z'') = Inr ()"
  "identifierCheck ''CAN'' (JStr ''CAN-ABCDEF'') = Inr ()"
  "digestCheck (JStr sampleDigest) = Inr ()"
  "currentSchemaVersion ''candidate-snapshot'' = 1"
  by code_simp+

lemma repeated_manifest: "candidateManifestSha256 H (JArr repeatedPath) = Inr (manifestOf H repeatedPath)"
  using repeated_resources
  by (simp add: candidateManifestSha256_def cloneJson_def arrayOf_def arrayCheck_def sha256Json_def manifestOf_def unsafeKeys_def)

lemma repeated_fields:
  "getp (repeatedCandidate H) ''resources'' = JArr repeatedPath"
  "getp (repeatedCandidate H) ''kind'' = JStr ''candidate-snapshot''"
  by (simp_all add: repeatedCandidate_def repeatedCore_def candidateSource_def)

text \<open>
  The reader accepts what the creator refuses. A record that lists one path twice, under two
  operations, passes \<open>validateCandidateSnapshot\<close> with its digests in order, because the validator
  only refuses resources out of order; \<open>createCandidateSnapshot\<close> refuses the same record.
\<close>
theorem repeated_path_accepted:
  assumes "hexDigests H"
  shows "validateCandidateSnapshot H (repeatedCandidate H) = Inr (repeatedCandidate H) \<and>
    createCandidateSnapshot H (repeatedCandidate H) = fail contractInvalid"
proof
  have digest: "digestCheck (JStr (sgosSha256 H v)) = Inr ()" "digestCheck (JStr (manifestOf H rs)) = Inr ()" for v rs
    using sgosSha256_digest [OF assms] by (simp_all add: manifestOf_def)
  have safe: "jsonSafe (repeatedCandidate H)"
    using repeated_resources(4)
    by (simp add: repeatedCandidate_def repeatedCore_def candidateSource_def unsafeKeys_def)
  have kind: "currentSchemaVersion ''candidate-snapshot'' = 1" by code_simp
  have "validateCandidateSnapshotRecord H (repeatedCandidate H) True = Inr ()"
    using repeated_resources repeated_parts repeated_manifest digest
    by (simp add: repeatedCandidate_def repeatedCore_def candidateSource_def validateCandidateSnapshotRecord_def
      fullBase_def validateBase_def Let_def exactly_def exactKeys_def requireKeys_def objectCheck_def hasOwn_def
      candidate_contract candidateSnapshotFields_def verifySelfHash_def arrayOf_def arrayCheck_def
      logicalSnapshotSha256_def sha256Json_def cloneJson_def unsafeKeys_def recordSelfSha256_def deleteField_def)
  then show "validateCandidateSnapshot H (repeatedCandidate H) = Inr (repeatedCandidate H)"
    using safe by (simp add: validateCandidateSnapshot_def returnValidated_def cloneJson_def)
  have stamped: "getp (stampedRecord ''candidate-snapshot'' (fieldsOf (repeatedCandidate H))) ''resources'' = JArr repeatedPath"
    using stamped_field [of "''resources''" "''candidate-snapshot''" "fieldsOf (repeatedCandidate H)"] repeated_fields(1)
    by (simp add: candidate_contract repeatedCandidate_def)
  have "prepareCandidate H (stampedRecord ''candidate-snapshot'' (fieldsOf (repeatedCandidate H))) = fail contractInvalid"
    using repeated_resources stamped length_dedupe [of "map (\<lambda>v. getp v ''path'') repeatedPath"]
    by (simp add: prepareCandidate_def arrayCheck_def sortSpread_def spreadArray_def list_all_iff)
  then show "createCandidateSnapshot H (repeatedCandidate H) = fail contractInvalid"
    using safe kind
    by (simp add: createCandidateSnapshot_def createContract_def Let_def cloneJson_def repeatedCandidate_def
      repeatedCore_def candidateSource_def candidate_contract)
qed
lemma repeated_path_accepted_witness:
  "validateCandidateSnapshot sampleHash (repeatedCandidate sampleHash) = Inr (repeatedCandidate sampleHash)"
  using repeated_path_accepted [OF sampleHash_hex] by simp

end
