(* ===== verification/SgosLeases.thy ===== *)
theory SgosLeases
  imports SgosContractsWork "HOL-Library.Product_Lexorder"
begin

text \<open>
  Resource leases of \<open>src/sgos/contracts.mjs\<close>: the sorted list of resource entries an attempt
  holds over a time interval. Every entry must be a canonical key of
  \<open>src/sgos/resource-contracts.mjs\<close>.
\<close>

section \<open>Time\<close>

text \<open>
  \<open>Date.parse\<close> of the language on texts of the checked timestamp shape: milliseconds since
  1970, and no value (\<open>NaN\<close>) where a component is out of range. A day the month does not have
  counts on into the next month, as \<open>MakeDay\<close> does; \<open>24:00:00\<close> is the end of the day.
\<close>

definition dayFromYear :: "int \<Rightarrow> int" where
  "dayFromYear y = 365 * (y - 1970) + (y - 1969) div 4 - (y - 1901) div 100 + (y - 1601) div 400"

definition leapYear :: "int \<Rightarrow> bool" where
  "leapYear y \<longleftrightarrow> y mod 4 = 0 \<and> (y mod 100 \<noteq> 0 \<or> y mod 400 = 0)"

definition daysBeforeMonth :: "int \<Rightarrow> nat \<Rightarrow> int" where
  "daysBeforeMonth y m = [0, 31, 59, 90, 120, 151, 181, 212, 243, 273, 304, 334] ! (m - 1)
     + (if 2 < m \<and> leapYear y then 1 else 0)"

definition textNumber :: "nat \<Rightarrow> nat \<Rightarrow> string \<Rightarrow> nat" where
  "textNumber start len s = decimalValue (take len (drop start s))"

definition milliseconds :: "string \<Rightarrow> nat" where
  "milliseconds digits = decimalValue (take 3 (digits @ ''000''))"

definition zoneOffset :: "string \<Rightarrow> int option" where
  "zoneOffset z =
     (if z = ''Z'' then Some 0
      else let h = textNumber 1 2 z; m = textNumber 4 2 z in
        if 23 < h \<or> 59 < m then None
        else Some ((if hd z = CHR ''-'' then -1 else 1) * int (60 * h + m)))"

definition parseDate :: "string \<Rightarrow> int option" where
  "parseDate s =
     (let y = int (textNumber 0 4 s); mo = textNumber 5 2 s; d = textNumber 8 2 s;
          h = textNumber 11 2 s; mi = textNumber 14 2 s; sec = textNumber 17 2 s;
          rest = drop 19 s;
          digits = (if rest \<noteq> [] \<and> hd rest = CHR ''.'' then takeWhile isDigit (tl rest) else []);
          zone = (if rest \<noteq> [] \<and> hd rest = CHR ''.'' then dropWhile isDigit (tl rest) else rest) in
      if mo < 1 \<or> 12 < mo \<or> d < 1 \<or> 31 < d \<or> 59 < mi \<or> 59 < sec
         \<or> 24 < h \<or> (h = 24 \<and> (mi \<noteq> 0 \<or> sec \<noteq> 0 \<or> milliseconds digits \<noteq> 0)) then None
      else map_option (\<lambda>offset.
        (((dayFromYear y + daysBeforeMonth y mo + int d - 1) * 24 + int h) * 60 + int mi - offset) * 60000
          + int sec * 1000 + int (milliseconds digits)) (zoneOffset zone))"

text \<open>\<open>Date.parse(a) <= Date.parse(b)\<close>; every comparison with \<open>NaN\<close> is false.\<close>

definition dateAtMost :: "string \<Rightarrow> string \<Rightarrow> bool" where
  "dateAtMost a b =
     (case parseDate a of None \<Rightarrow> False
      | Some x \<Rightarrow> (case parseDate b of None \<Rightarrow> False | Some y \<Rightarrow> x \<le> y))"

section \<open>Resource leases\<close>

definition resourceLeaseFields :: "string list" where
  "resourceLeaseFields =
     [''leaseId'', ''processId'', ''taskInstanceId'', ''attemptId'', ''resources'', ''acquiredAt'', ''expiresAt'']"

definition sgosResourceModes :: "string list" where
  "sgosResourceModes = [''read'', ''write'', ''device'', ''external-effect'']"

definition resourceLeaseEntryOrder :: "jsval \<Rightarrow> jsval \<Rightarrow> int" where
  "resourceLeaseEntryOrder = thenBy (byField ''key'') (byField ''mode'')"

definition leaseEntryCheck :: "jsval \<Rightarrow> unit result" where
  "leaseEntryCheck v = checks
     [exactly v [''key'', ''mode''],
      stringCheck (getp v ''key''),
      andThen (normalizeSgosResourceKey (getp v ''key'')) (\<lambda>k. must (JStr k = getp v ''key'')),
      enumerationCheck sgosResourceModes (getp v ''mode'')]"

definition validateResourceLeaseRecord :: "hash_function \<Rightarrow> validator" where
  "validateResourceLeaseRecord H r b = (let resources = getp r ''resources'' in checks
     [fullBase H ''resource-lease'' resourceLeaseFields r b,
      identifierCheck ''RLS'' (getp r ''leaseId''),
      identifierCheck ''PROC'' (getp r ''processId''),
      stringCheck (getp r ''taskInstanceId''),
      identifierCheck ''ATT'' (getp r ''attemptId''),
      arrayCheck resources,
      must (int (length (elements resources)) \<le> maximumResourceLeaseEntries),
      eachOf leaseEntryCheck (elements resources),
      strictlySorted resourceLeaseEntryOrder resources,
      timestampCheck (getp r ''acquiredAt''),
      timestampCheck (getp r ''expiresAt''),
      must (\<not> dateAtMost (stringOf (getp r ''expiresAt'')) (stringOf (getp r ''acquiredAt'')))])"

definition prepareResourceLease :: "jsval \<Rightarrow> jsval result" where
  "prepareResourceLease r =
     andThen (sortSpread resourceLeaseEntryOrder (getp r ''resources'')) (\<lambda>resources.
       Inr (overwrite r [(''resources'', JArr resources)]))"

definition createResourceLease :: "hash_function \<Rightarrow> jsval \<Rightarrow> jsval result" where
  "createResourceLease H = createContract H ''resource-lease'' (validateResourceLeaseRecord H) prepareResourceLease
     (pick [''processId'', ''taskInstanceId'', ''attemptId'', ''resources'', ''acquiredAt'', ''expiresAt''])"

definition validateResourceLease :: "hash_function \<Rightarrow> jsval \<Rightarrow> jsval result" where
  "validateResourceLease H = returnValidated (validateResourceLeaseRecord H)"

section \<open>Lemmas\<close>

lemma leaseOrder_less:
  "resourceLeaseEntryOrder x y < 0 \<longleftrightarrow>
     jsString (getp x ''key'') < jsString (getp y ''key'') \<or>
     (jsString (getp x ''key'') = jsString (getp y ''key'') \<and> jsString (getp x ''mode'') < jsString (getp y ''mode''))"
  by (auto simp: resourceLeaseEntryOrder_def thenBy_def byField_def byKey_def compare_simps)

lemma leaseOrder_transp: "transp (\<lambda>x y. resourceLeaseEntryOrder x y < 0)"
  by (rule transpI) (auto simp: leaseOrder_less)

lemma strictlySorted_lease:
  "strictlySorted resourceLeaseEntryOrder (JArr xs) = Inr () \<longleftrightarrow> sorted_wrt (\<lambda>x y. resourceLeaseEntryOrder x y < 0) xs"
  using adjacentPairs_sorted_wrt [OF leaseOrder_transp, of xs] by (simp add: strictlySorted_def list_all_iff)

definition leaseEntryValue :: "resource_entry \<Rightarrow> jsval" where
  "leaseEntryValue e = JObj [(''key'', JStr (entryKey e)), (''mode'', JStr (modeName (entryMode e)))]"

definition leaseEntryOf :: "jsval \<Rightarrow> string \<times> string" where
  "leaseEntryOf v = (stringOf (getp v ''key''), stringOf (getp v ''mode''))"

lemma leaseEntryCheck_Inr:
  "leaseEntryCheck v = Inr () \<Longrightarrow> \<exists>k m. getp v ''key'' = JStr k \<and> getp v ''mode'' = JStr m \<and>
     normalizeSgosResourceKey (JStr k) = Inr k \<and> m \<in> set sgosResourceModes"
  by (auto simp: leaseEntryCheck_def andThen_Inr stringCheck_def nonBlank_def isString_iff enumerationCheck_def)

lemma modeName_installed [simp]: "modeName m \<in> set sgosResourceModes"
  by (cases m) (simp_all add: sgosResourceModes_def)

lemma normalized_nonBlank:
  assumes "normalizeSgosResourceKey (JStr k) = Inr k"
  shows "trim k \<noteq> []"
proof
  assume "trim k = []"
  then have "normalizedText k = []"
    by (simp add: normalizedText_def backslashToSlash_def stripWildcard_def stripSlash_def endsWith_def)
  with assms show False by (simp add: normalizeSgosResourceKey_def Let_def split: if_splits)
qed

lemma leaseEntryValue_check:
  "leaseEntryCheck (leaseEntryValue e) = Inr () \<longleftrightarrow> normalizeSgosResourceKey (JStr (entryKey e)) = Inr (entryKey e)"
proof
  assume n: "normalizeSgosResourceKey (JStr (entryKey e)) = Inr (entryKey e)"
  from normalized_nonBlank [OF n] n show "leaseEntryCheck (leaseEntryValue e) = Inr ()"
    by (simp add: leaseEntryCheck_def leaseEntryValue_def exactly_def exactKeys_def requireKeys_def objectCheck_def
        hasOwn_def stringCheck_def nonBlank_def enumerationCheck_def)
qed (auto dest!: leaseEntryCheck_Inr simp: leaseEntryValue_def)

lemma leaseEntryValue_order:
  "resourceLeaseEntryOrder (leaseEntryValue a) (leaseEntryValue b) = compareEntry a b"
  by (simp add: resourceLeaseEntryOrder_def compareEntry_def thenBy_def byField_def byKey_def leaseEntryValue_def)

section \<open>Properties of leases\<close>

text \<open>
  C29: An accepted lease holds at most 256 entries, strictly sorted by key and mode, every key in
  its canonical form; and where both of its timestamps denote a point in time, it expires after it
  was acquired.
\<close>
theorem lease_record_sound:
  assumes "validateResourceLease H v = Inr r"
  shows "r = v \<and> (\<exists>es. getp v ''resources'' = JArr es \<and> length es \<le> 256 \<and>
    sorted_wrt (<) (map leaseEntryOf es) \<and>
    (\<forall>e \<in> set es. normalizeSgosResourceKey (getp e ''key'') = Inr (fst (leaseEntryOf e)))) \<and>
    (\<forall>a b. parseDate (stringOf (getp v ''acquiredAt'')) = Some a \<longrightarrow>
       parseDate (stringOf (getp v ''expiresAt'')) = Some b \<longrightarrow> a < b)"
proof -
  have valid: "validateResourceLeaseRecord H v True = Inr ()" and rv: "r = v"
    using assms by (auto simp: validateResourceLease_def returnValidated_def andThen_Inr cloneJson_Inr)
  then obtain es where es: "getp v ''resources'' = JArr es"
    by (auto simp: validateResourceLeaseRecord_def Let_def andThen_Inr arrayCheck_def isArray_iff)
  have parts: "length es \<le> 256" "\<forall>e \<in> set es. leaseEntryCheck e = Inr ()"
      "strictlySorted resourceLeaseEntryOrder (JArr es) = Inr ()"
      "\<not> dateAtMost (stringOf (getp v ''expiresAt'')) (stringOf (getp v ''acquiredAt''))"
    using valid es
    by (auto simp: validateResourceLeaseRecord_def Let_def andThen_Inr eachOf_Inr maximumResourceLeaseEntries_def)
  have entry: "\<exists>k m. leaseEntryOf e = (k, m) \<and> getp e ''key'' = JStr k \<and> getp e ''mode'' = JStr m \<and>
      normalizeSgosResourceKey (JStr k) = Inr k" if "e \<in> set es" for e
    using leaseEntryCheck_Inr parts(2) that by (fastforce simp: leaseEntryOf_def)
  have "sorted_wrt (<) (map leaseEntryOf es)"
    unfolding sorted_wrt_map
  proof (rule sorted_wrt_mono_rel [OF _ parts(3) [unfolded strictlySorted_lease]])
    fix x y assume "x \<in> set es" "y \<in> set es" "resourceLeaseEntryOrder x y < 0"
    with entry [of x] entry [of y] show "leaseEntryOf x < leaseEntryOf y"
      by (auto simp: leaseOrder_less)
  qed
  with parts(1,4) rv es entry show ?thesis
    by (fastforce simp: dateAtMost_def split: option.splits)
qed

text \<open>
  C30: The canonical entries of a resource declaration can be recorded as a lease exactly when every
  one of their keys normalizes to itself: their order and their modes always fit, so the only
  declarations the executor cannot lease are those whose keys \<open>normalizeSgosResourceKey\<close> does not
  leave alone.
\<close>
theorem lease_from_entries:
  assumes "canonicalSgosResourceEntries declaration = Inr es"
  shows "eachOf leaseEntryCheck (map leaseEntryValue es) = Inr () \<and>
         strictlySorted resourceLeaseEntryOrder (JArr (map leaseEntryValue es)) = Inr () \<and>
         int (length (map leaseEntryValue es)) \<le> maximumResourceLeaseEntries \<longleftrightarrow>
         list_all (\<lambda>e. normalizeSgosResourceKey (JStr (entryKey e)) = Inr (entryKey e)) es"
proof -
  have "sorted_wrt (\<lambda>a b. compareEntry a b < 0) es" "int (length es) \<le> maximumResourceLeaseEntries"
    using canonical_entries_sorted [OF assms] by auto
  then have "strictlySorted resourceLeaseEntryOrder (JArr (map leaseEntryValue es)) = Inr ()"
    by (simp add: strictlySorted_lease sorted_wrt_map leaseEntryValue_order)
  with \<open>int (length es) \<le> maximumResourceLeaseEntries\<close> show ?thesis
    by (auto simp: eachOf_Inr list_all_iff leaseEntryValue_check)
qed

section \<open>Examples\<close>

definition leaseCore :: "string \<Rightarrow> string \<Rightarrow> fields" where
  "leaseCore acquired expires =
     [(''leaseId'', JStr ''RLS-ABCDEF''), (''processId'', JStr ''PROC-ABCDEF''), (''taskInstanceId'', JStr ''t''),
      (''attemptId'', JStr ''ATT-ABCDEF''),
      (''resources'', JArr [leaseEntryValue \<lparr>entryKey = ''src/a'', entryMode = WriteMode\<rparr>]),
      (''acquiredAt'', JStr acquired), (''expiresAt'', JStr expires), (''schemaVersion'', JNum 1),
      (''kind'', JStr ''resource-lease'')]"

definition leaseRecord :: "hash_function \<Rightarrow> string \<Rightarrow> string \<Rightarrow> jsval" where
  "leaseRecord H acquired expires =
     JObj (leaseCore acquired expires @ [(''leaseSha256'', JStr (sgosSha256 H (JObj (leaseCore acquired expires))))])"

lemma lease_parts:
  "identifierCheck ''RLS'' (JStr ''RLS-ABCDEF'') = Inr ()" "identifierCheck ''PROC'' (JStr ''PROC-ABCDEF'') = Inr ()"
  "identifierCheck ''ATT'' (JStr ''ATT-ABCDEF'') = Inr ()" "stringCheck (JStr ''t'') = Inr ()"
  "leaseEntryCheck (leaseEntryValue \<lparr>entryKey = ''src/a'', entryMode = WriteMode\<rparr>) = Inr ()"
  "jsonSafe (leaseEntryValue \<lparr>entryKey = ''src/a'', entryMode = WriteMode\<rparr>)"
  "currentSchemaVersion ''resource-lease'' = 1" "descriptorHash (contractOf ''resource-lease'') = ''leaseSha256''"
  "1 \<le> maximumResourceLeaseEntries"
  by code_simp+

lemma leaseRecord_valid:
  assumes "hexDigests H" "timestampCheck (JStr a) = Inr ()" "timestampCheck (JStr e) = Inr ()" "\<not> dateAtMost e a"
  shows "validateResourceLease H (leaseRecord H a e) = Inr (leaseRecord H a e)"
proof -
  have "validateResourceLeaseRecord H (leaseRecord H a e) True = Inr ()"
    using assms(2-4) lease_parts sgosSha256_digest [OF assms(1)]
    by (simp add: leaseRecord_def leaseCore_def validateResourceLeaseRecord_def Let_def fullBase_def validateBase_def
      exactKeys_def requireKeys_def objectCheck_def hasOwn_def resourceLeaseFields_def verifySelfHash_def
      recordSelfSha256_def deleteField_def sha256Json_def cloneJson_def unsafeKeys_def arrayCheck_def
      eachOf_def strictlySorted_def del: leaseEntryValue_check)
  moreover have "jsonSafe (leaseRecord H a e)"
    using lease_parts by (simp add: leaseRecord_def leaseCore_def unsafeKeys_def)
  ultimately show ?thesis by (simp add: validateResourceLease_def returnValidated_def cloneJson_def)
qed

text \<open>
  The expiry of a lease is not checked when it does not denote a date. A timestamp of the right
  shape that \<open>Date.parse\<close> cannot read (month 13, hour 25) gives \<open>NaN\<close>, no comparison with
  it holds, and the lease is accepted whatever the other timestamp is.
\<close>
theorem unreadable_expiry_accepted:
  assumes "hexDigests H" "timestampCheck (JStr a) = Inr ()" "timestampCheck (JStr e) = Inr ()"
    and "parseDate e = None"
  shows "validateResourceLease H (leaseRecord H a e) = Inr (leaseRecord H a e)"
  by (rule leaseRecord_valid [OF assms(1-3)]) (simp add: dateAtMost_def assms(4))

lemma sampleTimes:
  "timestampCheck (JStr ''2024-02-01T12:30:00Z'') = Inr ()" "timestampCheck (JStr ''2024-13-01T00:00:00Z'') = Inr ()"
  "parseDate ''2024-13-01T00:00:00Z'' = None" "\<not> dateAtMost ''2024-02-01T12:30:00.250+02:00'' ''2024-02-01T10:30:00Z''"
  "timestampCheck (JStr ''2024-02-01T12:30:00.250+02:00'') = Inr ()" "timestampCheck (JStr ''2024-02-01T10:30:00Z'') = Inr ()"
  "parseDate ''2024-02-01T12:30:00.250+02:00'' = Some 1706783400250" "parseDate ''2024-02-01T10:30:00Z'' = Some 1706783400000"
  by code_simp+

theorem unreadable_expiry_accepted_witness:
  "validateResourceLease sampleHash (leaseRecord sampleHash ''2024-02-01T12:30:00Z'' ''2024-13-01T00:00:00Z'')
     = Inr (leaseRecord sampleHash ''2024-02-01T12:30:00Z'' ''2024-13-01T00:00:00Z'')"
  by (rule unreadable_expiry_accepted [OF sampleHash_hex sampleTimes(1-3)])

definition sampleLease :: jsval where
  "sampleLease = leaseRecord sampleHash ''2024-02-01T10:30:00Z'' ''2024-02-01T12:30:00.250+02:00''"

theorem lease_record_sound_witness:
  "validateResourceLease sampleHash sampleLease = Inr sampleLease \<and> (1706783400000::int) < 1706783400250 \<and>
   (\<exists>es. getp sampleLease ''resources'' = JArr es \<and> sorted_wrt (<) (map leaseEntryOf es))"
proof -
  have valid: "validateResourceLease sampleHash sampleLease = Inr sampleLease"
    unfolding sampleLease_def by (rule leaseRecord_valid [OF sampleHash_hex sampleTimes(6,5,4)])
  have times: "stringOf (getp sampleLease ''acquiredAt'') = ''2024-02-01T10:30:00Z''"
      "stringOf (getp sampleLease ''expiresAt'') = ''2024-02-01T12:30:00.250+02:00''"
    by (simp_all add: sampleLease_def leaseRecord_def leaseCore_def)
  from lease_record_sound [OF valid] valid show ?thesis
    unfolding times sampleTimes(7,8) by blast
qed

theorem lease_from_entries_witness:
  "eachOf leaseEntryCheck (map leaseEntryValue [\<lparr>entryKey = ''src/a'', entryMode = WriteMode\<rparr>]) = Inr ()"
proof -
  have c: "canonicalSgosResourceEntries (JObj [(''writes'', JArr [JStr ''src/a/**''])]) =
      Inr [\<lparr>entryKey = ''src/a'', entryMode = WriteMode\<rparr>]" by code_simp
  have "list_all (\<lambda>e. normalizeSgosResourceKey (JStr (entryKey e)) = Inr (entryKey e))
      [\<lparr>entryKey = ''src/a'', entryMode = WriteMode\<rparr>]" by code_simp
  with lease_from_entries [OF c] show ?thesis by blast
qed

end
