(* ===== verification/SgosContractsReceipts.thy ===== *)
theory SgosContractsReceipts
  imports SgosContractsWork SgosFanout
begin

text \<open>
  The record families of \<open>src/sgos/contracts.mjs\<close> that a running Process leaves behind: join
  receipts, fan-out collections and expansions, replay plans, and effect receipts. The creators sort
  what the validators require sorted.
\<close>

section \<open>Shared checks\<close>

definition bounded :: "jsval \<Rightarrow> nat \<Rightarrow> int \<Rightarrow> unit result" where
  "bounded v least greatest =
     must (isArray v \<and> least \<le> length (elements v) \<and> int (length (elements v)) \<le> greatest)"

definition predecessorFields :: "string list" where
  "predecessorFields = [''taskInstanceId'', ''state'', ''receiptSha256'', ''attemptId'']"

text \<open>A predecessor in any terminal state: exactly the succeeded ones carry a receipt.\<close>

definition terminalPredecessor :: "jsval \<Rightarrow> unit result" where
  "terminalPredecessor v =
     (let state = getp v ''state''; receipt = getp v ''receiptSha256'' in checks
     [exactly v predecessorFields,
      stringCheck (getp v ''taskInstanceId''),
      enumerationCheck terminalStateNames state,
      unlessNull receipt (digestCheck receipt),
      unlessNull (getp v ''attemptId'') (identifierCheck ''ATT'' (getp v ''attemptId'')),
      must (\<not> (state = JStr ''succeeded'' \<and> receipt = JNull)),
      must (\<not> (state \<noteq> JStr ''succeeded'' \<and> receipt \<noteq> JNull))])"

definition joinPredecessorOrder :: "jsval \<Rightarrow> jsval \<Rightarrow> int" where
  "joinPredecessorOrder = byField ''taskInstanceId''"

definition sortField :: "(jsval \<Rightarrow> jsval \<Rightarrow> int) \<Rightarrow> string \<Rightarrow> jsval \<Rightarrow> jsval result" where
  "sortField cmp k r = andThen (sortSpread cmp (getp r k)) (\<lambda>xs. Inr (JArr xs))"

definition canonicalSet :: "string \<Rightarrow> jsval \<Rightarrow> jsval result" where
  "canonicalSet k r = andThen (sortedSet (getp r k)) (\<lambda>xs. Inr (JArr xs))"

text \<open>\<open>{ ...record, a: f(record), b: g(record) }\<close>; a throwing computation stops the creation.\<close>

definition recompute :: "(string \<times> (jsval \<Rightarrow> jsval result)) list \<Rightarrow> jsval \<Rightarrow> jsval result" where
  "recompute updates r =
     andThen (mapResult (\<lambda>(k, f). andThen (f r) (\<lambda>v. Inr (k, v))) updates) (\<lambda>fs. Inr (overwrite r fs))"

section \<open>Join receipts\<close>

definition joinReceiptFields :: "string list" where
  "joinReceiptFields =
     [''joinReceiptId'', ''processId'', ''taskInstanceId'', ''attemptId'', ''joinId'', ''policy'',
      ''predecessors'', ''outputRefs'', ''completedAt'']"

definition receiptHead :: "string \<Rightarrow> string \<Rightarrow> jsval \<Rightarrow> unit result" where
  "receiptHead tag idField r = checks
     [identifierCheck tag (getp r idField),
      identifierCheck ''PROC'' (getp r ''processId''),
      stringCheck (getp r ''taskInstanceId''),
      identifierCheck ''ATT'' (getp r ''attemptId''),
      stringCheck (getp r ''joinId'')]"

definition validateJoinReceiptRecord :: "hash_function \<Rightarrow> validator" where
  "validateJoinReceiptRecord H r b = (let predecessors = getp r ''predecessors''; policy = getp r ''policy'' in checks
     [fullBase H ''join-receipt'' joinReceiptFields r b,
      receiptHead ''JNR'' ''joinReceiptId'' r,
      enumerationCheck [''all-success'', ''all-terminal''] policy,
      bounded predecessors 1 maximumJoinInputs,
      eachOf (\<lambda>v. checks [terminalPredecessor v,
        must (\<not> (policy = JStr ''all-success'' \<and> getp v ''state'' \<noteq> JStr ''succeeded''))]) (elements predecessors),
      strictlySorted joinPredecessorOrder predecessors,
      stringArray (getp r ''outputRefs''),
      timestampCheck (getp r ''completedAt'')])"

definition createJoinReceipt :: "hash_function \<Rightarrow> jsval \<Rightarrow> jsval result" where
  "createJoinReceipt H = createContract H ''join-receipt'' (validateJoinReceiptRecord H)
     (recompute [(''predecessors'', sortField joinPredecessorOrder ''predecessors''),
       (''outputRefs'', canonicalSet ''outputRefs'')])
     (pick [''processId'', ''taskInstanceId'', ''attemptId'', ''joinId'', ''policy'', ''predecessors''])"

definition validateJoinReceipt :: "hash_function \<Rightarrow> jsval \<Rightarrow> jsval result" where
  "validateJoinReceipt H = returnValidated (validateJoinReceiptRecord H)"

definition quorumJoinReceiptFields :: "string list" where
  "quorumJoinReceiptFields =
     [''quorumJoinReceiptId'', ''processId'', ''taskInstanceId'', ''attemptId'', ''joinId'', ''policy'',
      ''requiredSuccesses'', ''predecessorTaskInstanceIds'', ''predecessors'', ''outputRefs'', ''completedAt'']"

definition contributor :: "jsval \<Rightarrow> unit result" where
  "contributor v = checks
     [digestCheck (getp v ''receiptSha256''), identifierCheck ''ATT'' (getp v ''attemptId'')]"

definition validateQuorumJoinReceiptRecord :: "hash_function \<Rightarrow> validator" where
  "validateQuorumJoinReceiptRecord H r b =
     (let ids = getp r ''predecessorTaskInstanceIds''; predecessors = getp r ''predecessors'';
          required = getp r ''requiredSuccesses'' in checks
     [fullBase H ''quorum-join-receipt'' quorumJoinReceiptFields r b,
      receiptHead ''QJR'' ''quorumJoinReceiptId'' r,
      must (getp r ''policy'' = JStr ''quorum''),
      integerCheck 1 required,
      stringArray ids,
      bounded ids 1 maximumJoinInputs,
      must (numberOf required \<le> int (length (elements ids))),
      strictlySorted (byKey jsString) ids,
      must (isArray predecessors \<and> int (length (elements predecessors)) = numberOf required),
      eachOf (\<lambda>v. checks
        [exactly v predecessorFields,
         stringCheck (getp v ''taskInstanceId''),
         must (getp v ''taskInstanceId'' \<in> set (elements ids) \<and> getp v ''state'' = JStr ''succeeded''),
         contributor v]) (elements predecessors),
      strictlySorted joinPredecessorOrder predecessors,
      stringArray (getp r ''outputRefs''),
      timestampCheck (getp r ''completedAt'')])"

definition createQuorumJoinReceipt :: "hash_function \<Rightarrow> jsval \<Rightarrow> jsval result" where
  "createQuorumJoinReceipt H = createContract H ''quorum-join-receipt'' (validateQuorumJoinReceiptRecord H)
     (recompute [(''predecessorTaskInstanceIds'', \<lambda>r. andThen (spreadArray (getp r ''predecessorTaskInstanceIds''))
         (\<lambda>xs. Inr (JArr (sortBy (byKey jsString) xs)))),
       (''predecessors'', sortField joinPredecessorOrder ''predecessors''),
       (''outputRefs'', canonicalSet ''outputRefs'')])
     (pick [''processId'', ''taskInstanceId'', ''attemptId'', ''joinId'', ''policy'', ''requiredSuccesses'',
       ''predecessorTaskInstanceIds'', ''predecessors''])"

definition validateQuorumJoinReceipt :: "hash_function \<Rightarrow> jsval \<Rightarrow> jsval result" where
  "validateQuorumJoinReceipt H = returnValidated (validateQuorumJoinReceiptRecord H)"

definition reducerJoinReceiptFields :: "string list" where
  "reducerJoinReceiptFields =
     [''reducerJoinReceiptId'', ''processId'', ''taskInstanceId'', ''attemptId'', ''joinId'', ''policy'',
      ''reducerId'', ''predecessors'', ''inputs'', ''outputRefs'', ''completedAt'']"

definition reducerInputValue :: "reducer_input \<Rightarrow> jsval" where
  "reducerInputValue i = JObj [(''taskInstanceId'', JStr (reducerTask i)),
     (''outputRefs'', JArr (map JStr (reducerRefs i)))]"

definition reducerInputsValue :: "reducer_input list \<Rightarrow> jsval" where
  "reducerInputsValue inputs = JArr (map reducerInputValue inputs)"

text \<open>The guard that recomputes the inputs and the reduction; an error inside becomes a refusal.\<close>

definition reductionCheck :: "jsval \<Rightarrow> unit result" where
  "reductionCheck r =
     (let predecessors = elements (getp r ''predecessors'') in
      andThen (recode contractInvalid (canonicalSgosReducerInputs (getp r ''inputs''))) (\<lambda>inputs.
      andThen (recode contractInvalid (reduceSgosJoinOutputs (getp r ''reducerId'') (reducerInputsValue inputs)))
        (\<lambda>reduced. checks
          [must (canonicalJson (reducerInputsValue inputs) = canonicalJson (getp r ''inputs'')
             \<and> canonicalJson (JArr (map (\<lambda>i. JStr (reducerTask i)) inputs))
               = canonicalJson (JArr (map (\<lambda>v. getp v ''taskInstanceId'') predecessors))),
           stringArray (getp r ''outputRefs''),
           must (canonicalJson (JArr (map JStr reduced)) = canonicalJson (getp r ''outputRefs''))])))"

definition validateReducerJoinReceiptRecord :: "hash_function \<Rightarrow> validator" where
  "validateReducerJoinReceiptRecord H r b = (let predecessors = getp r ''predecessors'' in checks
     [fullBase H ''reducer-join-receipt'' reducerJoinReceiptFields r b,
      receiptHead ''RJR'' ''reducerJoinReceiptId'' r,
      must (getp r ''policy'' = JStr ''deterministic-reduce''),
      stringCheck (getp r ''reducerId''),
      bounded predecessors 1 maximumJoinInputs,
      eachOf (\<lambda>v. checks
        [exactly v predecessorFields,
         stringCheck (getp v ''taskInstanceId''),
         must (getp v ''state'' = JStr ''succeeded''),
         contributor v]) (elements predecessors),
      strictlySorted joinPredecessorOrder predecessors,
      reductionCheck r,
      timestampCheck (getp r ''completedAt'')])"

definition createReducerJoinReceipt :: "hash_function \<Rightarrow> jsval \<Rightarrow> jsval result" where
  "createReducerJoinReceipt H = createContract H ''reducer-join-receipt'' (validateReducerJoinReceiptRecord H)
     (recompute [(''predecessors'', sortField joinPredecessorOrder ''predecessors''),
       (''inputs'', \<lambda>r. andThen (canonicalSgosReducerInputs (getp r ''inputs''))
         (\<lambda>inputs. Inr (reducerInputsValue inputs))),
       (''outputRefs'', canonicalSet ''outputRefs'')])
     (pick [''processId'', ''taskInstanceId'', ''attemptId'', ''joinId'', ''policy'', ''reducerId'',
       ''predecessors'', ''inputs'', ''outputRefs''])"

definition validateReducerJoinReceipt :: "hash_function \<Rightarrow> jsval \<Rightarrow> jsval result" where
  "validateReducerJoinReceipt H = returnValidated (validateReducerJoinReceiptRecord H)"

definition manualReconcileJoinReceiptFields :: "string list" where
  "manualReconcileJoinReceiptFields =
     [''manualReconcileJoinReceiptId'', ''processId'', ''taskInstanceId'', ''attemptId'', ''joinId'', ''policy'',
      ''predecessors'', ''requestSha256'', ''responseSha256'', ''selectedTaskInstanceId'', ''outputRefs'',
      ''completedAt'']"

definition selectedPredecessor :: "jsval \<Rightarrow> jsval option" where
  "selectedPredecessor r =
     find (\<lambda>v. getp v ''taskInstanceId'' = getp r ''selectedTaskInstanceId'') (elements (getp r ''predecessors''))"

definition validateManualReconcileJoinReceiptRecord :: "hash_function \<Rightarrow> validator" where
  "validateManualReconcileJoinReceiptRecord H r b = (let predecessors = getp r ''predecessors'' in checks
     [fullBase H ''manual-reconcile-join-receipt'' manualReconcileJoinReceiptFields r b,
      receiptHead ''MJR'' ''manualReconcileJoinReceiptId'' r,
      must (getp r ''policy'' = JStr ''manual-reconcile''),
      bounded predecessors 1 maximumJoinInputs,
      eachOf terminalPredecessor (elements predecessors),
      strictlySorted joinPredecessorOrder predecessors,
      digestCheck (getp r ''requestSha256''),
      digestCheck (getp r ''responseSha256''),
      stringCheck (getp r ''selectedTaskInstanceId''),
      must (selectedPredecessor r \<noteq> None),
      stringArray (getp r ''outputRefs''),
      (case selectedPredecessor r of None \<Rightarrow> Inr ()
       | Some s \<Rightarrow> must (\<not> (getp s ''state'' \<noteq> JStr ''succeeded'' \<and> elements (getp r ''outputRefs'') \<noteq> []))),
      timestampCheck (getp r ''completedAt'')])"

definition createManualReconcileJoinReceipt :: "hash_function \<Rightarrow> jsval \<Rightarrow> jsval result" where
  "createManualReconcileJoinReceipt H =
     createContract H ''manual-reconcile-join-receipt'' (validateManualReconcileJoinReceiptRecord H)
     (recompute [(''predecessors'', sortField joinPredecessorOrder ''predecessors''),
       (''outputRefs'', canonicalSet ''outputRefs'')])
     (pick [''processId'', ''taskInstanceId'', ''attemptId'', ''joinId'', ''policy'', ''predecessors'',
       ''requestSha256'', ''responseSha256'', ''selectedTaskInstanceId'', ''outputRefs''])"

definition validateManualReconcileJoinReceipt :: "hash_function \<Rightarrow> jsval \<Rightarrow> jsval result" where
  "validateManualReconcileJoinReceipt H = returnValidated (validateManualReconcileJoinReceiptRecord H)"

section \<open>Fan-out receipts\<close>

definition fanoutItemOrder :: "jsval \<Rightarrow> jsval \<Rightarrow> int" where
  "fanoutItemOrder = byField ''itemKey''"

definition fanoutBounds :: "jsval \<Rightarrow> unit result" where
  "fanoutBounds r = checks
     [integerCheck 0 (getp r ''maximumItems''),
      integerCheck 1 (getp r ''maximumParallel''),
      must (numberOf (getp r ''maximumItems'') \<le> maximumFanoutItems
         \<and> numberOf (getp r ''maximumParallel'') \<le> maximumFanoutParallel),
      bounded (getp r ''items'') 0 (numberOf (getp r ''maximumItems''))]"

definition expansionFields :: "string list" where
  "expansionFields =
     [''expansionId'', ''processId'', ''parentTaskTemplateId'', ''collectionSha256'', ''maximumItems'',
      ''maximumParallel'', ''items'', ''createdAt'']"

definition validateFanoutExpansionReceiptRecord :: "hash_function \<Rightarrow> validator" where
  "validateFanoutExpansionReceiptRecord H r b = checks
     [fullBase H ''fanout-expansion-receipt'' expansionFields r b,
      identifierCheck ''FOX'' (getp r ''expansionId''),
      identifierCheck ''PROC'' (getp r ''processId''),
      stringCheck (getp r ''parentTaskTemplateId''),
      digestCheck (getp r ''collectionSha256''),
      fanoutBounds r,
      eachOf (\<lambda>v. checks
        [exactly v [''itemKey'', ''itemSha256'', ''taskTemplateId'', ''taskInstanceId''],
         stringCheck (getp v ''itemKey''), digestCheck (getp v ''itemSha256''),
         stringCheck (getp v ''taskTemplateId''), stringCheck (getp v ''taskInstanceId'')])
        (elements (getp r ''items'')),
      strictlySorted fanoutItemOrder (getp r ''items''),
      timestampCheck (getp r ''createdAt'')]"

definition createFanoutExpansionReceipt :: "hash_function \<Rightarrow> jsval \<Rightarrow> jsval result" where
  "createFanoutExpansionReceipt H =
     createContract H ''fanout-expansion-receipt'' (validateFanoutExpansionReceiptRecord H)
     (recompute [(''items'', sortField fanoutItemOrder ''items'')])
     (pick [''processId'', ''parentTaskTemplateId'', ''collectionSha256'', ''maximumItems'', ''maximumParallel'',
       ''items''])"

definition validateFanoutExpansionReceipt :: "hash_function \<Rightarrow> jsval \<Rightarrow> jsval result" where
  "validateFanoutExpansionReceipt H = returnValidated (validateFanoutExpansionReceiptRecord H)"

definition collectionFields :: "string list" where
  "collectionFields =
     [''collectionId'', ''processId'', ''sourceTaskInstanceId'', ''sourceAttemptId'', ''outputName'',
      ''itemKeySelector'', ''collectionSha256'', ''items'', ''createdAt'']"

definition itemKeySelectorText :: "string \<Rightarrow> bool" where
  "itemKeySelectorText s \<longleftrightarrow> s = ''$'' \<or> matchDynamicItemKey s \<noteq> None"

definition collectionItem :: "hash_function \<Rightarrow> jsval \<Rightarrow> unit result" where
  "collectionItem H v = checks
     [exactly v [''itemKey'', ''itemSha256'', ''value''],
      stringCheck (getp v ''itemKey''),
      digestCheck (getp v ''itemSha256''),
      jsonCheck (getp v ''value''),
      must (getp v ''itemSha256'' = JStr (sgosFanoutItemSha256 H (getp v ''value'')))]"

definition itemIdentity :: "jsval \<Rightarrow> jsval" where
  "itemIdentity v = JObj [(''itemKey'', getp v ''itemKey''), (''itemSha256'', getp v ''itemSha256'')]"

definition validateDynamicFanoutCollectionRecord :: "hash_function \<Rightarrow> validator" where
  "validateDynamicFanoutCollectionRecord H r b = (let items = getp r ''items'' in checks
     [fullBase H ''dynamic-fanout-collection'' collectionFields r b,
      identifierCheck ''DFC'' (getp r ''collectionId''),
      identifierCheck ''PROC'' (getp r ''processId''),
      stringCheck (getp r ''sourceTaskInstanceId''),
      identifierCheck ''ATT'' (getp r ''sourceAttemptId''),
      patternCheck (headThen nameChar) (getp r ''outputName''),
      patternCheck itemKeySelectorText (getp r ''itemKeySelector''),
      digestCheck (getp r ''collectionSha256''),
      bounded items 0 maximumFanoutItems,
      eachOf (collectionItem H) (elements items),
      strictlySorted fanoutItemOrder items,
      andThen (sha256Json H (JObj [(''kind'', JStr ''sgos-dynamic-fanout-collection''),
          (''outputName'', getp r ''outputName''), (''itemKeySelector'', getp r ''itemKeySelector''),
          (''items'', JArr (map itemIdentity (elements items)))]))
        (\<lambda>expected. must (getp r ''collectionSha256'' = JStr expected)),
      timestampCheck (getp r ''createdAt'')])"

definition createDynamicFanoutCollection :: "hash_function \<Rightarrow> jsval \<Rightarrow> jsval result" where
  "createDynamicFanoutCollection H =
     createContract H ''dynamic-fanout-collection'' (validateDynamicFanoutCollectionRecord H)
     (recompute [(''items'', sortField fanoutItemOrder ''items'')])
     (pick [''processId'', ''sourceTaskInstanceId'', ''sourceAttemptId'', ''outputName'', ''itemKeySelector'',
       ''collectionSha256''])"

definition validateDynamicFanoutCollection :: "hash_function \<Rightarrow> jsval \<Rightarrow> jsval result" where
  "validateDynamicFanoutCollection H = returnValidated (validateDynamicFanoutCollectionRecord H)"

definition dynamicExpansionFields :: "string list" where
  "dynamicExpansionFields =
     [''expansionId'', ''processId'', ''parentTaskTemplateId'', ''bodyTaskTemplateId'', ''sourceTaskInstanceId'',
      ''sourceTaskReceiptSha256'', ''collectionRecordSha256'', ''collectionSha256'', ''maximumItems'',
      ''maximumParallel'', ''items'', ''createdAt'']"

definition validateDynamicFanoutExpansionReceiptRecord :: "hash_function \<Rightarrow> validator" where
  "validateDynamicFanoutExpansionReceiptRecord H r b = checks
     [fullBase H ''dynamic-fanout-expansion-receipt'' dynamicExpansionFields r b,
      identifierCheck ''DFX'' (getp r ''expansionId''),
      identifierCheck ''PROC'' (getp r ''processId''),
      fieldsEach stringCheck r [''parentTaskTemplateId'', ''bodyTaskTemplateId'', ''sourceTaskInstanceId''],
      fieldsEach digestCheck r [''sourceTaskReceiptSha256'', ''collectionRecordSha256'', ''collectionSha256''],
      fanoutBounds r,
      eachOf (\<lambda>v. checks
        [exactly v [''itemKey'', ''itemSha256'', ''taskInstanceId''],
         stringCheck (getp v ''itemKey''), digestCheck (getp v ''itemSha256''),
         stringCheck (getp v ''taskInstanceId'')]) (elements (getp r ''items'')),
      strictlySorted fanoutItemOrder (getp r ''items''),
      timestampCheck (getp r ''createdAt'')]"

definition createDynamicFanoutExpansionReceipt :: "hash_function \<Rightarrow> jsval \<Rightarrow> jsval result" where
  "createDynamicFanoutExpansionReceipt H =
     createContract H ''dynamic-fanout-expansion-receipt'' (validateDynamicFanoutExpansionReceiptRecord H)
     (recompute [(''items'', sortField fanoutItemOrder ''items'')])
     (pick [''processId'', ''parentTaskTemplateId'', ''bodyTaskTemplateId'', ''sourceTaskReceiptSha256'',
       ''collectionRecordSha256'', ''items''])"

definition validateDynamicFanoutExpansionReceipt :: "hash_function \<Rightarrow> jsval \<Rightarrow> jsval result" where
  "validateDynamicFanoutExpansionReceipt H = returnValidated (validateDynamicFanoutExpansionReceiptRecord H)"

section \<open>Replay plans\<close>

definition replayTaskOrder :: "jsval \<Rightarrow> jsval \<Rightarrow> int" where
  "replayTaskOrder = thenBy (byField ''taskTemplateId'') (byField ''taskInstanceId'')"

definition validateReplayPriorTask :: "jsval \<Rightarrow> unit result" where
  "validateReplayPriorTask v = checks
     [exactly v [''taskInstanceId'', ''taskTemplateId'', ''state'', ''revision'', ''inputRefs'', ''attemptIds'',
        ''receiptSha256'', ''outputRefs'', ''invalidatedBy''],
      stringCheck (getp v ''taskInstanceId''),
      stringCheck (getp v ''taskTemplateId''),
      enumerationCheck (map stateName taskStates) (getp v ''state''),
      integerCheck 1 (getp v ''revision''),
      fieldsEach stringArray v [''inputRefs'', ''attemptIds'', ''outputRefs''],
      unlessNull (getp v ''receiptSha256'') (digestCheck (getp v ''receiptSha256'')),
      unlessNull (getp v ''invalidatedBy'') (digestCheck (getp v ''invalidatedBy'')),
      must (\<not> (getp v ''state'' = JStr ''succeeded'' \<and> getp v ''receiptSha256'' = JNull))]"

definition replayPlanFields :: "string list" where
  "replayPlanFields =
     [''replayPlanId'', ''processId'', ''expectedProcessRevision'', ''expectedProcessSha256'', ''programSha256'',
      ''policySnapshotSha256'', ''processBindingSha256'', ''fromCheckpointSha256'', ''taskInstanceIds'',
      ''priorTasks'', ''createdAt'']"

definition validateSgosReplayPlanRecord :: "hash_function \<Rightarrow> validator" where
  "validateSgosReplayPlanRecord H r b =
     (let ids = getp r ''taskInstanceIds''; tasks = getp r ''priorTasks'' in checks
     [fullBase H ''sgos-replay-plan'' replayPlanFields r b,
      identifierCheck ''RPL'' (getp r ''replayPlanId''),
      identifierCheck ''PROC'' (getp r ''processId''),
      integerCheck 1 (getp r ''expectedProcessRevision''),
      fieldsEach digestCheck r [''expectedProcessSha256'', ''programSha256'', ''policySnapshotSha256'',
        ''processBindingSha256'', ''fromCheckpointSha256''],
      stringArray ids,
      bounded ids 1 maximumTasks,
      must (isArray tasks \<and> length (elements tasks) = length (elements ids)),
      eachOf validateReplayPriorTask (elements tasks),
      strictlySorted replayTaskOrder tasks,
      must (canonicalJson ids = canonicalJson (JArr (map (\<lambda>t. getp t ''taskInstanceId'') (elements tasks)))),
      timestampCheck (getp r ''createdAt'')])"

definition prepareReplayPlan :: "jsval \<Rightarrow> jsval result" where
  "prepareReplayPlan r =
     andThen (sortSpread replayTaskOrder (getp r ''priorTasks'')) (\<lambda>tasks.
     andThen (mapResult (\<lambda>t. propOf t ''taskInstanceId'') tasks) (\<lambda>ids.
       Inr (overwrite r [(''priorTasks'', JArr tasks), (''taskInstanceIds'', JArr ids)])))"

definition createSgosReplayPlan :: "hash_function \<Rightarrow> jsval \<Rightarrow> jsval result" where
  "createSgosReplayPlan H = createContract H ''sgos-replay-plan'' (validateSgosReplayPlanRecord H) prepareReplayPlan
     (pick [''processId'', ''expectedProcessRevision'', ''expectedProcessSha256'', ''fromCheckpointSha256'',
       ''priorTasks''])"

definition validateSgosReplayPlan :: "hash_function \<Rightarrow> jsval \<Rightarrow> jsval result" where
  "validateSgosReplayPlan H = returnValidated (validateSgosReplayPlanRecord H)"

section \<open>Effect receipts\<close>

definition effectReplayFields :: "string list" where
  "effectReplayFields =
     [''effectReplayReceiptId'', ''processId'', ''replayPlanSha256'', ''taskInstanceId'', ''taskTemplateId'',
      ''attemptId'', ''taskReceiptSha256'', ''deviceManifestSha256'', ''toolIntentSha256'', ''toolResultSha256'',
      ''idempotencyKey'', ''effectSha256'', ''postconditionSha256'', ''outputRefs'', ''reconciledAt'']"

definition retainedOutputs :: "jsval \<Rightarrow> unit result" where
  "retainedOutputs v = checks [stringArray v, must (elements v \<noteq> [])]"

definition validateEffectReplayReceiptRecord :: "hash_function \<Rightarrow> validator" where
  "validateEffectReplayReceiptRecord H r b = checks
     [fullBase H ''effect-replay-receipt'' effectReplayFields r b,
      identifierCheck ''ERP'' (getp r ''effectReplayReceiptId''),
      identifierCheck ''PROC'' (getp r ''processId''),
      digestCheck (getp r ''replayPlanSha256''),
      stringCheck (getp r ''taskInstanceId''),
      stringCheck (getp r ''taskTemplateId''),
      identifierCheck ''ATT'' (getp r ''attemptId''),
      fieldsEach digestCheck r [''taskReceiptSha256'', ''deviceManifestSha256'', ''toolIntentSha256'',
        ''toolResultSha256'', ''idempotencyKey'', ''effectSha256'', ''postconditionSha256''],
      retainedOutputs (getp r ''outputRefs''),
      timestampCheck (getp r ''reconciledAt'')]"

definition createEffectReplayReceipt :: "hash_function \<Rightarrow> jsval \<Rightarrow> jsval result" where
  "createEffectReplayReceipt H = createContract H ''effect-replay-receipt'' (validateEffectReplayReceiptRecord H)
     (recompute [(''outputRefs'', canonicalSet ''outputRefs'')])
     (pick [''processId'', ''replayPlanSha256'', ''taskInstanceId'', ''taskTemplateId'', ''attemptId'',
       ''taskReceiptSha256'', ''deviceManifestSha256'', ''toolIntentSha256'', ''toolResultSha256'',
       ''idempotencyKey'', ''effectSha256'', ''postconditionSha256'', ''outputRefs''])"

definition validateEffectReplayReceipt :: "hash_function \<Rightarrow> jsval \<Rightarrow> jsval result" where
  "validateEffectReplayReceipt H = returnValidated (validateEffectReplayReceiptRecord H)"

definition effectRetryFields :: "string list" where
  "effectRetryFields =
     [''effectRetryReceiptId'', ''processId'', ''retryPlanSha256'', ''taskInstanceId'', ''taskTemplateId'',
      ''parentAttemptId'', ''parentAttemptSha256'', ''parentEvidenceSha256'', ''attemptId'', ''attemptSha256'',
      ''candidateSha256'', ''actionEvidenceSha256'', ''verificationChecksSha256'', ''deviceManifestSha256'',
      ''toolIntentSha256'', ''toolResultSha256'', ''idempotencyKey'', ''effectSha256'', ''postconditionSha256'',
      ''outputRefs'', ''reconciledAt'']"

definition validateEffectRetryReceiptRecord :: "hash_function \<Rightarrow> validator" where
  "validateEffectRetryReceiptRecord H r b = checks
     [fullBase H ''effect-retry-receipt'' effectRetryFields r b,
      identifierCheck ''ETR'' (getp r ''effectRetryReceiptId''),
      identifierCheck ''PROC'' (getp r ''processId''),
      stringCheck (getp r ''taskInstanceId''),
      stringCheck (getp r ''taskTemplateId''),
      identifierCheck ''ATT'' (getp r ''parentAttemptId''),
      identifierCheck ''ATT'' (getp r ''attemptId''),
      fieldsEach digestCheck r [''retryPlanSha256'', ''parentAttemptSha256'', ''parentEvidenceSha256'',
        ''attemptSha256'', ''candidateSha256'', ''actionEvidenceSha256'', ''verificationChecksSha256'',
        ''deviceManifestSha256'', ''toolIntentSha256'', ''toolResultSha256'', ''idempotencyKey'', ''effectSha256'',
        ''postconditionSha256''],
      retainedOutputs (getp r ''outputRefs''),
      timestampCheck (getp r ''reconciledAt'')]"

definition createEffectRetryReceipt :: "hash_function \<Rightarrow> jsval \<Rightarrow> jsval result" where
  "createEffectRetryReceipt H = createContract H ''effect-retry-receipt'' (validateEffectRetryReceiptRecord H)
     (recompute [(''outputRefs'', canonicalSet ''outputRefs'')])
     (pick [''processId'', ''retryPlanSha256'', ''taskInstanceId'', ''taskTemplateId'', ''parentAttemptId'',
       ''parentAttemptSha256'', ''parentEvidenceSha256'', ''attemptId'', ''attemptSha256'', ''candidateSha256'',
       ''actionEvidenceSha256'', ''verificationChecksSha256'', ''deviceManifestSha256'', ''toolIntentSha256'',
       ''toolResultSha256'', ''idempotencyKey'', ''effectSha256'', ''postconditionSha256'', ''outputRefs''])"

definition validateEffectRetryReceipt :: "hash_function \<Rightarrow> jsval \<Rightarrow> jsval result" where
  "validateEffectRetryReceipt H = returnValidated (validateEffectRetryReceiptRecord H)"

section \<open>Reduced outputs\<close>

lemma stringArray_Inr: "stringArray v = Inr () \<Longrightarrow> \<exists>ss. v = JArr (map JStr ss) \<and> distinct ss"
proof -
  assume "stringArray v = Inr ()"
  then obtain xs where xs: "v = JArr xs" "\<forall>x \<in> set xs. isString x" "distinct xs"
    by (auto simp: stringArray_def arrayOf_def arrayCheck_def andThen_Inr isArray_iff eachOf_Inr stringCheck_def nonBlank_def)
  have "map JStr (map stringOf xs) = xs"
    using xs(2) by (simp add: comp_def) (rule map_idI, auto simp: isString_iff)
  with xs show ?thesis by (metis distinct_map)
qed

lemma same_texts:
  assumes "canonicalJson (JArr (map (\<lambda>x. JStr (f x)) xs)) = canonicalJson (JArr ys)" "ys = map JStr (map g zs)"
  shows "ys = map (\<lambda>x. JStr (f x)) xs"
proof -
  have f: "map (\<lambda>x. JStr (f x)) xs = map JStr (map f xs)" by simp
  from assms(1) have "map f xs = map g zs" unfolding f assms(2) by (rule canonicalJson_strings_inj [THEN iffD1])
  with f assms(2) show ?thesis by simp
qed

lemma reducerInput_value:
  assumes "reducerTask i \<noteq> []" "sorted_wrt (<) (reducerRefs i)"
  shows "reducerInput (reducerInputValue i) = Inr i"
  using assms sortPoints_fixed [of "reducerRefs i"]
  by (simp add: reducerInput_def reducerInputValue_def Let_def comp_def list_ex_iff)

lemma reducerInput_Inr: "reducerInput v = Inr i \<Longrightarrow> reducerTask i \<noteq> [] \<and> sorted_wrt (<) (reducerRefs i)"
  by (auto simp: reducerInput_def Let_def split: if_splits)

lemma canonicalInputs_fixed:
  assumes "canonicalSgosReducerInputs v = Inr ins"
  shows "canonicalSgosReducerInputs (reducerInputsValue ins) = Inr ins"
proof -
  from assms obtain vs where vs: "isArray v" "elements v \<noteq> []" "int (length (elements v)) \<le> maximumJoinInputs"
      "mapResult reducerInput (elements v) = Inr vs" "distinct (map reducerTask vs)" "ins = sortBy (byKey reducerTask) vs"
    by (auto simp: reducerInputs_Inr)
  have len: "length vs = length (elements v)" using vs(4) by (auto simp: mapResult_Inr dest: list_all2_lengthD)
  have "reducerInput (reducerInputValue i) = Inr i" if "i \<in> set ins" for i
  proof -
    from that vs(6) have "i \<in> set vs" by simp
    then obtain x where "reducerInput x = Inr i"
      using list_all2_in_right [OF vs(4) [unfolded mapResult_Inr]] by blast
    from reducerInput_Inr [OF this] show ?thesis by (simp add: reducerInput_value)
  qed
  then have "mapResult reducerInput (map reducerInputValue ins) = Inr ins"
    by (simp add: mapResult_Inr list_all2_conv_all_nth)
  with vs len show ?thesis
    unfolding reducerInputs_Inr reducerInputsValue_def by (auto simp: keyed.sortBy_idem)
qed

text \<open>
  C31: An accepted reducer receipt is reproducible: its recorded outputs are exactly the result of
  the installed reducer on its recorded inputs, and its inputs are one for each predecessor, in
  order, all of them succeeded.
\<close>
theorem reducer_receipt_sound:
  assumes "validateReducerJoinReceipt H v = Inr r"
  shows "\<exists>ins outs. canonicalSgosReducerInputs (getp v ''inputs'') = Inr ins \<and>
    reduceSgosJoinOutputs (getp v ''reducerId'') (getp v ''inputs'') = Inr outs \<and>
    getp v ''outputRefs'' = JArr (map JStr outs) \<and>
    map (\<lambda>p. getp p ''taskInstanceId'') (elements (getp v ''predecessors'')) = map (\<lambda>i. JStr (reducerTask i)) ins \<and>
    list_all (\<lambda>p. getp p ''state'' = JStr ''succeeded'') (elements (getp v ''predecessors''))"
proof -
  have "validateReducerJoinReceiptRecord H v True = Inr ()"
    using assms by (auto simp: validateReducerJoinReceipt_def returnValidated_def andThen_Inr)
  then have preds: "\<forall>p \<in> set (elements (getp v ''predecessors'')). isString (getp p ''taskInstanceId'') \<and>
        getp p ''state'' = JStr ''succeeded''" and red: "reductionCheck v = Inr ()"
    by (auto simp: validateReducerJoinReceiptRecord_def Let_def andThen_Inr eachOf_Inr stringCheck_def nonBlank_def)
  from red obtain ins outs where io: "canonicalSgosReducerInputs (getp v ''inputs'') = Inr ins"
      "reduceSgosJoinOutputs (getp v ''reducerId'') (reducerInputsValue ins) = Inr outs"
      "canonicalJson (JArr (map (\<lambda>i. JStr (reducerTask i)) ins))
         = canonicalJson (JArr (map (\<lambda>v. getp v ''taskInstanceId'') (elements (getp v ''predecessors''))))"
      "stringArray (getp v ''outputRefs'') = Inr ()"
      "canonicalJson (JArr (map JStr outs)) = canonicalJson (getp v ''outputRefs'')"
    by (auto simp: reductionCheck_def Let_def andThen_Inr recode_Inr)
  have ids: "map (\<lambda>p. getp p ''taskInstanceId'') (elements (getp v ''predecessors''))
      = map JStr (map (\<lambda>p. stringOf (getp p ''taskInstanceId'')) (elements (getp v ''predecessors'')))"
    using preds by (auto simp: isString_iff)
  have "map (\<lambda>p. getp p ''taskInstanceId'') (elements (getp v ''predecessors'')) = map (\<lambda>i. JStr (reducerTask i)) ins"
    by (rule same_texts [OF io(3) ids])
  moreover have "getp v ''outputRefs'' = JArr (map JStr outs)"
    using stringArray_Inr [OF io(4)] io(5) by auto
  moreover have "reduceSgosJoinOutputs (getp v ''reducerId'') (getp v ''inputs'') = Inr outs"
    using io(1,2) canonicalInputs_fixed [OF io(1)] by (simp add: reduce_Inr)
  ultimately show ?thesis using io(1) preds by (auto simp: list_all_iff)
qed

definition reductionCore :: fields where
  "reductionCore =
     [(''reducerJoinReceiptId'', JStr ''RJR-ABCDEF''), (''processId'', JStr ''PROC-ABCDEF''),
      (''taskInstanceId'', JStr ''t''), (''attemptId'', JStr ''ATT-ABCDEF''), (''joinId'', JStr ''j''),
      (''policy'', JStr ''deterministic-reduce''), (''reducerId'', JStr ''canonical-output-ref-set-v1''),
      (''predecessors'', JArr [JObj [(''taskInstanceId'', JStr ''p''), (''state'', JStr ''succeeded''),
         (''receiptSha256'', JStr sampleDigest), (''attemptId'', JStr ''ATT-ABCDEF'')]]),
      (''inputs'', JArr [JObj [(''taskInstanceId'', JStr ''p''), (''outputRefs'', JArr [JStr ''x'', JStr ''y''])]]),
      (''outputRefs'', JArr [JStr ''x'', JStr ''y'']), (''completedAt'', JStr ''2024-01-01T00:00:00Z''),
      (''schemaVersion'', JNum 1), (''kind'', JStr ''reducer-join-receipt'')]"

definition sampleReduction :: jsval where
  "sampleReduction = JObj (reductionCore @ [(''reducerJoinReceiptSha256'', JStr (sgosSha256 sampleHash (JObj reductionCore)))])"

lemma reduction_parts:
  "reductionCheck (JObj reductionCore) = Inr ()"
  "receiptHead ''RJR'' ''reducerJoinReceiptId'' (JObj reductionCore) = Inr ()"
  "stringCheck (JStr ''canonical-output-ref-set-v1'') = Inr ()"
  "stringCheck (JStr ''p'') = Inr ()" "timestampCheck (JStr ''2024-01-01T00:00:00Z'') = Inr ()"
  "identifierCheck ''ATT'' (JStr ''ATT-ABCDEF'') = Inr ()" "digestCheck (JStr sampleDigest) = Inr ()"
  "currentSchemaVersion ''reducer-join-receipt'' = 1" "1 \<le> maximumJoinInputs"
  "descriptorHash (contractOf ''reducer-join-receipt'') = ''reducerJoinReceiptSha256''"
  by code_simp+

lemma reduction_fields:
  "k \<noteq> ''reducerJoinReceiptSha256'' \<Longrightarrow> getp sampleReduction k = getp (JObj reductionCore) k"
  by (simp add: sampleReduction_def map_add_def split: option.splits)

lemma sampleReduction_valid: "validateReducerJoinReceipt sampleHash sampleReduction = Inr sampleReduction"
proof -
  have head: "receiptHead ''RJR'' ''reducerJoinReceiptId'' sampleReduction = Inr ()"
      "reductionCheck sampleReduction = Inr ()"
    using reduction_parts(1,2) by (simp_all add: receiptHead_def reductionCheck_def reduction_fields del: getp.simps)
  have "validateReducerJoinReceiptRecord sampleHash sampleReduction True = Inr ()"
    using head reduction_parts(3-) sgosSha256_digest [OF sampleHash_hex]
    by (simp add: sampleReduction_def reductionCore_def validateReducerJoinReceiptRecord_def Let_def fullBase_def
      validateBase_def exactly_def exactKeys_def requireKeys_def objectCheck_def hasOwn_def reducerJoinReceiptFields_def
      verifySelfHash_def recordSelfSha256_def deleteField_def sha256Json_def cloneJson_def unsafeKeys_def bounded_def
      eachOf_def predecessorFields_def contributor_def strictlySorted_def)
  moreover have "jsonSafe sampleReduction"
    by (simp add: sampleReduction_def reductionCore_def unsafeKeys_def)
  ultimately show ?thesis by (simp add: validateReducerJoinReceipt_def returnValidated_def cloneJson_def)
qed

theorem reducer_receipt_sound_witness:
  "\<exists>outs. reduceSgosJoinOutputs (getp sampleReduction ''reducerId'') (getp sampleReduction ''inputs'') = Inr outs \<and>
    getp sampleReduction ''outputRefs'' = JArr (map JStr outs)"
  using reducer_receipt_sound [OF sampleReduction_valid] by blast

end
