(* ===== verification/SgosContractsFork.thy ===== *)
theory SgosContractsFork
  imports SgosContractsReceipts
begin

text \<open>
  The record families of \<open>src/sgos/contracts.mjs\<close> that carry a finished prefix of a parent Process
  into a forked child: the import of one task and the receipt over all imported tasks, for static
  and for dynamically expanded tasks.
\<close>

section \<open>Attempts and effects\<close>

definition attemptMappingFields :: "string list" where
  "attemptMappingFields =
     [''sourceAttemptId'', ''childAttemptId'', ''sourceRunningAttemptSha256'', ''sourceTerminalAttemptSha256'',
      ''childRunningAttemptSha256'', ''childTerminalAttemptSha256'', ''sourceTerminalStatus'']"

definition validateForkAttemptMapping :: "jsval \<Rightarrow> unit result" where
  "validateForkAttemptMapping v = checks
     [exactly v attemptMappingFields,
      identifierCheck ''ATT'' (getp v ''sourceAttemptId''),
      identifierCheck ''ATT'' (getp v ''childAttemptId''),
      fieldsEach digestCheck v [''sourceRunningAttemptSha256'', ''sourceTerminalAttemptSha256'',
        ''childRunningAttemptSha256'', ''childTerminalAttemptSha256''],
      enumerationCheck [''succeeded'', ''failed'', ''blocked'', ''cancelled'', ''recovery-required'']
        (getp v ''sourceTerminalStatus'')]"

definition effectFields :: "string list" where
  "effectFields =
     [''deviceManifestSha256'', ''toolIntentSha256'', ''toolResultSha256'', ''idempotencyKey'', ''effectSha256'',
      ''postconditionSha256'']"

definition validateForkEffectReconciliation :: "jsval \<Rightarrow> unit result" where
  "validateForkEffectReconciliation v =
     unlessNull v (checks [exactly v effectFields, fieldsEach digestCheck v effectFields])"

text \<open>
  The attempts are read without a type check: \<open>length\<close> of a nullish value throws, a value
  without \<open>forEach\<close> throws unless its \<open>length\<close> is falsy or too large.
\<close>

definition attemptsCheck :: "jsval \<Rightarrow> unit result" where
  "attemptsCheck v =
     andThen (propOf v ''length'') (\<lambda>n.
     andThen (must (truthy n \<and> \<not> (maximumAttemptsPerTask < numberOf n))) (\<lambda>_.
       if \<not> isArray v then Inl NativeError
       else checks
         [eachOf validateForkAttemptMapping (elements v),
          must (getp (last (elements v)) ''sourceTerminalStatus'' = JStr ''succeeded''),
          must (distinct (concat (map (\<lambda>e. [getp e ''sourceAttemptId'', getp e ''childAttemptId'']) (elements v))))]))"

section \<open>Task imports\<close>

definition importSources :: "string list" where
  "importSources =
     [''sourceEvidenceProjectionSha256'', ''sourceProcessSha256'', ''sourceControlEventSha256'',
      ''sourceRecordIndexSha256'', ''fromCheckpointSha256'']"

definition taskImportDigests :: "string list" where
  "taskImportDigests = ''forkPlanSha256'' # importSources
     @ [''sourceTaskReceiptSha256'', ''sourceCandidateSha256'', ''verificationChecksSha256'']"

definition taskImportFields :: "string \<Rightarrow> string list \<Rightarrow> string list" where
  "taskImportFields idField refs =
     [idField, ''parentProcessId'', ''childProcessId'', ''sourceTaskInstanceId'', ''childTaskInstanceId'',
      ''taskTemplateId'', ''sourceTaskRevision'', ''attempts'', ''effectReconciliation'', ''importedAt'']
     @ taskImportDigests @ refs"

text \<open>The two task-import validators differ in their family, identifier and reference fields.\<close>

definition taskImportCheck ::
    "hash_function \<Rightarrow> string \<Rightarrow> string \<Rightarrow> string \<Rightarrow> string list \<Rightarrow> validator" where
  "taskImportCheck H family tag idField refs r b = checks
     [fullBase H family (taskImportFields idField refs) r b,
      identifierCheck tag (getp r idField),
      identifierCheck ''PROC'' (getp r ''parentProcessId''),
      identifierCheck ''PROC'' (getp r ''childProcessId''),
      fieldsEach digestCheck r taskImportDigests,
      fieldsEach stringCheck r [''sourceTaskInstanceId'', ''childTaskInstanceId'', ''taskTemplateId''],
      integerCheck 1 (getp r ''sourceTaskRevision''),
      fieldsEach stringArray r refs,
      attemptsCheck (getp r ''attempts''),
      validateForkEffectReconciliation (getp r ''effectReconciliation''),
      timestampCheck (getp r ''importedAt'')]"

definition prefixRefs :: "string list" where
  "prefixRefs = [''inputRefs'', ''outputRefs'', ''sourceActionEvidenceSha256s'', ''sourceEvidenceRefs'',
     ''sourceEffectRefs'', ''sourceHumanDecisionRefs'']"

definition validateForkPrefixTaskImportRecord :: "hash_function \<Rightarrow> validator" where
  "validateForkPrefixTaskImportRecord H =
     taskImportCheck H ''fork-prefix-task-import'' ''FTI'' ''forkTaskImportId'' prefixRefs"

definition createForkPrefixTaskImport :: "hash_function \<Rightarrow> jsval \<Rightarrow> jsval result" where
  "createForkPrefixTaskImport H =
     createContract H ''fork-prefix-task-import'' (validateForkPrefixTaskImportRecord H)
     (recompute (map (\<lambda>k. (k, canonicalSet k)) prefixRefs))
     (pick [''forkPlanSha256'', ''parentProcessId'', ''childProcessId'', ''sourceTaskInstanceId'',
       ''childTaskInstanceId'', ''sourceTaskReceiptSha256''])"

definition validateForkPrefixTaskImport :: "hash_function \<Rightarrow> jsval \<Rightarrow> jsval result" where
  "validateForkPrefixTaskImport H = returnValidated (validateForkPrefixTaskImportRecord H)"

definition dynamicRefs :: "string list" where
  "dynamicRefs = [''sourceInputRefs'', ''sourceOutputRefs'', ''childInputRefs'', ''childOutputRefs'',
     ''sourceActionEvidenceSha256s'', ''sourceEvidenceRefs'', ''sourceEffectRefs'', ''sourceHumanDecisionRefs'']"

definition validateForkDynamicTaskImportRecord :: "hash_function \<Rightarrow> validator" where
  "validateForkDynamicTaskImportRecord H =
     taskImportCheck H ''fork-dynamic-task-import'' ''FDT'' ''forkDynamicTaskImportId'' dynamicRefs"

definition createForkDynamicTaskImport :: "hash_function \<Rightarrow> jsval \<Rightarrow> jsval result" where
  "createForkDynamicTaskImport H =
     createContract H ''fork-dynamic-task-import'' (validateForkDynamicTaskImportRecord H)
     (recompute (map (\<lambda>k. (k, canonicalSet k)) dynamicRefs))
     (pick [''forkPlanSha256'', ''parentProcessId'', ''childProcessId'', ''sourceTaskInstanceId'',
       ''childTaskInstanceId'', ''sourceTaskReceiptSha256'', ''sourceInputRefs'', ''sourceOutputRefs'',
       ''childInputRefs'', ''childOutputRefs''])"

definition validateForkDynamicTaskImport :: "hash_function \<Rightarrow> jsval \<Rightarrow> jsval result" where
  "validateForkDynamicTaskImport H = returnValidated (validateForkDynamicTaskImportRecord H)"

section \<open>Import receipts\<close>

definition importedTaskCheck :: "string \<Rightarrow> jsval \<Rightarrow> unit result" where
  "importedTaskCheck digestField v = checks
     [exactly v [''taskTemplateId'', ''sourceTaskInstanceId'', ''childTaskInstanceId'', digestField,
        ''childTaskReceiptSha256'', ''attemptCount'', ''outputRefs''],
      fieldsEach stringCheck v [''taskTemplateId'', ''sourceTaskInstanceId'', ''childTaskInstanceId''],
      digestCheck (getp v digestField),
      digestCheck (getp v ''childTaskReceiptSha256''),
      integerCheck 1 (getp v ''attemptCount''),
      must (numberOf (getp v ''attemptCount'') \<le> maximumAttemptsPerTask),
      stringArray (getp v ''outputRefs'')]"

definition validateForkImportedTask :: "jsval \<Rightarrow> unit result" where
  "validateForkImportedTask = importedTaskCheck ''forkTaskImportSha256''"

definition validateForkDynamicImportedTask :: "jsval \<Rightarrow> unit result" where
  "validateForkDynamicImportedTask = importedTaskCheck ''forkDynamicTaskImportSha256''"

definition forkImportedTaskOrder :: "jsval \<Rightarrow> jsval \<Rightarrow> int" where
  "forkImportedTaskOrder = thenBy (byField ''taskTemplateId'') (byField ''childTaskInstanceId'')"

definition forkDynamicItemOrder :: "jsval \<Rightarrow> jsval \<Rightarrow> int" where
  "forkDynamicItemOrder = thenBy (byField ''itemKey'') (byField ''childTaskInstanceId'')"

definition forkDynamicFanoutOrder :: "jsval \<Rightarrow> jsval \<Rightarrow> int" where
  "forkDynamicFanoutOrder = byField ''parentTaskTemplateId''"

definition validateForkDynamicFanoutItem :: "jsval \<Rightarrow> unit result" where
  "validateForkDynamicFanoutItem v = checks
     [exactly v [''itemKey'', ''itemSha256'', ''sourceTaskInstanceId'', ''childTaskInstanceId''],
      stringCheck (getp v ''itemKey''),
      digestCheck (getp v ''itemSha256''),
      stringCheck (getp v ''sourceTaskInstanceId''),
      stringCheck (getp v ''childTaskInstanceId'')]"

definition dynamicFanoutTexts :: "string list" where
  "dynamicFanoutTexts =
     [''parentTaskTemplateId'', ''bodyTaskTemplateId'', ''sourceTaskInstanceId'', ''childSourceTaskInstanceId'']"

definition dynamicFanoutDigests :: "string list" where
  "dynamicFanoutDigests =
     [''sourceTaskReceiptSha256'', ''childTaskReceiptSha256'', ''sourceCollectionRecordSha256'',
      ''childCollectionRecordSha256'', ''sourceExpansionSha256'', ''childExpansionSha256'', ''collectionSha256'']"

definition validateForkDynamicFanout :: "jsval \<Rightarrow> unit result" where
  "validateForkDynamicFanout v = checks
     [exactly v (dynamicFanoutTexts @ [''sourceAttemptId'', ''childAttemptId''] @ dynamicFanoutDigests @ [''items'']),
      fieldsEach stringCheck v dynamicFanoutTexts,
      identifierCheck ''ATT'' (getp v ''sourceAttemptId''),
      identifierCheck ''ATT'' (getp v ''childAttemptId''),
      fieldsEach digestCheck v dynamicFanoutDigests,
      bounded (getp v ''items'') 0 maximumFanoutItems,
      eachOf validateForkDynamicFanoutItem (elements (getp v ''items'')),
      strictlySorted forkDynamicItemOrder (getp v ''items'')]"

definition importReceiptDigests :: "string list" where
  "importReceiptDigests = ''forkPlanSha256'' # importSources
     @ [''childGenesisCheckpointSha256'', ''childImportedCheckpointSha256'']"

definition importReceiptHead :: "string \<Rightarrow> string \<Rightarrow> jsval \<Rightarrow> unit result" where
  "importReceiptHead tag idField r = checks
     [identifierCheck tag (getp r idField),
      identifierCheck ''PROC'' (getp r ''parentProcessId''),
      identifierCheck ''PROC'' (getp r ''childProcessId'')]"

definition importedTasks :: "(jsval \<Rightarrow> unit result) \<Rightarrow> jsval \<Rightarrow> unit result" where
  "importedTasks each v = checks
     [bounded v 1 maximumTasks, eachOf each (elements v), strictlySorted forkImportedTaskOrder v]"

definition validateForkPrefixImportReceiptRecord :: "hash_function \<Rightarrow> validator" where
  "validateForkPrefixImportReceiptRecord H r b = checks
     [fullBase H ''fork-prefix-import-receipt''
        ([''forkImportReceiptId'', ''parentProcessId'', ''childProcessId''] @ importReceiptDigests
          @ [''tasks'', ''importedAt'']) r b,
      importReceiptHead ''FIR'' ''forkImportReceiptId'' r,
      fieldsEach digestCheck r importReceiptDigests,
      importedTasks validateForkImportedTask (getp r ''tasks''),
      timestampCheck (getp r ''importedAt'')]"

text \<open>\<open>{ ...entry, k: f(entry[k]) }\<close> on an element; reading a property of \<open>null\<close> throws.\<close>

definition entryWith :: "string \<Rightarrow> (jsval \<Rightarrow> jsval list result) \<Rightarrow> jsval \<Rightarrow> jsval result" where
  "entryWith k f v = andThen (propOf v k) (\<lambda>x. andThen (f x) (\<lambda>xs.
     Inr (JObj (spread (entries v) [(k, JArr xs)]))))"

definition sortEntries ::
    "(jsval \<Rightarrow> jsval result) \<Rightarrow> (jsval \<Rightarrow> jsval \<Rightarrow> int) \<Rightarrow> string \<Rightarrow> jsval \<Rightarrow> jsval result" where
  "sortEntries f cmp k r = andThen (spreadArray (getp r k)) (\<lambda>xs.
     andThen (mapResult f xs) (\<lambda>ys. Inr (JArr (sortBy cmp ys))))"

definition importedTaskEntries :: "jsval \<Rightarrow> jsval result" where
  "importedTaskEntries = sortEntries (entryWith ''outputRefs'' sortedSet) forkImportedTaskOrder ''tasks''"

definition createForkPrefixImportReceipt :: "hash_function \<Rightarrow> jsval \<Rightarrow> jsval result" where
  "createForkPrefixImportReceipt H =
     createContract H ''fork-prefix-import-receipt'' (validateForkPrefixImportReceiptRecord H)
     (recompute [(''tasks'', importedTaskEntries)])
     (pick [''forkPlanSha256'', ''parentProcessId'', ''childProcessId'', ''fromCheckpointSha256'', ''tasks''])"

definition validateForkPrefixImportReceipt :: "hash_function \<Rightarrow> jsval \<Rightarrow> jsval result" where
  "validateForkPrefixImportReceipt H = returnValidated (validateForkPrefixImportReceiptRecord H)"

definition validateForkDynamicPrefixImportReceiptRecord :: "hash_function \<Rightarrow> validator" where
  "validateForkDynamicPrefixImportReceiptRecord H r b =
     (let fanouts = getp r ''dynamicFanouts''; digests = importReceiptDigests @ [''childPrefixBaseCheckpointSha256''] in checks
     [fullBase H ''fork-dynamic-prefix-import-receipt''
        ([''forkDynamicImportReceiptId'', ''parentProcessId'', ''childProcessId''] @ digests
          @ [''tasks'', ''dynamicFanouts'', ''importedAt'']) r b,
      importReceiptHead ''FDI'' ''forkDynamicImportReceiptId'' r,
      fieldsEach digestCheck r digests,
      importedTasks validateForkDynamicImportedTask (getp r ''tasks''),
      bounded fanouts 1 maximumFanoutGroupsPerProcess,
      eachOf validateForkDynamicFanout (elements fanouts),
      strictlySorted forkDynamicFanoutOrder fanouts,
      timestampCheck (getp r ''importedAt'')])"

definition createForkDynamicPrefixImportReceipt :: "hash_function \<Rightarrow> jsval \<Rightarrow> jsval result" where
  "createForkDynamicPrefixImportReceipt H =
     createContract H ''fork-dynamic-prefix-import-receipt'' (validateForkDynamicPrefixImportReceiptRecord H)
     (recompute [(''tasks'', importedTaskEntries),
       (''dynamicFanouts'', sortEntries (entryWith ''items'' (sortSpread forkDynamicItemOrder))
          forkDynamicFanoutOrder ''dynamicFanouts'')])
     (pick [''forkPlanSha256'', ''parentProcessId'', ''childProcessId'', ''sourceEvidenceProjectionSha256'',
       ''sourceProcessSha256'', ''childGenesisCheckpointSha256'', ''childPrefixBaseCheckpointSha256'',
       ''childImportedCheckpointSha256'', ''tasks'', ''dynamicFanouts''])"

definition validateForkDynamicPrefixImportReceipt :: "hash_function \<Rightarrow> jsval \<Rightarrow> jsval result" where
  "validateForkDynamicPrefixImportReceipt H = returnValidated (validateForkDynamicPrefixImportReceiptRecord H)"

end
