(* ===== verification/SgosPaths.thy ===== *)
theory SgosPaths
  imports JsValue SgosResources
begin

text \<open>
  \<open>src/sgos/paths.mjs\<close>: the absolute paths stored in durable records. A POSIX path, a Windows
  drive path and a UNC path each have one canonical text with \<open>/\<close> separators;
  \<open>sgosContractPathToLocal\<close> maps it to a host path and refuses the paths of the other
  platform. \<open>resolveSgosLocalAbsolutePath\<close> rests on \<open>path.resolve\<close> and the current directory
  of the host and is not modelled.
\<close>

datatype path_kind = Posix | WindowsDrive | WindowsUnc

record sgos_path =
  pathKind :: path_kind
  pathRoot :: string
  pathSegments :: "string list"

definition pathInvalid :: string where
  "pathInvalid = ''SGOS_PATH_INVALID''"

definition reservedDevices :: "string list" where
  "reservedDevices =
     [''con'', ''prn'', ''aux'', ''nul'', ''conin$'', ''conout$'', ''clock$'']
     @ concat (map (\<lambda>d. map (\<lambda>c. d @ [c])
         (map (\<lambda>n. char_of (48 + n)) [1, 2, 3, 4, 5, 6, 7, 8, 9 :: nat]
          @ map char_of [185, 178, 179 :: nat])) [''com'', ''lpt''])"

definition unsafeWindowsChar :: "char \<Rightarrow> bool" where
  "unsafeWindowsChar c \<longleftrightarrow>
     c \<in> {CHR ''<'', CHR ''>'', CHR '':'', CHR 0x22, CHR ''|'', CHR ''?'', CHR ''*''} \<or> codePoint c < 32"

definition safeWindowsSegment :: "string \<Rightarrow> bool" where
  "safeWindowsSegment s \<longleftrightarrow>
     \<not> (s = [] \<or> s = ''.'' \<or> s = ''..'' \<or> list_ex unsafeWindowsChar s \<or> last s = CHR '' '' \<or> last s = CHR ''.''
        \<or> toLowerCase (takeWhile (\<lambda>c. c \<noteq> CHR ''.'') s) \<in> set reservedDevices)"

definition isAlpha :: "char \<Rightarrow> bool" where
  "isAlpha c \<longleftrightarrow> isLower c \<or> isUpper c"

definition drivePrefix :: "string \<Rightarrow> bool" where
  "drivePrefix s \<longleftrightarrow> 3 \<le> length s \<and> isAlpha (hd s) \<and> take 2 (tl s) = '':/''"

text \<open>The long-path namespace of Windows is dropped.\<close>

definition withoutNamespace :: "string \<Rightarrow> string" where
  "withoutNamespace slash =
     (if toLowerCase (take 8 slash) = ''//?/unc/'' then ''//'' @ drop 8 slash
      else if take 4 slash = ''//?/'' \<and> drivePrefix (drop 4 slash) then drop 4 slash
      else slash)"

definition notSlash :: "char \<Rightarrow> bool" where
  "notSlash c \<longleftrightarrow> c \<noteq> CHR ''/''"

definition uncServer :: "string \<Rightarrow> string" where
  "uncServer s = takeWhile notSlash (drop 2 s)"

definition uncRest :: "string \<Rightarrow> string" where
  "uncRest s = tl (dropWhile notSlash (drop 2 s))"

definition rootAndRemainder :: "string \<Rightarrow> (path_kind \<times> string \<times> string) result" where
  "rootAndRemainder slash =
     (if drivePrefix slash then Inr (WindowsDrive, toUpperChar (hd slash) # '':/'', drop 3 slash)
      else if startsWith slash ''//'' then
        (let server = uncServer slash; share = takeWhile notSlash (uncRest slash) in
         if server = [] \<or> share = [] \<or> \<not> safeWindowsSegment server \<or> \<not> safeWindowsSegment share
         then fail pathInvalid
         else Inr (WindowsUnc, ''//'' @ server @ ''/'' @ share, tl (dropWhile notSlash (uncRest slash))))
      else if startsWith slash ''/'' then Inr (Posix, ''/'', drop 1 slash)
      else fail pathInvalid)"

definition parts :: "jsval \<Rightarrow> sgos_path result" where
  "parts v =
     (if \<not> isString v \<or> stringOf v = [] \<or> CHR 0x00 \<in> set (stringOf v) then fail pathInvalid
      else andThen (rootAndRemainder (withoutNamespace (backslashToSlash (stringOf v)))) (\<lambda>(kind, root, remainder).
        let segments = filter (\<lambda>s. s \<noteq> []) (splitOn (CHR ''/'') remainder) in
        if list_ex (\<lambda>s. s = ''.'' \<or> s = ''..'') segments then fail pathInvalid
        else if kind \<noteq> Posix \<and> \<not> list_all safeWindowsSegment segments then fail pathInvalid
        else Inr \<lparr>pathKind = kind, pathRoot = root, pathSegments = segments\<rparr>))"

definition printPath :: "sgos_path \<Rightarrow> string" where
  "printPath p =
     (if pathSegments p = [] then pathRoot p
      else if pathRoot p = ''/'' then ''/'' @ joinWith ''/'' (pathSegments p)
      else pathRoot p @ (if endsWith (pathRoot p) ''/'' then [] else ''/'') @ joinWith ''/'' (pathSegments p))"

definition canonicalizeSgosAbsolutePath :: "jsval \<Rightarrow> string result" where
  "canonicalizeSgosAbsolutePath v = andThen (parts v) (\<lambda>p. Inr (printPath p))"

definition slashToBackslash :: "string \<Rightarrow> string" where
  "slashToBackslash = map (\<lambda>c. if c = CHR ''/'' then CHR 0x5C else c)"

definition backslash :: string where
  "backslash = [CHR 0x5C]"

definition sgosContractPathToLocal :: "jsval \<Rightarrow> string \<Rightarrow> string result" where
  "sgosContractPathToLocal v platform =
     andThen (parts v) (\<lambda>p.
       if JStr (printPath p) \<noteq> v then fail pathInvalid
       else if platform = ''win32'' then
         (case pathKind p of
            Posix \<Rightarrow> fail ''SGOS_PATH_PLATFORM_MISMATCH''
          | WindowsUnc \<Rightarrow> Inr (backslash @ backslash @ slashToBackslash (drop 2 (pathRoot p))
              @ (if pathSegments p = [] then [] else backslash @ joinWith backslash (pathSegments p)))
          | WindowsDrive \<Rightarrow> Inr (slashToBackslash (pathRoot p) @ joinWith backslash (pathSegments p)))
       else if pathKind p \<noteq> Posix then fail ''SGOS_PATH_PLATFORM_MISMATCH''
       else Inr (printPath p))"

definition sgosContractPathFromLocal :: "jsval \<Rightarrow> string \<Rightarrow> string result" where
  "sgosContractPathFromLocal v platform =
     (if platform \<noteq> ''win32'' \<and> CHR 0x5C \<in> set (jsString (coalesce v (JStr []))) then fail pathInvalid
      else andThen (canonicalizeSgosAbsolutePath v) (\<lambda>canonical.
           andThen (sgosContractPathToLocal (JStr canonical) platform) (\<lambda>_. Inr canonical)))"

end
