(* ===== verification/SgosContractsProcess.thy ===== *)
theory SgosContractsProcess
  imports SgosContractsWork SgosPaths
begin

text \<open>
  The Program and Process families of \<open>src/sgos/contracts.mjs\<close>: task templates and the compiled
  Program, the binding of a Process to its worktree and authority, task instances and the Process.
\<close>

section \<open>Programs\<close>

definition taskTemplateFields :: "string list" where
  "taskTemplateFields =
     [''id'', ''taskTemplateId'', ''opcode'', ''operation'', ''dependsOn'', ''resources'', ''evidence'',
      ''authority'', ''recovery'', ''intentClauseIds'', ''inputs'', ''outputs'', ''retry'', ''timeoutMs'',
      ''policySnapshotSha256'', ''material'', ''metadata'', ''taskTemplateSha256'']"

definition validateTaskTemplate :: "jsval \<Rightarrow> unit result" where
  "validateTaskTemplate v = checks
     [exactKeys v taskTemplateFields,
      must (truthy (getp v ''id'') \<or> truthy (getp v ''taskTemplateId'')),
      optionally v ''id'' stringCheck,
      optionally v ''taskTemplateId'' stringCheck,
      enumerationCheck (map opcodeName gvmOpcodes) (getp v ''opcode''),
      optionally v ''operation'' (patternCheck operationText),
      optionally v ''dependsOn'' stringArray,
      optionally v ''resources'' validateResourceContract,
      optionally v ''intentClauseIds'' stringArray,
      optionally v ''timeoutMs'' (integerCheck 1),
      optionally v ''policySnapshotSha256'' digestCheck,
      optionally v ''taskTemplateSha256'' digestCheck,
      optionally v ''material'' booleanCheck,
      eachOf (\<lambda>k. optionally v k jsonCheck)
        [''evidence'', ''authority'', ''recovery'', ''inputs'', ''outputs'', ''retry'', ''metadata'']]"

definition validateEdge :: "jsval \<Rightarrow> unit result" where
  "validateEdge v = checks
     [exactKeys v [''from'', ''to'', ''condition''],
      requireKeys v [''from'', ''to''],
      stringCheck (getp v ''from''),
      stringCheck (getp v ''to''),
      optionally v ''condition'' jsonCheck]"

definition programDigests :: "string list" where
  "programDigests = [''intentIrSha256'', ''workflowSha256'', ''ratificationSha256'', ''policySnapshotSha256'',
     ''registrySnapshotSha256'', ''storageProfileSha256'']"

definition programFields :: "string list" where
  "programFields = ''programId'' # programDigests @
     [''taskTemplates'', ''edges'', ''joins'', ''budgets'', ''recoveryPolicy'', ''terminalConditions'', ''compiler'']"

definition validateGvmProgramRecord :: "hash_function \<Rightarrow> validator" where
  "validateGvmProgramRecord H r b = (let compiler = getp r ''compiler'' in checks
     [fullBase H ''gvm-program'' programFields r b,
      identifierCheck ''PRG'' (getp r ''programId''),
      fieldsEach digestCheck r programDigests,
      arrayOf validateTaskTemplate (getp r ''taskTemplates''),
      arrayOf validateEdge (getp r ''edges''),
      must (isArray (getp r ''joins'') \<or> plainObject (getp r ''joins'')),
      objectCheck (getp r ''budgets''),
      objectCheck (getp r ''recoveryPolicy''),
      arrayCheck (getp r ''terminalConditions''),
      exactKeys compiler [''id'', ''version'', ''sourceSha256''],
      requireKeys compiler [''id'', ''version''],
      stringCheck (getp compiler ''id''),
      stringCheck (getp compiler ''version''),
      optionally compiler ''sourceSha256'' digestCheck])"

definition canonicalJoinsField :: "jsval \<Rightarrow> jsval result" where
  "canonicalJoinsField r = andThen (canonicalSgosJoins (coalesce (getp r ''joins'') (JArr [])))
     (\<lambda>joins. Inr (JArr (map joinValue joins)))"

definition prepareGvmProgram :: "jsval \<Rightarrow> jsval result" where
  "prepareGvmProgram r = andThen (canonicalJoinsField r) (\<lambda>joins. Inr (overwrite r [(''joins'', joins)]))"

definition createGvmProgram :: "hash_function \<Rightarrow> jsval \<Rightarrow> jsval result" where
  "createGvmProgram H = createContract H ''gvm-program'' (validateGvmProgramRecord H) prepareGvmProgram
     (allBut [''programId'', ''schemaVersion'', ''kind''])"

definition validateGvmProgram :: "hash_function \<Rightarrow> jsval \<Rightarrow> jsval result" where
  "validateGvmProgram H = returnValidated (validateGvmProgramRecord H)"

section \<open>Authority\<close>

definition hexRevision :: "string \<Rightarrow> bool" where
  "hexRevision s \<longleftrightarrow> 40 \<le> length s \<and> length s \<le> 64 \<and> list_all isHex s"

definition gitRef :: "string \<Rightarrow> bool" where
  "gitRef s \<longleftrightarrow> (\<exists>p \<in> {''refs/heads/'', ''refs/remotes/''}. startsWith s p \<and> drop (length p) s \<noteq> [] \<and>
     list_all (\<lambda>c. isAlnum c \<or> c \<in> {CHR ''.'', CHR ''_'', CHR ''/'', CHR ''-''}) (drop (length p) s))"

definition authorityKinds :: "string list" where
  "authorityKinds = [''approved-configuration-ref'', ''verified-state-mirror'']"

definition configurationAuthority :: "jsval \<Rightarrow> unit result" where
  "configurationAuthority v = checks
     [exactly v [''kind'', ''ref'', ''commit'', ''workflowBlobSha256''],
      enumerationCheck authorityKinds (getp v ''kind''),
      patternCheck gitRef (getp v ''ref''),
      patternCheck hexRevision (getp v ''commit''),
      digestCheck (getp v ''workflowBlobSha256'')]"

definition absolutePath :: "jsval \<Rightarrow> unit result" where
  "absolutePath v = checks
     [stringCheck v, must (canonicalizeSgosAbsolutePath v = Inr (stringOf v))]"

text \<open>The two revisions a story baseline admits: any length from 40 to 64, or exactly one of the two.\<close>

definition fullRevision :: "string \<Rightarrow> bool" where
  "fullRevision s \<longleftrightarrow> list_all isHex s \<and> (length s = 40 \<or> length s = 64)"

definition storyAuthority :: "(string \<Rightarrow> bool) \<Rightarrow> jsval \<Rightarrow> jsval \<Rightarrow> unit result" where
  "storyAuthority revision owner v = checks
     [exactly v [''kind'', ''subjectId'', ''revision'', ''path'', ''blobSha256'', ''stateSha256''],
      must (getp v ''kind'' = JStr ''governed-story-baseline''),
      stringCheck (getp v ''subjectId''),
      patternCheck revision (getp v ''revision''),
      repositoryPath (getp v ''path''),
      digestCheck (getp v ''blobSha256''),
      digestCheck (getp v ''stateSha256''),
      must (getp v ''subjectId'' = getp owner ''subjectId'' \<and> getp v ''revision'' = getp owner ''baselineRevision'')]"

definition processBindingFields :: "string list" where
  "processBindingFields =
     [''processId'', ''subjectId'', ''subjectAuthority'', ''configurationAuthority'', ''repositoryIdentity'',
      ''gitCommonDirectory'', ''worktreeGitDirectory'', ''canonicalWorktreeRoot'', ''branch'', ''baselineRevision'',
      ''expectedProcessRevision'']"

definition validateProcessBindingRecord :: "hash_function \<Rightarrow> validator" where
  "validateProcessBindingRecord H r b = checks
     [fullBase H ''process-binding'' processBindingFields r b,
      identifierCheck ''PROC'' (getp r ''processId''),
      stringCheck (getp r ''subjectId''),
      unlessNull (getp r ''subjectAuthority'') (storyAuthority fullRevision r (getp r ''subjectAuthority'')),
      unlessNull (getp r ''configurationAuthority'') (configurationAuthority (getp r ''configurationAuthority'')),
      stringCheck (getp r ''repositoryIdentity''),
      fieldsEach absolutePath r [''gitCommonDirectory'', ''worktreeGitDirectory'', ''canonicalWorktreeRoot''],
      stringCheck (getp r ''branch''),
      stringCheck (getp r ''baselineRevision''),
      integerCheck 0 (getp r ''expectedProcessRevision'')]"

definition createProcessBinding :: "hash_function \<Rightarrow> jsval \<Rightarrow> jsval result" where
  "createProcessBinding H = createContract H ''process-binding'' (validateProcessBindingRecord H) unprepared (allBut [])"

definition validateProcessBinding :: "hash_function \<Rightarrow> jsval \<Rightarrow> jsval result" where
  "validateProcessBinding H = returnValidated (validateProcessBindingRecord H)"

definition validateExecutionAdmissionSource :: "jsval \<Rightarrow> unit result" where
  "validateExecutionAdmissionSource v = checks
     [exactly v [''kind'', ''ref'', ''commit'', ''sourceCommit'', ''path'', ''blobSha256'', ''configurationAuthority''],
      enumerationCheck authorityKinds (getp v ''kind''),
      patternCheck gitRef (getp v ''ref''),
      patternCheck hexRevision (getp v ''commit''),
      patternCheck hexRevision (getp v ''sourceCommit''),
      repositoryPath (getp v ''path''),
      digestCheck (getp v ''blobSha256''),
      configurationAuthority (getp v ''configurationAuthority'')]"

definition admissionProvenance :: "jsval \<Rightarrow> unit result" where
  "admissionProvenance v = checks
     [exactKeys v [''method'', ''programSha256'', ''intentIrSha256'', ''workflowSha256'', ''ratificationSha256'',
        ''source''],
      requireKeys v [''method'', ''programSha256'', ''ratificationSha256'', ''source''],
      enumerationCheck [''approved-program-authority'', ''approved-authority+deterministic-recompilation'']
        (getp v ''method''),
      digestCheck (getp v ''programSha256''),
      digestCheck (getp v ''ratificationSha256''),
      validateExecutionAdmissionSource (getp v ''source''),
      (if getp v ''method'' = JStr ''approved-authority+deterministic-recompilation''
       then fieldsEach digestCheck v [''intentIrSha256'', ''workflowSha256'']
       else must (nullish (getp v ''intentIrSha256'') \<and> nullish (getp v ''workflowSha256'')))]"

definition admissionCompiler :: "jsval \<Rightarrow> unit result" where
  "admissionCompiler v = checks
     [exactKeys v ([''id'', ''version''] @ (if nullish (getp v ''sourceSha256'') then [] else [''sourceSha256''])),
      requireKeys v [''id'', ''version''],
      stringCheck (getp v ''id''),
      stringCheck (getp v ''version''),
      optionally v ''sourceSha256'' digestCheck]"

definition admissionGraph :: "jsval \<Rightarrow> unit result" where
  "admissionGraph v = checks
     [exactly v [''taskCount'', ''edgeCount'', ''roots'', ''terminalTaskIds'', ''topologicalOrder''],
      integerCheck 0 (getp v ''taskCount''),
      integerCheck 0 (getp v ''edgeCount''),
      fieldsEach stringArray v [''roots'', ''terminalTaskIds'', ''topologicalOrder'']]"

definition admissionSafety :: "jsval \<Rightarrow> unit result" where
  "admissionSafety v = (let registry = getp v ''registry'' in checks
     [exactly v [''safe'', ''programId'', ''programSha256'', ''compiler'', ''graph'', ''registry''],
      must (getp v ''safe'' = JBool True),
      identifierCheck ''PRG'' (getp v ''programId''),
      digestCheck (getp v ''programSha256''),
      admissionCompiler (getp v ''compiler''),
      admissionGraph (getp v ''graph''),
      exactly registry [''verified'', ''registrySnapshotSha256''],
      booleanCheck (getp registry ''verified''),
      digestCheck (getp registry ''registrySnapshotSha256'')])"

definition validateExecutionAdmission :: "jsval \<Rightarrow> unit result" where
  "validateExecutionAdmission v = (let provenance = getp v ''provenance''; safety = getp v ''safety'' in checks
     [exactly v [''admitted'', ''programId'', ''programSha256'', ''provenance'', ''safety''],
      must (getp v ''admitted'' = JBool True),
      identifierCheck ''PRG'' (getp v ''programId''),
      digestCheck (getp v ''programSha256''),
      admissionProvenance provenance,
      admissionSafety safety,
      must (getp v ''programId'' = getp safety ''programId''
        \<and> getp v ''programSha256'' = getp safety ''programSha256''
        \<and> getp v ''programSha256'' = getp provenance ''programSha256'')])"

definition humanRequirement :: "jsval \<Rightarrow> unit result" where
  "humanRequirement v = checks
     [exactly v [''kind'', ''id'', ''minimumAssurance'', ''authoritySha256''],
      fieldsEach stringCheck v [''kind'', ''id''],
      optionally v ''minimumAssurance'' stringCheck,
      digestCheck (getp v ''authoritySha256'')]"

definition authorityBindingFields :: "string list" where
  "authorityBindingFields =
     [''kind'', ''subjectId'', ''subjectAuthority'', ''branch'', ''baselineRevision'', ''baselineSnapshotSha256'',
      ''authority'', ''configurationAuthority'', ''humanAuthorityRequirements'', ''executionAdmission'']"

definition validateProcessAuthorityBinding :: "jsval \<Rightarrow> unit result" where
  "validateProcessAuthorityBinding v =
     (let storyProcess = (getp v ''kind'' = JStr ''story''); subject = getp v ''subjectAuthority'';
          admission = getp v ''executionAdmission''; own = getp v ''configurationAuthority'';
          used = getp (getp (getp admission ''provenance'') ''source'') ''configurationAuthority'' in checks
     [exactly v authorityBindingFields,
      enumerationCheck [''story'', ''repository''] (getp v ''kind''),
      stringCheck (getp v ''subjectId''),
      stringCheck (getp v ''branch''),
      patternCheck hexRevision (getp v ''baselineRevision''),
      digestCheck (getp v ''baselineSnapshotSha256''),
      must (getp v ''authority'' =
        JStr (if storyProcess then ''existing-story-lifecycle'' else ''existing-repository-baseline'')),
      configurationAuthority own,
      arrayOf humanRequirement (getp v ''humanAuthorityRequirements''),
      (if subject = JNull then must (\<not> storyProcess)
       else checks [must storyProcess, storyAuthority hexRevision v subject]),
      validateExecutionAdmission admission,
      must (list_all (\<lambda>k. getp used k = getp own k) [''kind'', ''ref'', ''commit'', ''workflowBlobSha256''])])"

section \<open>Processes\<close>

definition taskInstanceFields :: "string list" where
  "taskInstanceFields =
     [''taskInstanceId'', ''taskTemplateId'', ''state'', ''predecessorTaskInstanceIds'', ''inputRefs'',
      ''outputRefs'', ''attemptIds'', ''receiptSha256'', ''invalidatedBy'', ''revision'']"

definition validateFanoutBinding :: "jsval \<Rightarrow> unit result" where
  "validateFanoutBinding v = checks
     [exactly v [''parentTaskTemplateId'', ''itemKey'', ''itemSha256'', ''collectionRecordSha256'',
        ''collectionSha256'', ''maximumParallel''],
      stringCheck (getp v ''parentTaskTemplateId''),
      stringCheck (getp v ''itemKey''),
      digestCheck (getp v ''itemSha256''),
      digestCheck (getp v ''collectionRecordSha256''),
      digestCheck (getp v ''collectionSha256''),
      integerCheck 1 (getp v ''maximumParallel''),
      must (numberOf (getp v ''maximumParallel'') \<le> maximumFanoutParallel)]"

definition validateTaskInstance :: "string \<Rightarrow> jsval \<Rightarrow> unit result" where
  "validateTaskInstance keyedId v =
     (let state = getp v ''state''; receipt = getp v ''receiptSha256''; invalidated = getp v ''invalidatedBy'' in checks
     [exactKeys v (taskInstanceFields @ [''fanoutBinding'']),
      requireKeys v taskInstanceFields,
      stringCheck (getp v ''taskInstanceId''),
      must (JStr keyedId = getp v ''taskInstanceId''),
      stringCheck (getp v ''taskTemplateId''),
      enumerationCheck (map stateName taskStates) state,
      fieldsEach stringArray v [''predecessorTaskInstanceIds'', ''inputRefs'', ''outputRefs'', ''attemptIds''],
      unlessNull receipt (digestCheck receipt),
      unlessNull invalidated (digestCheck invalidated),
      integerCheck 0 (getp v ''revision''),
      optionally v ''fanoutBinding'' validateFanoutBinding,
      must (\<not> (state = JStr ''succeeded'' \<and> receipt = JNull)),
      must (\<not> (state \<noteq> JStr ''succeeded'' \<and> receipt \<noteq> JNull \<and> invalidated = JNull))])"

definition validateTaskInstances :: "jsval \<Rightarrow> unit result" where
  "validateTaskInstances v = checks
     [objectCheck v, eachOf (\<lambda>(k, t). validateTaskInstance k t) (entries v)]"

definition processFields :: "string list" where
  "processFields =
     [''processId'', ''programSha256'', ''policySnapshotSha256'', ''processBindingSha256'', ''status'',
      ''taskInstances'', ''activeExecutions'', ''openHumanRequests'', ''activeLeases'',
      ''currentCheckpointSha256'', ''controlEventSha256'', ''recordIndexSha256'', ''processRevision'',
      ''authorityBinding'', ''taskContractSha256'', ''createdAt'', ''updatedAt'']"

definition nullableDigest :: "jsval \<Rightarrow> unit result" where
  "nullableDigest v = unlessNull v (digestCheck v)"

definition validateGvmProcessRecord :: "hash_function \<Rightarrow> validator" where
  "validateGvmProcessRecord H r b = checks
     [fullBase H ''gvm-process'' processFields r b,
      identifierCheck ''PROC'' (getp r ''processId''),
      fieldsEach digestCheck r [''programSha256'', ''policySnapshotSha256'', ''processBindingSha256''],
      enumerationCheck (map statusName processStates) (getp r ''status''),
      validateTaskInstances (getp r ''taskInstances''),
      stringArray (getp r ''activeExecutions''),
      digestArray (getp r ''openHumanRequests''),
      stringArray (getp r ''activeLeases''),
      fieldsEach nullableDigest r [''currentCheckpointSha256'', ''controlEventSha256'', ''recordIndexSha256''],
      integerCheck 0 (getp r ''processRevision''),
      validateProcessAuthorityBinding (getp r ''authorityBinding''),
      digestCheck (getp r ''taskContractSha256''),
      timestampCheck (getp r ''createdAt''),
      timestampCheck (getp r ''updatedAt'')]"

definition prepareGvmProcess :: "jsval \<Rightarrow> jsval result" where
  "prepareGvmProcess r = Inr (overwrite r
     [(''controlEventSha256'', coalesce (getp r ''controlEventSha256'') JNull),
      (''recordIndexSha256'', coalesce (getp r ''recordIndexSha256'') JNull)])"

definition processIdentity :: "jsval \<Rightarrow> jsval result" where
  "processIdentity r = Inr (JObj [(''programSha256'', getp r ''programSha256''),
     (''processBindingSha256'', getp r ''processBindingSha256''),
     (''createdAt'', coalesce (getp r ''createdAt'') JNull)])"

definition createGvmProcess :: "hash_function \<Rightarrow> jsval \<Rightarrow> jsval result" where
  "createGvmProcess H = createContract H ''gvm-process'' (validateGvmProcessRecord H) prepareGvmProcess processIdentity"

definition validateGvmProcess :: "hash_function \<Rightarrow> jsval \<Rightarrow> jsval result" where
  "validateGvmProcess H = returnValidated (validateGvmProcessRecord H)"

end
