(* ===== verification/SgosContractsControl.thy ===== *)
theory SgosContractsControl
  imports SgosContractsProcess
begin

text \<open>
  The control families of \<open>src/sgos/contracts.mjs\<close>: the cumulative record index, the control
  event that moves a Process to its next revision, the successor record and the transition intent
  that reserves them.
\<close>

section \<open>Record index\<close>

definition sgosRecordIndexFamilies :: "string list" where
  "sgosRecordIndexFamilies =
     [''action-evidence'', ''agent-proposal'', ''candidate-snapshot'', ''effect-replay-receipt'',
      ''effect-retry-receipt'', ''dynamic-fanout-collection'', ''dynamic-fanout-expansion-receipt'',
      ''fanout-expansion-receipt'', ''fork-dynamic-prefix-import-receipt'', ''fork-dynamic-task-import'',
      ''fork-prefix-import-receipt'', ''fork-prefix-task-import'', ''gvm-checkpoint'', ''gvm-program'',
      ''gvm-task-attempt'', ''gvm-task-receipt'', ''human-request'', ''human-response'', ''join-receipt'',
      ''manual-reconcile-join-receipt'', ''process-binding'', ''quorum-join-receipt'',
      ''reducer-join-receipt'', ''resource-lease'', ''sgos-replay-plan'']"

definition entryText :: "jsval \<Rightarrow> string" where
  "entryText v = (if nullish v then [] else jsString v)"

definition sgosRecordIndexEntryKey :: "jsval \<Rightarrow> string" where
  "sgosRecordIndexEntryKey v = joinWith [CHR 0x00]
     [entryText (getp v ''family''), entryText (getp v ''recordSha256''),
      entryText (coalesce (getp v ''attemptId'') (JStr [])), entryText (coalesce (getp v ''taskInstanceId'') (JStr []))]"

definition recordIdentity :: "jsval \<Rightarrow> string" where
  "recordIdentity v = jsString (getp v ''family'') @ [CHR 0x00] @ jsString (getp v ''recordSha256'')"

definition recordBytes :: "jsval \<Rightarrow> unit result" where
  "recordBytes v = checks [integerCheck 1 v, must (numberOf v \<le> maximumRecordBytes)]"

definition deltaEntry :: "jsval \<Rightarrow> unit result" where
  "deltaEntry v = checks
     [exactKeys v [''family'', ''recordSha256'', ''attemptId'', ''taskInstanceId'', ''bytes''],
      requireKeys v [''family'', ''recordSha256'', ''bytes''],
      enumerationCheck sgosRecordIndexFamilies (getp v ''family''),
      digestCheck (getp v ''recordSha256''),
      (if hasOwn v ''attemptId'' then identifierCheck ''ATT'' (getp v ''attemptId'') else Inr ()),
      (if hasOwn v ''taskInstanceId'' then stringCheck (getp v ''taskInstanceId'') else Inr ()),
      recordBytes (getp v ''bytes'')]"

text \<open>The variables of the loop over the delta.\<close>

record delta_totals =
  seenRecords :: "string list"
  priorKey :: "string option"
  deltaCounts :: "(string \<times> int) list"
  deltaBytes :: int

definition emptyDelta :: delta_totals where
  "emptyDelta = \<lparr>seenRecords = [], priorKey = None, deltaCounts = [], deltaBytes = 0\<rparr>"

definition countOf :: "(string \<times> int) list \<Rightarrow> string \<Rightarrow> int" where
  "countOf m k = (case map_of m k of None \<Rightarrow> 0 | Some n \<Rightarrow> n)"

definition addDelta :: "delta_totals \<Rightarrow> jsval \<Rightarrow> delta_totals result" where
  "addDelta s v =
     (let family = stringOf (getp v ''family''); key = sgosRecordIndexEntryKey v;
          bytes = deltaBytes s + numberOf (getp v ''bytes'') in
      andThen (checks
        [deltaEntry v,
         must (recordIdentity v \<notin> set (seenRecords s)),
         must (case priorKey s of None \<Rightarrow> True | Some p \<Rightarrow> compareSgosCodePoints p key < 0),
         must (bytes \<le> maxSafeInteger)]) (\<lambda>_.
      Inr \<lparr>seenRecords = recordIdentity v # seenRecords s, priorKey = Some key,
           deltaCounts = AList.update family (countOf (deltaCounts s) family + 1) (deltaCounts s),
           deltaBytes = bytes\<rparr>))"

definition addFamilyCount :: "(string \<times> int) list \<Rightarrow> int \<Rightarrow> string \<times> jsval \<Rightarrow> int result" where
  "addFamilyCount counts n f =
     andThen (checks
       [must (fst f \<in> set sgosRecordIndexFamilies),
        integerCheck 1 (snd f),
        must (countOf counts (fst f) \<le> numberOf (snd f)),
        must (n + numberOf (snd f) \<le> maxSafeInteger)]) (\<lambda>_. Inr (n + numberOf (snd f)))"

definition recordIndexFields :: "string list" where
  "recordIndexFields =
     [''processId'', ''sequence'', ''priorIndexSha256'', ''delta'', ''familyCounts'', ''totalRecordCount'',
      ''totalBytes'']"

definition recordIndexTotals :: "jsval \<Rightarrow> unit result" where
  "recordIndexTotals r =
     (let delta = elements (getp r ''delta''); counts = getp r ''familyCounts'';
          total = getp r ''totalRecordCount''; bytes = getp r ''totalBytes'' in
      andThen (foldResult addDelta emptyDelta delta) (\<lambda>s.
      andThen (objectCheck counts) (\<lambda>_.
      andThen (foldResult (addFamilyCount (deltaCounts s)) 0 (entries counts)) (\<lambda>counted. checks
        [eachOf (\<lambda>(family, count). must (count \<le> numberOf (coalesce (getp counts family) (JNum 0)))) (deltaCounts s),
         integerCheck 0 total,
         integerCheck 0 bytes,
         must (total = JNum counted),
         must (numberOf total \<le> maximumProcessRecords),
         must (deltaBytes s \<le> numberOf bytes),
         must (numberOf bytes \<le> maximumProcessRecordBytes),
         must (getp r ''sequence'' = JNum 0 \<longrightarrow>
           delta = [] \<and> total = JNum 0 \<and> bytes = JNum 0 \<and> fieldsOf counts = [])]))))"

definition validateSgosRecordIndexRecord :: "hash_function \<Rightarrow> validator" where
  "validateSgosRecordIndexRecord H r b = (let prior = getp r ''priorIndexSha256'' in checks
     [fullBase H ''sgos-record-index'' recordIndexFields r b,
      identifierCheck ''PROC'' (getp r ''processId''),
      integerCheck 0 (getp r ''sequence''),
      unlessNull prior (digestCheck prior),
      must ((getp r ''sequence'' = JNum 0) = (prior = JNull)),
      arrayCheck (getp r ''delta''),
      must (int (length (elements (getp r ''delta''))) \<le> maximumRecordIndexDeltaEntries),
      recordIndexTotals r])"

definition createSgosRecordIndex :: "hash_function \<Rightarrow> jsval \<Rightarrow> jsval result" where
  "createSgosRecordIndex H = createContract H ''sgos-record-index'' (validateSgosRecordIndexRecord H) unprepared (allBut [])"

definition validateSgosRecordIndex :: "hash_function \<Rightarrow> jsval \<Rightarrow> jsval result" where
  "validateSgosRecordIndex H = returnValidated (validateSgosRecordIndexRecord H)"

section \<open>Control events\<close>

definition controlEventActions :: "string list" where
  "controlEventActions =
     [''process-transition'', ''process-paused'', ''process-resumed'', ''execution-started'', ''execution-finished'',
      ''human-requested'', ''human-resolved'', ''recovery-required'', ''recovery-resolved'']"

definition validateSgosMutableProcessState :: "jsval \<Rightarrow> unit result" where
  "validateSgosMutableProcessState v = checks
     [exactly v [''status'', ''taskInstances'', ''activeExecutions'', ''openHumanRequests'', ''activeLeases'',
        ''currentCheckpointSha256'', ''processRevision'', ''updatedAt''],
      enumerationCheck (map statusName processStates) (getp v ''status''),
      validateTaskInstances (getp v ''taskInstances''),
      stringArray (getp v ''activeExecutions''),
      digestArray (getp v ''openHumanRequests''),
      stringArray (getp v ''activeLeases''),
      nullableDigest (getp v ''currentCheckpointSha256''),
      integerCheck 2 (getp v ''processRevision''),
      timestampCheck (getp v ''updatedAt'')]"

definition controlEventFields :: "string list" where
  "controlEventFields =
     [''processId'', ''processCoreSha256'', ''priorControlEventSha256'', ''beforeProcessSha256'',
      ''beforeProcessRevision'', ''controlDepth'', ''operatorTransitionCount'', ''recordIndexSha256'', ''action'',
      ''result'', ''createdAt'']"

definition controlCounters :: "jsval \<Rightarrow> unit result" where
  "controlCounters r = checks
     [integerCheck 1 (getp r ''controlDepth''),
      integerCheck 0 (getp r ''operatorTransitionCount''),
      must (numberOf (getp r ''operatorTransitionCount'') \<le> numberOf (getp r ''controlDepth''))]"

definition validateSgosControlEventRecord :: "hash_function \<Rightarrow> validator" where
  "validateSgosControlEventRecord H r b = (let result = getp r ''result'' in checks
     [fullBase H ''sgos-control-event'' controlEventFields r b,
      identifierCheck ''PROC'' (getp r ''processId''),
      digestCheck (getp r ''processCoreSha256''),
      nullableDigest (getp r ''priorControlEventSha256''),
      digestCheck (getp r ''beforeProcessSha256''),
      integerCheck 1 (getp r ''beforeProcessRevision''),
      controlCounters r,
      digestCheck (getp r ''recordIndexSha256''),
      enumerationCheck controlEventActions (getp r ''action''),
      validateSgosMutableProcessState result,
      must (numberOf (getp result ''processRevision'') = numberOf (getp r ''beforeProcessRevision'') + 1),
      timestampCheck (getp r ''createdAt''),
      must (getp r ''createdAt'' = getp result ''updatedAt'')])"

definition createSgosControlEvent :: "hash_function \<Rightarrow> jsval \<Rightarrow> jsval result" where
  "createSgosControlEvent H = createContract H ''sgos-control-event'' (validateSgosControlEventRecord H) unprepared (allBut [])"

definition validateSgosControlEvent :: "hash_function \<Rightarrow> jsval \<Rightarrow> jsval result" where
  "validateSgosControlEvent H = returnValidated (validateSgosControlEventRecord H)"

definition controlSuccessorFields :: "string list" where
  "controlSuccessorFields =
     [''processId'', ''beforeProcessSha256'', ''controlEventSha256'', ''controlDepth'', ''operatorTransitionCount'',
      ''cumulativeInfrastructureBytes'', ''cumulativeInfrastructureRecords'']"

definition validateSgosControlSuccessorRecord :: "hash_function \<Rightarrow> validator" where
  "validateSgosControlSuccessorRecord H r b = checks
     [fullBase H ''sgos-control-successor'' controlSuccessorFields r b,
      identifierCheck ''PROC'' (getp r ''processId''),
      digestCheck (getp r ''beforeProcessSha256''),
      digestCheck (getp r ''controlEventSha256''),
      controlCounters r,
      integerCheck 0 (getp r ''cumulativeInfrastructureBytes''),
      integerCheck 0 (getp r ''cumulativeInfrastructureRecords'')]"

definition createSgosControlSuccessor :: "hash_function \<Rightarrow> jsval \<Rightarrow> jsval result" where
  "createSgosControlSuccessor H =
     createContract H ''sgos-control-successor'' (validateSgosControlSuccessorRecord H) unprepared (allBut [])"

definition validateSgosControlSuccessor :: "hash_function \<Rightarrow> jsval \<Rightarrow> jsval result" where
  "validateSgosControlSuccessor H = returnValidated (validateSgosControlSuccessorRecord H)"

section \<open>Transition intents\<close>

definition reservationEntry :: "jsval \<Rightarrow> unit result" where
  "reservationEntry v = checks
     [exactly v [''family'', ''recordSha256'', ''bytes''],
      enumerationCheck sgosRecordIndexFamilies (getp v ''family''),
      digestCheck (getp v ''recordSha256''),
      recordBytes (getp v ''bytes'')]"

text \<open>The loop state is the identities seen so far, the last one first.\<close>

definition addReservation :: "string list \<Rightarrow> jsval \<Rightarrow> string list result" where
  "addReservation seen v =
     andThen (reservationEntry v) (\<lambda>_.
       if recordIdentity v \<in> set seen \<or> (seen \<noteq> [] \<and> 0 \<le> compareSgosCodePoints (hd seen) (recordIdentity v))
       then fail contractInvalid else Inr (recordIdentity v # seen))"

definition transitionIntentFields :: "string list" where
  "transitionIntentFields =
     [''processId'', ''beforeProcessSha256'', ''beforeProcessRevision'', ''priorRecordIndexSha256'', ''reservations'',
      ''nextRecordIndexSha256'', ''controlEvent'', ''successorSha256'', ''candidateProcessSha256'']"

definition validateSgosTransitionIntentRecord :: "hash_function \<Rightarrow> validator" where
  "validateSgosTransitionIntentRecord H r b =
     (let event = getp r ''controlEvent''; reservations = getp r ''reservations'' in checks
     [fullBase H ''sgos-transition-intent'' transitionIntentFields r b,
      identifierCheck ''PROC'' (getp r ''processId''),
      fieldsEach digestCheck r [''beforeProcessSha256'', ''priorRecordIndexSha256'', ''nextRecordIndexSha256'',
        ''successorSha256'', ''candidateProcessSha256''],
      integerCheck 1 (getp r ''beforeProcessRevision''),
      must (isArray reservations \<and> int (length (elements reservations)) \<le> maximumRecordIndexDeltaEntries),
      andThen (foldResult addReservation [] (elements reservations)) (\<lambda>_. Inr ()),
      must (plainObject event),
      validateSgosControlEventRecord H event True,
      must (getp event ''processId'' = getp r ''processId''
        \<and> getp event ''beforeProcessSha256'' = getp r ''beforeProcessSha256''
        \<and> getp event ''beforeProcessRevision'' = getp r ''beforeProcessRevision''
        \<and> getp event ''recordIndexSha256'' = getp r ''nextRecordIndexSha256'')])"

definition createSgosTransitionIntent :: "hash_function \<Rightarrow> jsval \<Rightarrow> jsval result" where
  "createSgosTransitionIntent H =
     createContract H ''sgos-transition-intent'' (validateSgosTransitionIntentRecord H) unprepared (allBut [])"

definition validateSgosTransitionIntent :: "hash_function \<Rightarrow> jsval \<Rightarrow> jsval result" where
  "validateSgosTransitionIntent H = returnValidated (validateSgosTransitionIntentRecord H)"

end
