(* ===== verification/SgosContractsEvidence.thy ===== *)
theory SgosContractsEvidence
  imports SgosContractsProcess
begin

text \<open>
  The record families of \<open>src/sgos/contracts.mjs\<close> about the execution of a task: attempts,
  receipts, checkpoints, human requests and responses, agent proposals, action evidence and work
  objects.
\<close>

section \<open>Attempts, receipts and checkpoints\<close>

definition attemptRequired :: "string list" where
  "attemptRequired =
     [''attemptId'', ''processId'', ''taskInstanceId'', ''attemptNumber'', ''parentAttemptId'', ''reason'',
      ''taskContractSha256'', ''executionHandleSha256'', ''status'']"

definition validateGvmTaskAttemptRecord :: "hash_function \<Rightarrow> validator" where
  "validateGvmTaskAttemptRecord H r b = checks
     [validateBase H ''gvm-task-attempt'' (attemptRequired @ [''startedAt'', ''completedAt'']) attemptRequired r b,
      identifierCheck ''ATT'' (getp r ''attemptId''),
      identifierCheck ''PROC'' (getp r ''processId''),
      stringCheck (getp r ''taskInstanceId''),
      integerCheck 1 (getp r ''attemptNumber''),
      unlessNull (getp r ''parentAttemptId'') (identifierCheck ''ATT'' (getp r ''parentAttemptId'')),
      enumerationCheck [''initial'', ''retry'', ''verification-failed'', ''execution-failed'', ''timeout'',
        ''lease-lost'', ''recovery'', ''invalidated'', ''manual''] (getp r ''reason''),
      digestCheck (getp r ''taskContractSha256''),
      digestCheck (getp r ''executionHandleSha256''),
      enumerationCheck (map stateName taskStates) (getp r ''status''),
      optionally r ''startedAt'' timestampCheck,
      optionally r ''completedAt'' timestampCheck]"

definition createGvmTaskAttempt :: "hash_function \<Rightarrow> jsval \<Rightarrow> jsval result" where
  "createGvmTaskAttempt H = createContract H ''gvm-task-attempt'' (validateGvmTaskAttemptRecord H) unprepared
     (pick [''processId'', ''taskInstanceId'', ''attemptNumber'', ''parentAttemptId'', ''taskContractSha256''])"

definition validateGvmTaskAttempt :: "hash_function \<Rightarrow> jsval \<Rightarrow> jsval result" where
  "validateGvmTaskAttempt H = returnValidated (validateGvmTaskAttemptRecord H)"

definition verificationCheck :: "jsval \<Rightarrow> unit result" where
  "verificationCheck v = checks
     [exactKeys v [''status'', ''checksSha256''],
      requireKeys v [''status''],
      enumerationCheck [''passed'', ''failed'', ''unavailable''] (getp v ''status''),
      optionally v ''checksSha256'' digestCheck]"

definition taskReceiptFields :: "string list" where
  "taskReceiptFields =
     [''processId'', ''taskInstanceId'', ''attemptId'', ''attemptSha256'', ''inputRefs'', ''outputRefs'',
      ''candidateSha256'', ''evidenceRefs'', ''effectRefs'', ''humanDecisionRefs'', ''verification'', ''completedAt'']"

definition validateGvmTaskReceiptRecord :: "hash_function \<Rightarrow> validator" where
  "validateGvmTaskReceiptRecord H r b = (let verification = getp r ''verification'' in checks
     [fullBase H ''gvm-task-receipt'' taskReceiptFields r b,
      identifierCheck ''PROC'' (getp r ''processId''),
      stringCheck (getp r ''taskInstanceId''),
      identifierCheck ''ATT'' (getp r ''attemptId''),
      digestCheck (getp r ''attemptSha256''),
      fieldsEach stringArray r [''inputRefs'', ''outputRefs'', ''evidenceRefs'', ''effectRefs'', ''humanDecisionRefs''],
      digestCheck (getp r ''candidateSha256''),
      verificationCheck verification,
      must (getp verification ''status'' = JStr ''passed''),
      timestampCheck (getp r ''completedAt'')])"

definition createGvmTaskReceipt :: "hash_function \<Rightarrow> jsval \<Rightarrow> jsval result" where
  "createGvmTaskReceipt H = createContract H ''gvm-task-receipt'' (validateGvmTaskReceiptRecord H) unprepared (allBut [])"

definition validateGvmTaskReceipt :: "hash_function \<Rightarrow> jsval \<Rightarrow> jsval result" where
  "validateGvmTaskReceipt H = returnValidated (validateGvmTaskReceiptRecord H)"

definition checkpointFields :: "string list" where
  "checkpointFields =
     [''checkpointId'', ''processId'', ''processRevision'', ''programSha256'', ''policySnapshotSha256'',
      ''processBindingSha256'', ''taskStates'', ''readyTaskIds'', ''activeExecutions'', ''openHumanRequests'',
      ''activeLeases'', ''priorCheckpointSha256'', ''createdAt'']"

definition validateGvmCheckpointRecord :: "hash_function \<Rightarrow> validator" where
  "validateGvmCheckpointRecord H r b = (let states = getp r ''taskStates'' in checks
     [fullBase H ''gvm-checkpoint'' checkpointFields r b,
      identifierCheck ''CHK'' (getp r ''checkpointId''),
      identifierCheck ''PROC'' (getp r ''processId''),
      integerCheck 0 (getp r ''processRevision''),
      fieldsEach digestCheck r [''programSha256'', ''policySnapshotSha256'', ''processBindingSha256''],
      objectCheck states,
      eachOf (\<lambda>(k, s). checks [stringCheck (JStr k), enumerationCheck (map stateName taskStates) s]) (entries states),
      stringArray (getp r ''readyTaskIds''),
      stringArray (getp r ''activeExecutions''),
      digestArray (getp r ''openHumanRequests''),
      stringArray (getp r ''activeLeases''),
      nullableDigest (getp r ''priorCheckpointSha256''),
      timestampCheck (getp r ''createdAt'')])"

definition createGvmCheckpoint :: "hash_function \<Rightarrow> jsval \<Rightarrow> jsval result" where
  "createGvmCheckpoint H = createContract H ''gvm-checkpoint'' (validateGvmCheckpointRecord H) unprepared
     (pick [''processId'', ''processRevision'', ''priorCheckpointSha256''])"

definition validateGvmCheckpoint :: "hash_function \<Rightarrow> jsval \<Rightarrow> jsval result" where
  "validateGvmCheckpoint H = returnValidated (validateGvmCheckpointRecord H)"

section \<open>Humans\<close>

definition humanRequestTypes :: "string list" where
  "humanRequestTypes =
     [''clarification'', ''approval'', ''credential'', ''exception'', ''policy-choice'', ''conflict-resolution'',
      ''interpretation'', ''evidence-review'', ''scope-expansion'', ''production-authority'',
      ''scientific-judgment'', ''legal-judgment'']"

definition authorityRequirement :: "jsval \<Rightarrow> unit result" where
  "authorityRequirement v = checks
     [exactKeys v [''kind'', ''id'', ''minimumAssurance'', ''authoritySha256''],
      requireKeys v [''kind'', ''id''],
      stringCheck (getp v ''kind''),
      stringCheck (getp v ''id''),
      optionally v ''minimumAssurance'' stringCheck,
      optionally v ''authoritySha256'' digestCheck]"

definition humanOption :: "jsval \<Rightarrow> unit result" where
  "humanOption v = checks
     [exactKeys v [''id'', ''label'', ''consequence''],
      requireKeys v [''id'', ''label''],
      stringCheck (getp v ''id''),
      stringCheck (getp v ''label''),
      optionally v ''consequence'' stringCheck]"

definition secretChannel :: "jsval \<Rightarrow> unit result" where
  "secretChannel r =
     (let mode = getp r ''sensitiveMode''; url = getp r ''externalUrl''; broker = getp r ''secretBroker'' in checks
     [enumerationCheck [''none'', ''external-url'', ''secret-broker''] mode,
      unlessNull url (patternCheck (\<lambda>s. startsWith s ''https://'') url),
      unlessNull broker (stringCheck broker),
      must (\<not> (mode = JStr ''none'' \<and> (url \<noteq> JNull \<or> broker \<noteq> JNull))),
      must (\<not> (mode = JStr ''external-url'' \<and> (url = JNull \<or> broker \<noteq> JNull))),
      must (\<not> (mode = JStr ''secret-broker'' \<and> (broker = JNull \<or> url \<noteq> JNull)))])"

definition humanRequestFields :: "string list" where
  "humanRequestFields =
     [''requestId'', ''requestType'', ''processId'', ''taskInstanceId'', ''checkpointSha256'', ''requestedBy'',
      ''authorityRequired'', ''configurationAuthority'', ''prompt'', ''options'', ''inputSchema'', ''sensitiveMode'',
      ''externalUrl'', ''secretBroker'', ''subjectSha256'', ''policySnapshotSha256'', ''status'', ''createdAt'',
      ''expiresAt'']"

definition validateHumanRequestRecord :: "hash_function \<Rightarrow> validator" where
  "validateHumanRequestRecord H r b = (let prompt = getp r ''prompt'' in checks
     [fullBase H ''human-request'' humanRequestFields r b,
      identifierCheck ''HRQ'' (getp r ''requestId''),
      enumerationCheck humanRequestTypes (getp r ''requestType''),
      identifierCheck ''PROC'' (getp r ''processId''),
      stringCheck (getp r ''taskInstanceId''),
      digestCheck (getp r ''checkpointSha256''),
      principalCheck (getp r ''requestedBy''),
      authorityRequirement (getp r ''authorityRequired''),
      configurationAuthority (getp r ''configurationAuthority''),
      exactly prompt [''title'', ''detail''],
      stringCheck (getp prompt ''title''),
      stringCheck (getp prompt ''detail''),
      arrayOf humanOption (getp r ''options''),
      unlessNull (getp r ''inputSchema'') (objectCheck (getp r ''inputSchema'')),
      secretChannel r,
      digestCheck (getp r ''subjectSha256''),
      digestCheck (getp r ''policySnapshotSha256''),
      enumerationCheck [''open'', ''answered'', ''expired'', ''cancelled''] (getp r ''status''),
      timestampCheck (getp r ''createdAt''),
      unlessNull (getp r ''expiresAt'') (timestampCheck (getp r ''expiresAt''))])"

definition createHumanRequest :: "hash_function \<Rightarrow> jsval \<Rightarrow> jsval result" where
  "createHumanRequest H = createContract H ''human-request'' (validateHumanRequestRecord H) unprepared
     (pick [''processId'', ''taskInstanceId'', ''checkpointSha256'', ''requestType'', ''subjectSha256''])"

definition validateHumanRequest :: "hash_function \<Rightarrow> jsval \<Rightarrow> jsval result" where
  "validateHumanRequest H = returnValidated (validateHumanRequestRecord H)"

definition humanResponseFields :: "string list" where
  "humanResponseFields =
     [''responseId'', ''requestSha256'', ''processId'', ''taskInstanceId'', ''actor'', ''decision'', ''input'',
      ''respondedAt'']"

definition validateHumanResponseRecord :: "hash_function \<Rightarrow> validator" where
  "validateHumanResponseRecord H r b = checks
     [fullBase H ''human-response'' humanResponseFields r b,
      identifierCheck ''HRS'' (getp r ''responseId''),
      digestCheck (getp r ''requestSha256''),
      identifierCheck ''PROC'' (getp r ''processId''),
      stringCheck (getp r ''taskInstanceId''),
      principalCheck (getp r ''actor''),
      enumerationCheck [''approved'', ''rejected'', ''selected'', ''provided'', ''cancelled''] (getp r ''decision''),
      jsonCheck (getp r ''input''),
      timestampCheck (getp r ''respondedAt'')]"

definition createHumanResponse :: "hash_function \<Rightarrow> jsval \<Rightarrow> jsval result" where
  "createHumanResponse H = createContract H ''human-response'' (validateHumanResponseRecord H) unprepared
     (pick [''requestSha256'', ''actor'', ''decision'', ''input''])"

definition validateHumanResponse :: "hash_function \<Rightarrow> jsval \<Rightarrow> jsval result" where
  "validateHumanResponse H = returnValidated (validateHumanResponseRecord H)"

section \<open>Agent proposals\<close>

text \<open>
  Base64 and UTF-8 as \<open>Buffer\<close> uses them here: the checked text has only alphabet characters in
  groups of four with padding, so decoding has no other characters to skip. The bytes are compared
  with their UTF-8 reading, which replaces every invalid sequence; they agree exactly on valid UTF-8.
\<close>

definition base64Alphabet :: string where
  "base64Alphabet = map char_of ([65..<91] @ [97..<123] @ [48..<58] @ [43, 47 :: nat])"

definition base64Digit :: "char \<Rightarrow> nat option" where
  "base64Digit c = map_of (zip base64Alphabet [0..<64]) c"

definition isBase64 :: "char \<Rightarrow> bool" where
  "isBase64 c \<longleftrightarrow> base64Digit c \<noteq> None"

definition digitOf :: "char \<Rightarrow> nat" where
  "digitOf c = (case base64Digit c of None \<Rightarrow> 0 | Some d \<Rightarrow> d)"

definition base64Char :: "nat \<Rightarrow> char" where
  "base64Char n = base64Alphabet ! n"

fun base64Text :: "string \<Rightarrow> bool" where
  "base64Text [] = True"
| "base64Text (a # b # c # d # rest) =
     ((list_all isBase64 [a, b, c, d] \<and> base64Text rest) \<or>
      (rest = [] \<and> isBase64 a \<and> isBase64 b \<and> d = CHR ''='' \<and> (c = CHR ''='' \<or> isBase64 c)))"
| "base64Text _ = False"

fun base64Decode :: "string \<Rightarrow> nat list" where
  "base64Decode (a # b # c # d # rest) =
     (let n = ((digitOf a * 64 + digitOf b) * 64 + digitOf c) * 64 + digitOf d in
      if c = CHR ''='' then [n div 65536]
      else if d = CHR ''='' then [n div 65536, n div 256 mod 256]
      else [n div 65536, n div 256 mod 256, n mod 256] @ base64Decode rest)"
| "base64Decode _ = []"

fun base64Encode :: "nat list \<Rightarrow> string" where
  "base64Encode [] = []"
| "base64Encode [x] = [base64Char (x div 4), base64Char (x mod 4 * 16), CHR ''='', CHR ''='']"
| "base64Encode [x, y] =
     [base64Char (x div 4), base64Char (x mod 4 * 16 + y div 16), base64Char (y mod 16 * 4), CHR ''='']"
| "base64Encode (x # y # z # rest) =
     [base64Char (x div 4), base64Char (x mod 4 * 16 + y div 16), base64Char (y mod 16 * 4 + z div 64),
      base64Char (z mod 64)] @ base64Encode rest"

definition continuation :: "nat \<Rightarrow> bool" where
  "continuation n \<longleftrightarrow> 128 \<le> n \<and> n < 192"

fun validUtf8 :: "nat list \<Rightarrow> bool" where
  "validUtf8 [] = True"
| "validUtf8 (a # rest) =
     (if a < 128 then validUtf8 rest
      else if 194 \<le> a \<and> a < 224 then
        (case rest of b # rest' \<Rightarrow> continuation b \<and> validUtf8 rest' | _ \<Rightarrow> False)
      else if 224 \<le> a \<and> a < 240 then
        (case rest of b # c # rest' \<Rightarrow>
           continuation b \<and> continuation c \<and> (a = 224 \<longrightarrow> 160 \<le> b) \<and> (a = 237 \<longrightarrow> b < 160) \<and> validUtf8 rest'
         | _ \<Rightarrow> False)
      else if 240 \<le> a \<and> a < 245 then
        (case rest of b # c # d # rest' \<Rightarrow>
           continuation b \<and> continuation c \<and> continuation d \<and> (a = 240 \<longrightarrow> 144 \<le> b) \<and> (a = 244 \<longrightarrow> b < 144)
             \<and> validUtf8 rest'
         | _ \<Rightarrow> False)
      else False)"

definition maximumAgentProposalOutputBytes :: int where
  "maximumAgentProposalOutputBytes = 1024 * 1024"

definition invocationText :: "string \<Rightarrow> bool" where
  "invocationText s \<longleftrightarrow> identifierChars s \<and> length s \<le> 200"

definition proposalFields :: "string list" where
  "proposalFields =
     [''processId'', ''taskInstanceId'', ''attemptId'', ''contractSha256'', ''executionUnitManifestSha256'',
      ''provider'', ''providerInvocationId'', ''providerAuditRef'', ''mediaType'', ''contentEncoding'',
      ''outputBase64'', ''outputBytes'', ''outputSha256'', ''assurance'', ''createdAt'']"

definition proposalOutput :: "(nat list \<Rightarrow> string) \<Rightarrow> jsval \<Rightarrow> unit result" where
  "proposalOutput hashBytes r =
     (let text = stringOf (getp r ''outputBase64''); output = base64Decode text in
      must (JNum (int (length output)) = getp r ''outputBytes'' \<and> base64Encode output = text
        \<and> validUtf8 output \<and> JStr (''sha256:'' @ hashBytes output) = getp r ''outputSha256''))"

definition proposalAssurance :: "jsval \<Rightarrow> unit result" where
  "proposalAssurance v = checks
     [exactly v [''kind'', ''authority'', ''verification'', ''approval''],
      must (getp v ''kind'' = JStr ''proposal-only'' \<and> getp v ''authority'' = JStr ''none''
        \<and> getp v ''verification'' = JStr ''not-performed'' \<and> getp v ''approval'' = JStr ''not-granted'')]"

text \<open>\<open>hashBytes\<close> is SHA-256 of \<open>node:crypto\<close> on raw bytes, as \<open>H\<close> is on texts.\<close>

definition validateAgentProposalRecord :: "hash_function \<Rightarrow> (nat list \<Rightarrow> string) \<Rightarrow> validator" where
  "validateAgentProposalRecord H hashBytes r b = checks
     [fullBase H ''agent-proposal'' proposalFields r b,
      identifierCheck ''PROC'' (getp r ''processId''),
      stringCheck (getp r ''taskInstanceId''),
      identifierCheck ''ATT'' (getp r ''attemptId''),
      digestCheck (getp r ''contractSha256''),
      digestCheck (getp r ''executionUnitManifestSha256''),
      must (getp r ''provider'' = JStr ''copilot-cli''),
      patternCheck invocationText (getp r ''providerInvocationId''),
      must (getp r ''providerAuditRef'' = JStr (''model-invocation:'' @ stringOf (getp r ''providerInvocationId''))),
      must (getp r ''mediaType'' = JStr ''text/plain; charset=utf-8'' \<and> getp r ''contentEncoding'' = JStr ''base64''),
      patternCheck base64Text (getp r ''outputBase64''),
      integerCheck 1 (getp r ''outputBytes''),
      must (numberOf (getp r ''outputBytes'') \<le> maximumAgentProposalOutputBytes),
      digestCheck (getp r ''outputSha256''),
      proposalOutput hashBytes r,
      proposalAssurance (getp r ''assurance''),
      timestampCheck (getp r ''createdAt'')]"

definition createAgentProposal :: "hash_function \<Rightarrow> (nat list \<Rightarrow> string) \<Rightarrow> jsval \<Rightarrow> jsval result" where
  "createAgentProposal H hashBytes =
     createContract H ''agent-proposal'' (validateAgentProposalRecord H hashBytes) unprepared (allBut [])"

definition validateAgentProposal :: "hash_function \<Rightarrow> (nat list \<Rightarrow> string) \<Rightarrow> jsval \<Rightarrow> jsval result" where
  "validateAgentProposal H hashBytes = returnValidated (validateAgentProposalRecord H hashBytes)"

section \<open>Action evidence and work objects\<close>

definition evidenceDigests :: "string list" where
  "evidenceDigests =
     [''principalSha256'', ''delegationSha256'', ''programSha256'', ''taskContractSha256'',
      ''executionUnitManifestSha256'', ''deviceManifestSha256'', ''argumentsSha256'', ''preStateSha256'',
      ''rawResultSha256'', ''postStateSha256'']"

definition evidenceRequired :: "string list" where
  "evidenceRequired = evidenceDigests @ [''verification'', ''cost'', ''latencyMs'', ''gaps'']"

definition validateActionEvidenceRecord :: "hash_function \<Rightarrow> validator" where
  "validateActionEvidenceRecord H r b = checks
     [validateBase H ''action-evidence'' (evidenceRequired @ [''processId'', ''taskInstanceId'', ''attemptId'',
        ''evidenceRefs'', ''effectRefs'', ''humanDecisionRefs'', ''contradictions'', ''createdAt''])
        evidenceRequired r b,
      optionally r ''processId'' (identifierCheck ''PROC''),
      optionally r ''taskInstanceId'' stringCheck,
      optionally r ''attemptId'' (identifierCheck ''ATT''),
      fieldsEach digestCheck r evidenceDigests,
      verificationCheck (getp r ''verification''),
      objectCheck (getp r ''cost''),
      integerCheck 0 (getp r ''latencyMs''),
      stringArray (getp r ''gaps''),
      eachOf (\<lambda>k. optionally r k stringArray) [''evidenceRefs'', ''effectRefs'', ''humanDecisionRefs'', ''contradictions''],
      optionally r ''createdAt'' timestampCheck]"

definition createActionEvidence :: "hash_function \<Rightarrow> jsval \<Rightarrow> jsval result" where
  "createActionEvidence H = createContract H ''action-evidence'' (validateActionEvidenceRecord H) unprepared (allBut [])"

definition validateActionEvidence :: "hash_function \<Rightarrow> jsval \<Rightarrow> jsval result" where
  "validateActionEvidence H = returnValidated (validateActionEvidenceRecord H)"

definition workObjectViewTypes :: "string list" where
  "workObjectViewTypes =
     [''overview'', ''graph'', ''board'', ''timeline'', ''table'', ''document'', ''form'', ''evidence'', ''diff'',
      ''matrix'', ''chart'', ''log'', ''metrics'', ''simulation'', ''approval'', ''comparison'', ''dashboard'',
      ''evidence-matrix'', ''decision-card'', ''map'', ''code-source-diff'', ''experiment-result'']"

definition workObjectOperations :: "string list" where
  "workObjectOperations =
     [''request.respond'', ''human-request.respond'', ''process.pause'', ''process.resume'', ''candidate.review'',
      ''evidence.inspect'', ''work-object.refresh'']"

definition workObjectAction :: "jsval \<Rightarrow> unit result" where
  "workObjectAction v = checks
     [exactly v [''id'', ''label'', ''operation'', ''inputSchema''],
      stringCheck (getp v ''id''),
      stringCheck (getp v ''label''),
      enumerationCheck workObjectOperations (getp v ''operation''),
      objectCheck (getp v ''inputSchema'')]"

definition workObjectRequired :: "string list" where
  "workObjectRequired = [''objectId'', ''processId'', ''taskInstanceId'', ''view'']"

definition validateWorkObjectRecord :: "hash_function \<Rightarrow> validator" where
  "validateWorkObjectRecord H r b = (let view = getp r ''view'' in checks
     [validateBase H ''work-object'' (workObjectRequired @ [''createdAt'']) workObjectRequired r b,
      identifierCheck ''WKO'' (getp r ''objectId''),
      identifierCheck ''PROC'' (getp r ''processId''),
      unlessNull (getp r ''taskInstanceId'') (stringCheck (getp r ''taskInstanceId'')),
      exactly view [''type'', ''schema'', ''dataRef'', ''actions''],
      enumerationCheck workObjectViewTypes (getp view ''type''),
      objectCheck (getp view ''schema''),
      patternCheck (\<lambda>s. startsWith s ''sfref:'') (getp view ''dataRef''),
      arrayOf workObjectAction (getp view ''actions''),
      optionally r ''createdAt'' timestampCheck])"

definition createWorkObject :: "hash_function \<Rightarrow> jsval \<Rightarrow> jsval result" where
  "createWorkObject H = createContract H ''work-object'' (validateWorkObjectRecord H) unprepared
     (pick [''processId'', ''taskInstanceId'', ''view''])"

definition validateWorkObject :: "hash_function \<Rightarrow> jsval \<Rightarrow> jsval result" where
  "validateWorkObject H = returnValidated (validateWorkObjectRecord H)"

end
