(* ===== verification/SgosContracts.thy ===== *)
theory SgosContracts
  imports SgosCandidates SgosLeases SgosContractsFork SgosContractsControl SgosContractsEvidence
begin

text \<open>
  The end of \<open>src/sgos/contracts.mjs\<close>: the table of validators, \<open>validateSgosRecord\<close>, which
  picks one by the kind of the record, and the properties every record family has.
\<close>

section \<open>Dispatch\<close>

text \<open>
  \<open>recordValidators\<close> holds the validator of every family; the exported function of a family
  is \<open>returnValidated\<close> of its entry.
\<close>

definition recordValidators :: "hash_function \<Rightarrow> (nat list \<Rightarrow> string) \<Rightarrow> (string \<times> validator) list" where
  "recordValidators H hashBytes =
     [(''intent-envelope'', validateIntentEnvelopeRecord H),
      (''intent-ir'', validateIntentIrRecord H),
      (''workflow-ir'', validateWorkflowIrRecord H),
      (''workflow-ratification'', validateWorkflowRatificationRecord H),
      (''policy-snapshot'', validatePolicySnapshotRecord H),
      (''candidate-snapshot'', validateCandidateSnapshotRecord H),
      (''resource-lease'', validateResourceLeaseRecord H),
      (''join-receipt'', validateJoinReceiptRecord H),
      (''quorum-join-receipt'', validateQuorumJoinReceiptRecord H),
      (''reducer-join-receipt'', validateReducerJoinReceiptRecord H),
      (''manual-reconcile-join-receipt'', validateManualReconcileJoinReceiptRecord H),
      (''effect-replay-receipt'', validateEffectReplayReceiptRecord H),
      (''effect-retry-receipt'', validateEffectRetryReceiptRecord H),
      (''fork-prefix-task-import'', validateForkPrefixTaskImportRecord H),
      (''fork-prefix-import-receipt'', validateForkPrefixImportReceiptRecord H),
      (''fork-dynamic-task-import'', validateForkDynamicTaskImportRecord H),
      (''fork-dynamic-prefix-import-receipt'', validateForkDynamicPrefixImportReceiptRecord H),
      (''fanout-expansion-receipt'', validateFanoutExpansionReceiptRecord H),
      (''dynamic-fanout-collection'', validateDynamicFanoutCollectionRecord H),
      (''dynamic-fanout-expansion-receipt'', validateDynamicFanoutExpansionReceiptRecord H),
      (''sgos-replay-plan'', validateSgosReplayPlanRecord H),
      (''process-binding'', validateProcessBindingRecord H),
      (''gvm-program'', validateGvmProgramRecord H),
      (''gvm-process'', validateGvmProcessRecord H),
      (''sgos-record-index'', validateSgosRecordIndexRecord H),
      (''sgos-control-event'', validateSgosControlEventRecord H),
      (''sgos-control-successor'', validateSgosControlSuccessorRecord H),
      (''sgos-transition-intent'', validateSgosTransitionIntentRecord H),
      (''gvm-task-attempt'', validateGvmTaskAttemptRecord H),
      (''gvm-task-receipt'', validateGvmTaskReceiptRecord H),
      (''gvm-checkpoint'', validateGvmCheckpointRecord H),
      (''human-request'', validateHumanRequestRecord H),
      (''human-response'', validateHumanResponseRecord H),
      (''agent-proposal'', validateAgentProposalRecord H hashBytes),
      (''action-evidence'', validateActionEvidenceRecord H),
      (''work-object'', validateWorkObjectRecord H)]"

text \<open>
  \<open>VALIDATORS[value.kind]\<close> also finds the members of \<open>Object.prototype\<close>. Called as a plain
  function, \<open>constructor\<close> returns the record itself, \<open>toString\<close> a text, and the others throw.
\<close>

definition inheritedMembers :: "string list" where
  "inheritedMembers =
     [''constructor'', ''toString'', ''toLocaleString'', ''valueOf'', ''hasOwnProperty'', ''isPrototypeOf'',
      ''propertyIsEnumerable'', ''__proto__'', ''__defineGetter__'', ''__defineSetter__'', ''__lookupGetter__'',
      ''__lookupSetter__'']"

definition callInherited :: "string \<Rightarrow> jsval \<Rightarrow> jsval result" where
  "callInherited member v =
     (if member = ''constructor'' then Inr v
      else if member = ''toString'' then Inr (JStr ''[object Undefined]'')
      else if member \<in> set inheritedMembers then Inl NativeError
      else fail contractInvalid)"

definition validateSgosRecord :: "hash_function \<Rightarrow> (nat list \<Rightarrow> string) \<Rightarrow> jsval \<Rightarrow> jsval result" where
  "validateSgosRecord H hashBytes v =
     (if \<not> plainObject v \<or> \<not> isString (getp v ''kind'') then fail contractInvalid
      else case map_of (recordValidators H hashBytes) (stringOf (getp v ''kind'')) of
        Some validator \<Rightarrow> returnValidated validator v
      | None \<Rightarrow> callInherited (stringOf (getp v ''kind'')) v)"

definition sgosContractFamilies :: "string list" where
  "sgosContractFamilies = map fst sgosContracts"

section \<open>Every family is a contract family\<close>

lemma checked_partial_base:
  assumes "checks (validateBase H family allowed required r b # cs) = Inr ()"
  shows "plainObject r \<and> getp r ''schemaVersion'' = JNum (currentSchemaVersion family) \<and>
    getp r ''kind'' = JStr family \<and> verifySelfHash H family r b = Inr ()"
proof -
  have "validateBase H family allowed required r b = Inr ()"
    using assms by (auto simp: andThen_Inr)
  from validateBase_Inr(1-4) [OF this] show ?thesis by simp
qed

lemma checked_base:
  assumes "checks (fullBase H family names r b # cs) = Inr ()"
  shows "plainObject r \<and> getp r ''schemaVersion'' = JNum (currentSchemaVersion family) \<and>
    getp r ''kind'' = JStr family \<and> verifySelfHash H family r b = Inr ()"
  using assms unfolding fullBase_def by (rule checked_partial_base)

lemmas work_validators =
  validateIntentEnvelopeRecord_def validateIntentIrRecord_def validateWorkflowIrRecord_def
  validateWorkflowRatificationRecord_def validatePolicySnapshotRecord_def
  validateCandidateSnapshotRecord_def validateResourceLeaseRecord_def

lemmas receipt_validators =
  validateJoinReceiptRecord_def validateQuorumJoinReceiptRecord_def validateReducerJoinReceiptRecord_def
  validateManualReconcileJoinReceiptRecord_def validateEffectReplayReceiptRecord_def
  validateEffectRetryReceiptRecord_def validateForkPrefixTaskImportRecord_def
  validateForkPrefixImportReceiptRecord_def validateForkDynamicTaskImportRecord_def
  validateForkDynamicPrefixImportReceiptRecord_def taskImportCheck_def
  validateFanoutExpansionReceiptRecord_def validateDynamicFanoutCollectionRecord_def
  validateDynamicFanoutExpansionReceiptRecord_def validateSgosReplayPlanRecord_def

lemmas process_validators =
  validateProcessBindingRecord_def validateGvmProgramRecord_def validateGvmProcessRecord_def
  validateSgosRecordIndexRecord_def validateSgosControlEventRecord_def
  validateSgosControlSuccessorRecord_def validateSgosTransitionIntentRecord_def
  validateGvmTaskAttemptRecord_def validateGvmTaskReceiptRecord_def validateGvmCheckpointRecord_def
  validateHumanRequestRecord_def validateHumanResponseRecord_def validateAgentProposalRecord_def
  validateActionEvidenceRecord_def validateWorkObjectRecord_def

lemma family_work:
  "contract_family H ''intent-envelope'' (validateIntentEnvelopeRecord H)"
  "contract_family H ''intent-ir'' (validateIntentIrRecord H)"
  "contract_family H ''workflow-ir'' (validateWorkflowIrRecord H)"
  "contract_family H ''workflow-ratification'' (validateWorkflowRatificationRecord H)"
  "contract_family H ''policy-snapshot'' (validatePolicySnapshotRecord H)"
  "contract_family H ''candidate-snapshot'' (validateCandidateSnapshotRecord H)"
  "contract_family H ''resource-lease'' (validateResourceLeaseRecord H)"
  by (unfold_locales; unfold work_validators Let_def; erule checked_base checked_partial_base)+

lemma family_receipts:
  "contract_family H ''join-receipt'' (validateJoinReceiptRecord H)"
  "contract_family H ''quorum-join-receipt'' (validateQuorumJoinReceiptRecord H)"
  "contract_family H ''reducer-join-receipt'' (validateReducerJoinReceiptRecord H)"
  "contract_family H ''manual-reconcile-join-receipt'' (validateManualReconcileJoinReceiptRecord H)"
  "contract_family H ''effect-replay-receipt'' (validateEffectReplayReceiptRecord H)"
  "contract_family H ''effect-retry-receipt'' (validateEffectRetryReceiptRecord H)"
  "contract_family H ''fork-prefix-task-import'' (validateForkPrefixTaskImportRecord H)"
  "contract_family H ''fork-prefix-import-receipt'' (validateForkPrefixImportReceiptRecord H)"
  "contract_family H ''fork-dynamic-task-import'' (validateForkDynamicTaskImportRecord H)"
  "contract_family H ''fork-dynamic-prefix-import-receipt'' (validateForkDynamicPrefixImportReceiptRecord H)"
  "contract_family H ''fanout-expansion-receipt'' (validateFanoutExpansionReceiptRecord H)"
  "contract_family H ''dynamic-fanout-collection'' (validateDynamicFanoutCollectionRecord H)"
  "contract_family H ''dynamic-fanout-expansion-receipt'' (validateDynamicFanoutExpansionReceiptRecord H)"
  "contract_family H ''sgos-replay-plan'' (validateSgosReplayPlanRecord H)"
  by (unfold_locales; unfold receipt_validators Let_def; erule checked_base)+

lemma family_process:
  "contract_family H ''process-binding'' (validateProcessBindingRecord H)"
  "contract_family H ''gvm-program'' (validateGvmProgramRecord H)"
  "contract_family H ''gvm-process'' (validateGvmProcessRecord H)"
  "contract_family H ''sgos-record-index'' (validateSgosRecordIndexRecord H)"
  "contract_family H ''sgos-control-event'' (validateSgosControlEventRecord H)"
  "contract_family H ''sgos-control-successor'' (validateSgosControlSuccessorRecord H)"
  "contract_family H ''sgos-transition-intent'' (validateSgosTransitionIntentRecord H)"
  "contract_family H ''gvm-task-attempt'' (validateGvmTaskAttemptRecord H)"
  "contract_family H ''gvm-task-receipt'' (validateGvmTaskReceiptRecord H)"
  "contract_family H ''gvm-checkpoint'' (validateGvmCheckpointRecord H)"
  "contract_family H ''human-request'' (validateHumanRequestRecord H)"
  "contract_family H ''human-response'' (validateHumanResponseRecord H)"
  "contract_family H ''agent-proposal'' (validateAgentProposalRecord H hashBytes)"
  "contract_family H ''action-evidence'' (validateActionEvidenceRecord H)"
  "contract_family H ''work-object'' (validateWorkObjectRecord H)"
  by (unfold_locales; unfold process_validators Let_def; erule checked_base checked_partial_base)+

lemma every_family:
  "(family, validator) \<in> set (recordValidators H hashBytes) \<Longrightarrow> contract_family H family validator"
  unfolding recordValidators_def
  by (auto simp only: list.set insert_iff empty_iff prod.inject intro: family_work family_receipts family_process)

interpretation leaseRecords: contract_family H "''resource-lease''" "validateResourceLeaseRecord H" for H
  by (rule family_work)

interpretation programRecords: contract_family H "''gvm-program''" "validateGvmProgramRecord H" for H
  by (rule family_process)

lemma recordValidators_distinct: "distinct (map fst (recordValidators H hashBytes))"
  unfolding recordValidators_def by simp

lemma validator_kinds:
  "(''constructor'', c) \<notin> set (recordValidators H hashBytes)" "(''toString'', c) \<notin> set (recordValidators H hashBytes)"
  unfolding recordValidators_def by simp_all

lemma callInherited_Inr:
  "callInherited k v = Inr r \<longleftrightarrow>
     k = ''constructor'' \<and> r = v \<or> k = ''toString'' \<and> r = JStr ''[object Undefined]''"
  by (auto simp: callInherited_def)

lemma dispatch_family:
  assumes "(family, validator) \<in> set (recordValidators H hashBytes)" "plainObject v"
    and "getp v ''kind'' = JStr family"
  shows "validateSgosRecord H hashBytes v = returnValidated validator v"
  using assms map_of_is_SomeI [OF recordValidators_distinct assms(1)] by (simp add: validateSgosRecord_def)

section \<open>Properties of every record family\<close>


text \<open>
  C7: An accepted record of a family is JSON, has the current schema version and carries the
  SHA-256 of the canonical text of all its other fields.
\<close>
theorem accepted_record:
  assumes "(family, validator) \<in> set (recordValidators H hashBytes)"
    and "getp v ''kind'' = JStr family"
    and "validateSgosRecord H hashBytes v = Inr r"
  shows "r = v \<and> jsonSafe v \<and> getp v ''schemaVersion'' = JNum (currentSchemaVersion family) \<and>
    getp v (descriptorHash (contractOf family)) =
      JStr (sgosSha256 H (JObj (deleteField (descriptorHash (contractOf family)) (fieldsOf v))))"
proof -
  note family = every_family [OF assms(1)]
  have obj: "plainObject v" using assms(3) by (simp add: validateSgosRecord_def split: if_splits)
  then have read: "returnValidated validator v = Inr r"
    using dispatch_family [OF assms(1) obj assms(2)] assms(3) by simp
  from contract_family.read_same [OF family read]
  have "r = v" "validator v True = Inr ()" "jsonSafe v" by auto
  with contract_family.self_hash [OF family] contract_family.based [OF family] show ?thesis by blast
qed

text \<open>
  C13: Every creator is an instance of \<open>createContract\<close>, and what it returns is accepted and
  returned unchanged by \<open>validateSgosRecord\<close>; a digest the caller supplied is the digest stored.
\<close>
theorem created_record:
  assumes "(family, validator) \<in> set (recordValidators H hashBytes)"
    and "createContract H family validator prepare identity source = Inr r"
  shows "validateSgosRecord H hashBytes r = Inr r \<and>
    (\<not> nullish (getp source (descriptorHash (contractOf family))) \<longrightarrow>
       getp r (descriptorHash (contractOf family)) = getp source (descriptorHash (contractOf family)))"
proof
  note family = every_family [OF assms(1)]
  have valid: "validator r True = Inr ()" "jsonSafe r"
    using contract_family.created_valid [OF family assms(2)] by auto
  then have "plainObject r" "getp r ''kind'' = JStr family"
    using contract_family.based [OF family] by blast+
  then show "validateSgosRecord H hashBytes r = Inr r"
    using dispatch_family [OF assms(1)] contract_family.created_read_back [OF family assms(2)] by simp
  show "\<not> nullish (getp source (descriptorHash (contractOf family))) \<longrightarrow>
       getp r (descriptorHash (contractOf family)) = getp source (descriptorHash (contractOf family))"
    using assms(2) unfolding createContract_def Let_def andThen_Inr if_fail_Inr cloneJson_Inr by auto
qed


section \<open>Examples\<close>

definition successorCore :: "int \<Rightarrow> fields" where
  "successorCore depth =
     [(''processId'', JStr ''PROC-ABCDEF''), (''beforeProcessSha256'', JStr sampleDigest),
      (''controlEventSha256'', JStr sampleDigest), (''controlDepth'', JNum depth),
      (''operatorTransitionCount'', JNum 1), (''cumulativeInfrastructureBytes'', JNum 10),
      (''cumulativeInfrastructureRecords'', JNum 3)]"

definition sampleSuccessor :: "int \<Rightarrow> jsval" where
  "sampleSuccessor depth = JObj (successorCore depth @ [(''schemaVersion'', JNum 1),
     (''kind'', JStr ''sgos-control-successor''), (''successorSha256'', JStr sampleDigest)])"

lemma successor_family:
  "(''sgos-control-successor'', validateSgosControlSuccessorRecord H) \<in> set (recordValidators H hashBytes)"
  unfolding recordValidators_def by simp

lemma successor_created:
  "createSgosControlSuccessor sampleHash (JObj (successorCore 2)) = Inr (sampleSuccessor 2)"
  by code_simp

lemma successor_valid:
  "validateSgosControlSuccessorRecord sampleHash (sampleSuccessor 2) True = Inr ()"
  "validateSgosControlSuccessorRecord sampleHash (sampleSuccessor 5) True = Inr ()"
  by code_simp+

lemma successor_kind: "getp (sampleSuccessor 2) ''kind'' = JStr ''sgos-control-successor''"
  by code_simp

lemma accepted_record_witness:
  "getp (sampleSuccessor 2) ''successorSha256'' = JStr (sgosSha256 sampleHash
     (JObj (deleteField ''successorSha256'' (fieldsOf (sampleSuccessor 2)))))"
proof -
  have h: "descriptorHash (contractOf ''sgos-control-successor'') = ''successorSha256''" by code_simp
  have "validateSgosRecord sampleHash (\<lambda>_. []) (sampleSuccessor 2) = Inr (sampleSuccessor 2)"
    using dispatch_family [OF successor_family _ successor_kind]
      contract_family.created_read_back [OF every_family [OF successor_family]
        successor_created [unfolded createSgosControlSuccessor_def]]
    by (simp add: sampleSuccessor_def)
  from accepted_record [OF successor_family successor_kind this] show ?thesis by (simp add: h)
qed

lemma created_record_witness:
  "validateSgosRecord sampleHash (\<lambda>_. []) (sampleSuccessor 2) = Inr (sampleSuccessor 2)"
  using created_record [OF successor_family successor_created [unfolded createSgosControlSuccessor_def]] by blast


end
