(* ===== verification/SgosCompilerInput.thy ===== *)
theory SgosCompilerInput
  imports SgosContracts Complex_Main
begin

text \<open>
  The first stage of \<open>src/sgos/compiler.mjs\<close>: the conversions the compiler applies to dynamic
  values, the normalized compile request, the bindings a ratification has to carry, and the clauses
  a confirmed intent contributes.

  \<open>structuredClone\<close> of a JSON value is the value. A guard of the compiler fails with the code the
  source passes to \<open>fail\<close>; a \<open>TypeError\<close> of the language stays a \<open>NativeError\<close>.
\<close>

section \<open>Conversions\<close>

text \<open>
  \<open>Number(text)\<close>: the text, trimmed, is empty, a numeral with a base prefix, a decimal with an
  optional fraction and exponent, or an infinity. A decimal is kept exactly as a mantissa and a power
  of ten; a binary double would round one with more than fifteen significant digits.
\<close>

definition digitsValue :: "nat \<Rightarrow> string \<Rightarrow> int" where
  "digitsValue base s = foldl (\<lambda>n c. int base * n +
     int (if isDigit c then codePoint c - 48 else codePoint (toLowerChar c) - 87)) 0 s"

definition unsignedDecimal :: "string \<Rightarrow> (int \<times> int) option" where
  "unsignedDecimal s =
     (let whole = takeWhile isDigit s; afterWhole = dropWhile isDigit s;
          dotted = afterWhole \<noteq> [] \<and> hd afterWhole = CHR ''.'';
          frac = (if dotted then takeWhile isDigit (tl afterWhole) else []);
          tail = (if dotted then dropWhile isDigit (tl afterWhole) else afterWhole);
          mantissa = digitsValue 10 (whole @ frac); scale = - int (length frac)
      in if whole = [] \<and> frac = [] then None
         else case tail of [] \<Rightarrow> Some (mantissa, scale)
         | c # rest \<Rightarrow>
           if c \<noteq> CHR ''e'' \<and> c \<noteq> CHR ''E'' then None
           else let negative = rest \<noteq> [] \<and> hd rest = CHR ''-'';
                    digits = (if rest \<noteq> [] \<and> (hd rest = CHR ''-'' \<or> hd rest = CHR ''+'') then tl rest else rest)
                in if digits = [] \<or> \<not> list_all isDigit digits then None
                   else Some (mantissa, scale + (if negative then - digitsValue 10 digits else digitsValue 10 digits)))"

definition decimalNumber :: "string \<Rightarrow> (int \<times> int) option" where
  "decimalNumber s =
     (if s \<noteq> [] \<and> hd s = CHR ''-'' then map_option (\<lambda>(m, e). (- m, e)) (unsignedDecimal (tl s))
      else if s \<noteq> [] \<and> hd s = CHR ''+'' then unsignedDecimal (tl s)
      else unsignedDecimal s)"

definition prefixedNumber :: "string \<Rightarrow> int option" where
  "prefixedNumber s =
     (let marker = toLowerCase (take 2 s); digits = drop 2 s in
      if digits = [] then None
      else if marker = ''0x'' \<and> list_all (\<lambda>c. isHex (toLowerChar c)) digits then Some (digitsValue 16 digits)
      else if marker = ''0o'' \<and> list_all (\<lambda>c. isDigit c \<and> codePoint c < 56) digits then Some (digitsValue 8 digits)
      else if marker = ''0b'' \<and> list_all (\<lambda>c. c = CHR ''0'' \<or> c = CHR ''1'') digits then Some (digitsValue 2 digits)
      else None)"

definition wholeNumber :: "int \<times> int \<Rightarrow> int option" where
  "wholeNumber me = (case me of (m, e) \<Rightarrow>
     if 0 \<le> e then Some (m * 10 ^ nat e)
     else if m mod 10 ^ nat (- e) = 0 then Some (m div 10 ^ nat (- e)) else None)"

definition printedNumber :: "string \<Rightarrow> int option \<Rightarrow> jsval" where
  "printedNumber text n =
     (case n of Some i \<Rightarrow> if \<bar>i\<bar> < 10 ^ 21 then JNum i else JFrac text | None \<Rightarrow> JFrac text)"

definition textNumber :: "string \<Rightarrow> jsval" where
  "textNumber s =
     (let t = trim s in
      if t = [] then JNum 0
      else case prefixedNumber t of Some i \<Rightarrow> printedNumber t (Some i)
      | None \<Rightarrow>
        (case decimalNumber t of Some me \<Rightarrow> printedNumber t (wholeNumber me)
         | None \<Rightarrow> if t = ''Infinity'' \<or> t = ''+Infinity'' then JFrac ''Infinity''
                   else if t = ''-Infinity'' then JFrac t else JFrac ''NaN''))"

fun jsNumber :: "jsval \<Rightarrow> jsval" where
  "jsNumber JUndef = JFrac ''NaN''"
| "jsNumber JNull = JNum 0"
| "jsNumber (JBool b) = JNum (if b then 1 else 0)"
| "jsNumber (JNum n) = JNum n"
| "jsNumber (JFrac t) = JFrac t"
| "jsNumber (JStr s) = textNumber s"
| "jsNumber (JArr xs) = textNumber (jsString (JArr xs))"
| "jsNumber (JObj fs) = JFrac ''NaN''"

text \<open>The value of a number, for sums and comparisons.\<close>

datatype js_number = Finite rat | Infinite bool | NotANumber

definition numericValue :: "jsval \<Rightarrow> js_number" where
  "numericValue v =
     (case v of
        JNum n \<Rightarrow> Finite (of_int n)
      | JFrac t \<Rightarrow>
         (if t = ''Infinity'' then Infinite True
          else if t = ''-Infinity'' then Infinite False
          else case prefixedNumber t of Some i \<Rightarrow> Finite (of_int i)
          | None \<Rightarrow>
            (case decimalNumber t of
               Some (m, e) \<Rightarrow> Finite (if 0 \<le> e then of_int (m * 10 ^ nat e) else of_int m / of_int (10 ^ nat (- e)))
             | None \<Rightarrow> NotANumber))
      | _ \<Rightarrow> NotANumber)"

fun addNumbers :: "js_number \<Rightarrow> js_number \<Rightarrow> js_number" where
  "addNumbers (Finite p) (Finite q) = Finite (p + q)"
| "addNumbers (Infinite b) (Finite q) = Infinite b"
| "addNumbers (Finite p) (Infinite b) = Infinite b"
| "addNumbers (Infinite b) (Infinite c) = (if b = c then Infinite b else NotANumber)"
| "addNumbers NotANumber v = NotANumber"
| "addNumbers u NotANumber = NotANumber"

fun exceeds :: "js_number \<Rightarrow> int \<Rightarrow> bool" where
  "exceeds (Finite p) n = (of_int n < p)"
| "exceeds (Infinite b) n = b"
| "exceeds NotANumber n = False"

text \<open>The compiler's \<open>present\<close>, \<open>firstValue\<close>, \<open>sortedUniqueStrings\<close> and \<open>canonicalCompare\<close>.\<close>

fun present :: "jsval \<Rightarrow> bool" where
  "present JUndef = False"
| "present JNull = False"
| "present (JBool b) = b"
| "present (JNum n) = True"
| "present (JFrac t) = True"
| "present (JStr s) = (trim s \<noteq> [])"
| "present (JArr xs) = list_ex present xs"
| "present (JObj fs) = list_ex (\<lambda>f. present (snd f)) fs"

definition firstValue :: "jsval list \<Rightarrow> jsval" where
  "firstValue values = (case find (\<lambda>v. \<not> nullish v \<and> v \<noteq> JStr []) values of None \<Rightarrow> JUndef | Some v \<Rightarrow> v)"

definition flattened :: "jsval \<Rightarrow> jsval list" where
  "flattened v = (case v of JArr ys \<Rightarrow> ys | _ \<Rightarrow> [v])"

definition sortedTexts :: "jsval list \<Rightarrow> string list" where
  "sortedTexts values = sortPoints (dedupe (map (\<lambda>v. trim (jsString v))
     (filter (\<lambda>v. \<not> nullish v \<and> trim (jsString v) \<noteq> []) values)))"

definition sortedUniqueStrings :: "jsval \<Rightarrow> string list result" where
  "sortedUniqueStrings values =
     (if nullish values then Inr []
      else case values of JArr xs \<Rightarrow> Inr (sortedTexts (concat (map flattened xs))) | _ \<Rightarrow> Inl NativeError)"

definition canonicalText :: "jsval \<Rightarrow> string" where
  "canonicalText v = (case v of JStr s \<Rightarrow> s | _ \<Rightarrow> canonicalJson v)"

definition canonicalCompare :: "jsval \<Rightarrow> jsval \<Rightarrow> int" where
  "canonicalCompare left right = compareSgosCodePoints (canonicalText left) (canonicalText right)"

definition safeId :: "string \<Rightarrow> bool" where
  "safeId s \<longleftrightarrow> s \<noteq> [] \<and> isAlnum (hd s) \<and> length s \<le> 200 \<and>
     list_all (\<lambda>c. isAlnum c \<or> c \<in> {CHR ''.'', CHR ''_'', CHR '':'', CHR ''-''}) (tl s)"

definition requireDigest :: "jsval \<Rightarrow> string result" where
  "requireDigest value =
     (let text = jsString (coalesce value (JStr [])) in
      if sha256Pattern text then Inr text else fail ''SGOS_PINNED_DIGEST_REQUIRED'')"

text \<open>\<open>catch (error) { fail(error?.code ?? fallback, ...) }\<close>.\<close>

definition rewrap :: "string \<Rightarrow> 'a result \<Rightarrow> 'a result" where
  "rewrap fallback r = (case r of Inl NativeError \<Rightarrow> fail fallback | _ \<Rightarrow> r)"

definition hashableRecord :: "jsval \<Rightarrow> string list \<Rightarrow> jsval" where
  "hashableRecord value hashFields =
     JObj (filter (\<lambda>f. fst f \<notin> set hashFields \<union> {''recordSha256''}) (fieldsOf value))"

definition recordDigest :: "hash_function \<Rightarrow> jsval \<Rightarrow> string \<Rightarrow> string result" where
  "recordDigest H value field =
     (let actual = sgosSha256 H (hashableRecord value [field]); supplied = getp value field in
      if \<not> nullish supplied \<and> supplied \<noteq> JStr actual then fail ''SGOS_CONTENT_HASH_MISMATCH'' else Inr actual)"

definition validateCompileContract :: "jsval \<Rightarrow> (jsval \<Rightarrow> jsval result) \<Rightarrow> string \<Rightarrow> jsval result" where
  "validateCompileContract value validator code = recode code (validator value)"

section \<open>The request\<close>

record compile_request =
  requestIntent :: jsval
  requestWorkflow :: jsval
  requestRatification :: jsval
  requestRegistry :: jsval
  requestPolicySha256 :: jsval
  requestRegistrySha256 :: jsval
  requestStorageSha256 :: jsval
  requestPackAuthority :: jsval
  requestCoverage :: jsval

definition normalizeRequest :: "jsval \<Rightarrow> compile_request result" where
  "normalizeRequest request =
     (if \<not> plainObject request then fail ''SGOS_COMPILE_INPUT_INVALID''
      else
        let field = getp request;
            workflow = coalesce (field ''workflow'') (field ''workflowIr'');
            pins = coalesceAll [field ''pins'', field ''pinnedPolicyDigests'', JObj []];
            registry = (if plainObject (field ''registrySnapshot'') then field ''registrySnapshot'' else JNull)
        in Inr \<lparr>
          requestIntent = coalesce (field ''intentIr'') (field ''intent''),
          requestWorkflow = workflow,
          requestRatification = coalesce (field ''ratification'') (field ''workflowRatification''),
          requestRegistry = registry,
          requestPolicySha256 = firstValue [field ''policySnapshotSha256'', getp pins ''policySnapshotSha256'',
            getp pins ''policy'', getp workflow ''policySnapshotSha256''],
          requestRegistrySha256 = firstValue [field ''registrySnapshotSha256'', getp pins ''registrySnapshotSha256'',
            getp pins ''registry'', getp registry ''registrySnapshotSha256'', getp registry ''snapshotSha256''],
          requestStorageSha256 = firstValue [field ''storageProfileSha256'', getp pins ''storageProfileSha256'',
            getp pins ''storage'', getp workflow ''storageProfileSha256''],
          requestPackAuthority = coalesce (field ''capabilityPackAuthority'') JNull,
          requestCoverage = coalesce (field ''intentWorkflowMap'') JNull\<rparr>)"

section \<open>Ratification\<close>

definition ratificationDecision :: "jsval \<Rightarrow> string" where
  "ratificationDecision ratification =
     (if getp ratification ''ratified'' = JBool True \<or> getp ratification ''approved'' = JBool True then ''ratified''
      else toLowerCase (trim (jsString (coalesceAll
        [getp ratification ''decision'', getp ratification ''status'', JStr []]))))"

definition ratificationBinding :: "jsval \<Rightarrow> string list \<Rightarrow> jsval" where
  "ratificationBinding ratification names =
     (let bindings = coalesceAll [getp ratification ''bindings'', getp ratification ''approvedBindings'', JObj []] in
      case find (\<lambda>v. \<not> nullish v) (map (getp ratification) names @ map (getp bindings) names) of
        None \<Rightarrow> JNull | Some v \<Rightarrow> v)"

record pinned_digests =
  pinnedIntent :: string
  pinnedWorkflow :: string
  pinnedPolicy :: string
  pinnedRegistry :: string
  pinnedStorage :: string

definition requiredBinding :: "jsval \<Rightarrow> string list \<Rightarrow> string \<Rightarrow> unit result" where
  "requiredBinding ratification names expected =
     (let received = ratificationBinding ratification names in checks
       [refuseIf (nullish received) ''SGOS_RATIFICATION_BINDING_MISSING'',
        refuseIf (received \<noteq> JStr expected) ''SGOS_RATIFICATION_BINDING_MISMATCH''])"

definition optionalBinding :: "jsval \<Rightarrow> string list \<Rightarrow> string \<Rightarrow> unit result" where
  "optionalBinding ratification names expected =
     (let received = ratificationBinding ratification names in
      refuseIf (\<not> nullish received \<and> received \<noteq> JStr expected) ''SGOS_RATIFICATION_BINDING_MISMATCH'')"

definition assertRatificationBindings :: "jsval \<Rightarrow> pinned_digests \<Rightarrow> unit result" where
  "assertRatificationBindings ratification expected = checks
     [refuseIf (ratificationDecision ratification \<notin> {''approved'', ''ratified'', ''accepted''})
        ''SGOS_WORKFLOW_NOT_RATIFIED'',
      requiredBinding ratification [''intentIrSha256'', ''intentSha256''] (pinnedIntent expected),
      requiredBinding ratification [''workflowSha256'', ''approvedWorkflowSha256''] (pinnedWorkflow expected),
      requiredBinding ratification [''policySnapshotSha256'', ''policySha256''] (pinnedPolicy expected),
      optionalBinding ratification [''registrySnapshotSha256'', ''registrySha256''] (pinnedRegistry expected),
      optionalBinding ratification [''storageProfileSha256'', ''storageSha256''] (pinnedStorage expected)]"

definition coverageSources :: "jsval \<Rightarrow> jsval \<Rightarrow> jsval list" where
  "coverageSources workflow ratification = filter plainObject
     [getp ratification ''intentWorkflowMap'', getp ratification ''coverage'',
      getp workflow ''intentWorkflowMap'', getp workflow ''coverage'',
      getp (getp workflow ''spec'') ''intentWorkflowMap'', getp (getp workflow ''spec'') ''coverage'']"

definition assertRequestCoverageWasRatified :: "jsval \<Rightarrow> jsval \<Rightarrow> jsval \<Rightarrow> unit result" where
  "assertRequestCoverageWasRatified coverage workflow ratification =
     (if nullish coverage then Inr ()
      else refuseIf (\<not> list_ex (\<lambda>v. canonicalJson v = canonicalJson coverage) (coverageSources workflow ratification))
        ''SGOS_UNRATIFIED_COVERAGE'')"

section \<open>Clauses\<close>

record intent_clause =
  clauseId :: string
  clauseField :: string
  clauseProvenanceOf :: jsval
  clauseRequired :: bool
  clauseValue :: jsval

definition clauseFields :: "string list" where
  "clauseFields = [''objective'', ''outcomes'', ''successCriteria'', ''constraints'', ''invariants'',
     ''preferences'', ''nonGoals'', ''assumptions'', ''unknowns'', ''contradictions'', ''risks'',
     ''evidenceExpectations'', ''authorityRequirements'', ''budgets'']"

definition confirmedProvenance :: "string list" where
  "confirmedProvenance = [''explicit'', ''human-confirmed'', ''source-imported'', ''policy-derived'',
     ''domain-derived'', ''deterministic-derived'', ''defaulted'', ''reverse-converged'']"

definition clauseProvenance :: "jsval \<Rightarrow> jsval" where
  "clauseProvenance value =
     (let provenance = getp value ''provenance'' in
      if isString provenance then provenance
      else if plainObject provenance
      then coalesceAll [getp provenance ''kind'', getp provenance ''type'', getp provenance ''source'', JNull]
      else JNull)"

definition clauseIdentifier :: "jsval \<Rightarrow> string \<Rightarrow> jsval \<Rightarrow> nat \<Rightarrow> string" where
  "clauseIdentifier intentIr field value index =
     (let explicit = coalesce (getp value ''clauseId'') (getp value ''id'');
          intentId = jsString (coalesce (getp intentIr ''intentId'') (JStr ''intent'')) in
      if \<not> nullish explicit \<and> trim (jsString explicit) \<noteq> [] then trim (jsString explicit)
      else if field = ''objective'' then intentId @ '':objective''
      else intentId @ '':'' @ field @ '':'' @ showNat (Suc index))"

definition clauseValues :: "jsval \<Rightarrow> string \<Rightarrow> (string \<times> nat \<times> jsval) list" where
  "clauseValues intentIr field =
     (let raw = getp intentIr field;
          values = (if nullish raw then [] else if field = ''objective'' then [raw] else flattened raw)
      in map (\<lambda>(i, v). (field, i, v)) (zip [0..<length values] values))"

definition addClause :: "jsval \<Rightarrow> intent_clause list \<Rightarrow> string \<times> nat \<times> jsval \<Rightarrow> intent_clause list result" where
  "addClause intentIr clauses fiv = (case fiv of (field, index, value) \<Rightarrow>
     if \<not> plainObject value then fail ''SGOS_INTENT_PROVENANCE_MISSING''
     else
       let provenance = clauseProvenance value;
           confirmed = getp value ''confirmed'' = JBool True \<or> provenance \<in> JStr ` set confirmedProvenance;
           cid = clauseIdentifier intentIr field value index
       in if provenance = JStr ''model-proposed'' \<and> getp value ''confirmed'' \<noteq> JBool True then Inr clauses
          else if \<not> confirmed then fail ''SGOS_INTENT_PROVENANCE_INVALID''
          else if \<not> safeId cid then fail ''SGOS_INTENT_CLAUSE_ID_INVALID''
          else if cid \<in> set (map clauseId clauses) then fail ''SGOS_INTENT_CLAUSE_DUPLICATE''
          else Inr (clauses @ [\<lparr>clauseId = cid, clauseField = field, clauseProvenanceOf = provenance,
            clauseRequired = (getp value ''required'' \<noteq> JBool False \<and> getp value ''deferred'' \<noteq> JBool True),
            clauseValue = value\<rparr>]))"

definition extractConfirmedClauses :: "jsval \<Rightarrow> intent_clause list result" where
  "extractConfirmedClauses intentIr =
     andThen (foldResult (addClause intentIr) [] (concat (map (clauseValues intentIr) clauseFields)))
       (\<lambda>clauses. if clauses = [] then fail ''SGOS_INTENT_EMPTY'' else Inr (sortBy (byKey clauseId) clauses))"

definition confirmedSgosIntentClauses :: "hash_function \<Rightarrow> jsval \<Rightarrow> intent_clause list result" where
  "confirmedSgosIntentClauses H intentValue = andThen (validateIntentIr H intentValue) extractConfirmedClauses"

section \<open>Lemmas\<close>

lemma rewrap_Inr [result_simps]: "rewrap c r = Inr x \<longleftrightarrow> r = Inr x"
  by (auto simp: rewrap_def split: sum.splits sgos_error.splits)

lemma sortedTexts_sorted: "sorted_wrt (<) (sortedTexts vs)"
  by (simp add: sortedTexts_def)

lemma sortedTexts_set:
  "set (sortedTexts vs) = {trim (jsString v) | v. v \<in> set vs \<and> \<not> nullish v \<and> trim (jsString v) \<noteq> []}"
  by (auto simp: sortedTexts_def sortPoints_sort)

lemma sortedTexts_strings:
  assumes "list_all (\<lambda>s. trim s = s \<and> s \<noteq> []) ss"
  shows "sortedTexts (map JStr ss) = sortPoints (dedupe ss)"
proof -
  have "map (\<lambda>v. trim (jsString v)) (filter (\<lambda>v. \<not> nullish v \<and> trim (jsString v) \<noteq> []) (map JStr ss)) = ss"
    using assms by (induction ss) auto
  then show ?thesis by (simp add: sortedTexts_def)
qed

text \<open>The clauses are those of the intent that are confirmed, with distinct identifiers in order.\<close>

lemma foldResult_clauses:
  assumes "foldResult (addClause intentIr) cs vs = Inr ds" and "distinct (map clauseId cs)"
    and "list_all (\<lambda>c. safeId (clauseId c)) cs"
  shows "distinct (map clauseId ds) \<and> list_all (\<lambda>c. safeId (clauseId c)) ds"
  using assms
proof (induction vs arbitrary: cs)
  case (Cons v vs)
  then obtain es where step: "addClause intentIr cs v = Inr es" and rest: "foldResult (addClause intentIr) es vs = Inr ds"
    by (auto simp: andThen_Inr)
  have "distinct (map clauseId es) \<and> list_all (\<lambda>c. safeId (clauseId c)) es"
    using step Cons.prems(2,3) by (auto simp: addClause_def Let_def split: prod.splits if_splits)
  with rest Cons.IH show ?case by blast
qed simp

lemma extractConfirmedClauses_Inr:
  assumes "extractConfirmedClauses intentIr = Inr cs"
  shows "cs \<noteq> []" "sorted_wrt (<) (map clauseId cs)" "list_all (\<lambda>c. safeId (clauseId c)) cs"
proof -
  from assms obtain ds where ds: "foldResult (addClause intentIr) [] (concat (map (clauseValues intentIr) clauseFields)) = Inr ds"
      "ds \<noteq> []" "cs = sortBy (byKey clauseId) ds"
    by (auto simp: extractConfirmedClauses_def andThen_Inr split: if_splits)
  then have ok: "distinct (map clauseId ds)" "list_all (\<lambda>c. safeId (clauseId c)) ds"
    using foldResult_clauses [OF ds(1)] by auto
  show "cs \<noteq> []" using ds by simp
  show "list_all (\<lambda>c. safeId (clauseId c)) cs" using ok(2) ds(3) by (simp add: list_all_iff)
  show "sorted_wrt (<) (map clauseId cs)"
    using ok(1) ds(3) by (simp add: sortBy_byKey_keys sortPoints_sort strict_sorted_iff)
qed

end
