(* ===== verification/SgosCompilerRegistry.thy ===== *)
theory SgosCompilerRegistry
  imports SgosCompilerInput
begin

text \<open>
  The pinned registry snapshot of \<open>src/sgos/compiler.mjs\<close>: its closed vocabulary, its digest and the
  catalog of task kinds, operations, devices and execution units the compiler resolves names in. A
  \<open>Map\<close> of the catalog is an association list in insertion order.
\<close>

section \<open>The catalog\<close>

record registry_catalog =
  catalogKinds :: fields
  catalogOperations :: fields
  catalogDevices :: fields
  catalogUnits :: fields

definition addListed :: "fields \<Rightarrow> jsval \<Rightarrow> fields" where
  "addListed found entry =
     (let i = (if isString entry then entry
               else coalesceAll [getp entry ''id'', getp entry ''name'', getp entry ''kind'']) in
      if truthy i
      then setField (jsString i) (if plainObject entry then entry else JObj [(''id'', JStr (jsString i))]) found
      else found)"

definition addMapped :: "fields \<Rightarrow> string \<times> jsval \<Rightarrow> fields" where
  "addMapped found ie = (case ie of (i, entry) \<Rightarrow>
     setField i (if plainObject entry then entry else JObj [(''id'', JStr i), (''value'', entry)]) found)"

definition addNamed :: "jsval \<Rightarrow> fields \<Rightarrow> string \<Rightarrow> fields" where
  "addNamed snapshot found name =
     (case getp snapshot name of
        JArr xs \<Rightarrow> foldl addListed found xs
      | JObj fs \<Rightarrow> foldl addMapped found fs
      | _ \<Rightarrow> found)"

definition registryEntries :: "jsval \<Rightarrow> string list \<Rightarrow> fields" where
  "registryEntries snapshot names = (if \<not> truthy snapshot then [] else foldl (addNamed snapshot) [] names)"

definition registryCatalog :: "jsval \<Rightarrow> registry_catalog" where
  "registryCatalog snapshot = \<lparr>
     catalogKinds = registryEntries snapshot [''taskKinds'', ''tasks'', ''taskTypes''],
     catalogOperations = registryEntries snapshot [''operations'', ''kernelOperations'', ''domainOperations''],
     catalogDevices = registryEntries snapshot [''devices'', ''deviceKinds'', ''deviceManifests''],
     catalogUnits = registryEntries snapshot [''executionUnits'']\<rparr>"

section \<open>The snapshot\<close>

abbreviation registryInvalid :: string where
  "registryInvalid \<equiv> ''SGOS_REGISTRY_SNAPSHOT_INVALID''"

definition registryFields :: "string list" where
  "registryFields = [''kind'', ''operations'', ''taskKinds'', ''devices'', ''executionUnits'', ''registrySnapshotSha256'']"

definition registryEntryFields :: "string list" where
  "registryEntryFields = [''id'', ''version'', ''status'', ''manifestSha256'', ''opcode'', ''kind'']"

definition exactRegistryKeys :: "jsval \<Rightarrow> string list \<Rightarrow> unit result" where
  "exactRegistryKeys value allowed = checks
     [refuseIf (\<not> plainObject value) registryInvalid,
      refuseIf (\<not> list_all (\<lambda>f. fst f \<in> set allowed) (fieldsOf value)) registryInvalid]"

definition opcodeNamed :: "string \<Rightarrow> gvm_opcode option" where
  "opcodeNamed s = find (\<lambda>opcode. opcodeName opcode = s) gvmOpcodes"

text \<open>One turn of the loop: the map key or the listed identifier, and the entry.\<close>

definition registryEntry :: "string list \<Rightarrow> jsval \<times> jsval \<Rightarrow> string list result" where
  "registryEntry seen me = (case me of (mapId, entry) \<Rightarrow>
     andThen (exactRegistryKeys entry registryEntryFields) (\<lambda>_.
       let i = trim (jsString (coalesceAll [getp entry ''id'', mapId, JStr []]));
           version = getp entry ''version''; opcode = getp entry ''opcode''
       in andThen (checks
         [refuseIf (\<not> safeId i) registryInvalid,
          refuseIf (truthy mapId \<and> \<not> nullish (getp entry ''id'') \<and> jsString mapId \<noteq> i) registryInvalid,
          refuseIf (i \<in> set seen) registryInvalid,
          refuseIf (\<not> isString version \<or> trim (stringOf version) = []) registryInvalid,
          refuseIf (getp entry ''status'' \<noteq> JStr ''active'') registryInvalid]) (\<lambda>_.
         andThen (requireDigest (getp entry ''manifestSha256'')) (\<lambda>_.
         andThen (refuseIf (\<not> nullish opcode \<and> opcodeNamed (toUpperCase (jsString opcode)) = None) registryInvalid)
           (\<lambda>_. Inr (seen @ [i]))))))"

definition registryCollection :: "jsval \<Rightarrow> string \<Rightarrow> unit result" where
  "registryCollection snapshot field =
     andThen (case getp snapshot field of
         JArr xs \<Rightarrow> Inr (map (\<lambda>entry. (getp entry ''id'', entry)) xs)
       | JObj fs \<Rightarrow> Inr (map (\<lambda>(i, entry). (JStr i, entry)) fs)
       | _ \<Rightarrow> fail registryInvalid) (\<lambda>listed.
     andThen (foldResult registryEntry [] listed) (\<lambda>_. Inr ()))"

definition registrySnapshotDigest :: "hash_function \<Rightarrow> jsval \<Rightarrow> string result" where
  "registrySnapshotDigest H snapshot =
     (if \<not> plainObject snapshot then fail ''SGOS_REGISTRY_SNAPSHOT_REQUIRED''
      else Inr (sgosSha256 H (JObj (deleteField ''registrySnapshotSha256'' (fieldsOf snapshot)))))"

definition requiredCollection :: "jsval \<Rightarrow> string \<Rightarrow> unit result" where
  "requiredCollection snapshot field = checks
     [refuseIf (\<not> hasOwn snapshot field) registryInvalid, registryCollection snapshot field]"

definition validateRegistrySnapshot :: "hash_function \<Rightarrow> jsval \<Rightarrow> string \<Rightarrow> registry_catalog result" where
  "validateRegistrySnapshot H snapshot pinnedSha256 =
     (if \<not> plainObject snapshot then fail ''SGOS_REGISTRY_SNAPSHOT_REQUIRED''
      else andThen (checks
        [exactRegistryKeys snapshot registryFields,
         refuseIf (getp snapshot ''kind'' \<noteq> JStr ''registry-snapshot'') registryInvalid,
         eachOf (requiredCollection snapshot) [''operations'', ''taskKinds'', ''devices''],
         if hasOwn snapshot ''executionUnits'' then registryCollection snapshot ''executionUnits'' else Inr ()]) (\<lambda>_.
        let catalog = registryCatalog snapshot in
        if catalogOperations catalog = [] then fail ''SGOS_REGISTRY_CATALOG_EMPTY''
        else andThen (registrySnapshotDigest H snapshot) (\<lambda>actual.
          if getp snapshot ''registrySnapshotSha256'' \<noteq> JStr actual \<or> pinnedSha256 \<noteq> actual
          then fail ''SGOS_PINNED_REGISTRY_MISMATCH'' else Inr catalog)))"

definition validateSgosRegistrySnapshot :: "hash_function \<Rightarrow> jsval \<Rightarrow> jsval result" where
  "validateSgosRegistrySnapshot H snapshot =
     andThen (requireDigest (getp snapshot ''registrySnapshotSha256'')) (\<lambda>pinned.
     andThen (validateRegistrySnapshot H snapshot pinned) (\<lambda>_. Inr snapshot))"

section \<open>Lemmas\<close>

lemma opcodeNamed_name [simp]: "opcodeNamed (opcodeName o') = Some o'"
  by (cases o') (simp_all add: opcodeNamed_def gvmOpcodes_def)

lemma opcodeNamed_Some: "opcodeNamed s = Some o' \<Longrightarrow> s = opcodeName o'"
  by (auto simp: opcodeNamed_def find_Some_iff)

lemma validateRegistrySnapshot_Inr:
  assumes "validateRegistrySnapshot H snapshot pinned = Inr catalog"
  shows "plainObject snapshot \<and> catalog = registryCatalog snapshot \<and> catalogOperations catalog \<noteq> [] \<and>
    pinned = sgosSha256 H (JObj (deleteField ''registrySnapshotSha256'' (fieldsOf snapshot))) \<and>
    getp snapshot ''registrySnapshotSha256'' = JStr pinned"
  using assms
  by (auto simp: validateRegistrySnapshot_def Let_def andThen_Inr registrySnapshotDigest_def split: if_splits)

end
