(* ===== verification/SgosCompilerFanout.thy ===== *)
theory SgosCompilerFanout
  imports SgosCompilerRegistry
begin

text \<open>
  How \<open>src/sgos/compiler.mjs\<close> expands the tasks of a workflow: a static fan-out becomes one task per
  item and a join, a dynamic one becomes a body task and a coordinating join. The expansion state is
  the list of tasks so far and the number of fan-out groups; a nested static fan-out expands
  recursively, one level of nesting deeper, until \<open>maximumFanoutDepth\<close> refuses it.
\<close>

section \<open>Entries\<close>

type_synonym task_entry = "string \<times> jsval"

definition padStart3 :: "string \<Rightarrow> string" where
  "padStart3 s = replicate (3 - length s) (CHR ''0'') @ s"

definition listedTask :: "nat \<times> jsval \<Rightarrow> task_entry" where
  "listedTask it = (case it of (index, task) \<Rightarrow>
     (jsString (coalesceAll [getp task ''taskId'', getp task ''id'', getp task ''taskTemplateId'',
        JStr (''task-'' @ padStart3 (showNat (Suc index)))]), task))"

definition rawTaskEntries :: "jsval \<Rightarrow> task_entry list result" where
  "rawTaskEntries workflow =
     (case getp (getp workflow ''spec'') ''tasks'' of
        JArr xs \<Rightarrow> Inr (map listedTask (zip [0..<length xs] xs))
      | JObj fs \<Rightarrow> Inr fs
      | _ \<Rightarrow> fail ''SGOS_WORKFLOW_TASKS_INVALID'')"

text \<open>The bound under the first of the names that has one; \<open>null\<close> where none has.\<close>

definition boundNamed :: "jsval \<Rightarrow> string \<Rightarrow> jsval" where
  "boundNamed task name =
     coalesceAll [getp task name, getp (getp task ''bounds'') name, getp (getp task ''budgets'') name]"

definition numericBound :: "jsval \<Rightarrow> string list \<Rightarrow> jsval" where
  "numericBound task names =
     (case find (\<lambda>v. \<not> nullish v) (map (boundNamed task) names) of None \<Rightarrow> JNull | Some v \<Rightarrow> jsNumber v)"

definition naturalNumber :: "jsval \<Rightarrow> bool" where
  "naturalNumber v \<longleftrightarrow> isInteger v \<and> 0 \<le> numberOf v"

definition itemBoundNames :: "string list" where
  "itemBoundNames = [''maximumItems'', ''maxItems'', ''maximumFanout'', ''maximumIterations'']"

definition parallelBoundNames :: "string list" where
  "parallelBoundNames = [''maximumParallel'', ''maxParallel'']"

definition constructOf :: "jsval \<Rightarrow> string" where
  "constructOf task = toLowerCase (jsString (coalesceAll [getp task ''kind'', getp task ''type'', JStr ''task'']))"

text \<open>\<open>{ ...a, ...b }\<close> on values the source spreads without having checked them.\<close>

definition merged :: "jsval \<Rightarrow> jsval \<Rightarrow> fields" where
  "merged a b = spread (spread [] (entries a)) (entries b)"

definition inheritedFields :: "string list" where
  "inheritedFields = [''items'', ''body'', ''maximumItems'', ''maximumParallel'', ''maximumIterations'',
     ''dynamicFanout'', ''over'', ''itemKey'', ''bounds'']"

definition bodyKind :: "jsval \<Rightarrow> jsval" where
  "bodyKind body = coalesceAll [getp body ''kind'', getp body ''type'', JStr ''task'']"

definition inheritedFanoutChild :: "jsval \<Rightarrow> jsval \<Rightarrow> fields" where
  "inheritedFanoutChild parent body =
     deleteField ''opcode'' (setField ''kind'' (bodyKind body)
       (filter (\<lambda>f. fst f \<notin> set inheritedFields) (merged parent body)))"

definition declaredPredecessors :: "jsval \<Rightarrow> jsval" where
  "declaredPredecessors task =
     coalesceAll [getp task ''dependsOn'', getp task ''after'', getp task ''predecessors'', JArr []]"

text \<open>\<open>v.includes(s)\<close>: membership in an array, a substring of a string, no method otherwise.\<close>

definition includesText :: "jsval \<Rightarrow> string \<Rightarrow> bool result" where
  "includesText v s =
     (case v of
        JArr xs \<Rightarrow> Inr (JStr s \<in> set xs)
      | JStr t \<Rightarrow> Inr (list_ex (\<lambda>i. take (length s) (drop i t) = s) [0..<Suc (length t)])
      | _ \<Rightarrow> Inl NativeError)"

section \<open>Expansion\<close>

record expansion =
  expandedTasks :: "task_entry list"
  expandedGroups :: int

definition pushTask :: "string \<Rightarrow> jsval \<Rightarrow> expansion \<Rightarrow> expansion result" where
  "pushTask taskId task s =
     (if int (length (expandedTasks s)) \<ge> maximumTasks then fail ''SGOS_MAXIMUM_TASKS_EXCEEDED''
      else Inr (s\<lparr>expandedTasks := expandedTasks s @ [(taskId, task)]\<rparr>))"

definition descriptorValue :: "dynamic_fanout \<Rightarrow> jsval" where
  "descriptorValue d = JObj
     [(''parentTaskId'', JStr (dynamicParent d)), (''sourceTaskTemplateId'', JStr (dynamicSource d)),
      (''outputName'', JStr (dynamicOutput d)), (''itemKeySelector'', dynamicSelector d),
      (''bodyTaskTemplateId'', JStr (dynamicBody d)), (''maximumItems'', JNum (dynamicMaximumItems d)),
      (''maximumParallel'', JNum (dynamicMaximumParallel d))]"

definition dynamicChild :: "jsval \<Rightarrow> jsval \<Rightarrow> dynamic_fanout \<Rightarrow> jsval" where
  "dynamicChild rawTask body d =
     (let child = setField ''kind'' (bodyKind body) (inheritedFanoutChild rawTask body);
          inputs = coalesceAll [getp body ''inputs'', getp rawTask ''inputs'', JArr []]
      in JObj (setField ''metadata''
           (JObj (setField ''dynamicFanoutBody'' (descriptorValue d)
             (merged (coalesce (getp rawTask ''metadata'') (JObj [])) (coalesce (getp body ''metadata'') (JObj [])))))
           (setField ''inputs'' inputs (setField ''dependsOn'' (declaredPredecessors rawTask) child))))"

definition dynamicCoordinatorTask :: "dynamic_fanout \<Rightarrow> jsval" where
  "dynamicCoordinatorTask d = JObj
     [(''kind'', JStr ''join''), (''dependsOn'', JArr [JStr (dynamicBody d)]), (''material'', JBool False),
      (''intentClauseIds'', JArr []),
      (''metadata'', JObj [(''joinPolicy'', JStr ''all-success''), (''dynamicFanoutCoordinator'', descriptorValue d)])]"

definition expandDynamic :: "string \<Rightarrow> jsval \<Rightarrow> jsval \<Rightarrow> jsval \<Rightarrow> expansion \<Rightarrow> expansion result" where
  "expandDynamic taskId rawTask maximumItems maximumParallel s =
     (if constructOf (getp rawTask ''body'') = ''foreach'' then fail ''SGOS_DYNAMIC_FANOUT_NESTED_UNSUPPORTED''
      else andThen (rewrap ''SGOS_DYNAMIC_FANOUT_INVALID'' (normalizeSgosDynamicFanoutDescriptor taskId
             (getp rawTask ''over'') (getp rawTask ''itemKey'') maximumItems maximumParallel
             (Some (sgosDynamicFanoutBodyTemplateId taskId)))) (\<lambda>d.
        andThen (includesText (declaredPredecessors rawTask) (dynamicSource d)) (\<lambda>found.
        if \<not> found then fail ''SGOS_DYNAMIC_FANOUT_SOURCE_NOT_PREDECESSOR''
        else andThen (pushTask (dynamicBody d) (dynamicChild rawTask (getp rawTask ''body'') d) s)
          (pushTask taskId (dynamicCoordinatorTask d)))))"

definition membershipValue :: "string \<Rightarrow> fanout_profile \<Rightarrow> fanout_item \<Rightarrow> jsval" where
  "membershipValue taskId f i = JObj
     [(''parentTaskId'', JStr taskId), (''itemKey'', JStr (itemKey i)), (''itemSha256'', JStr (itemSha256 i)),
      (''itemValue'', itemValue i), (''collectionSha256'', JStr (profileCollectionSha256 f)),
      (''maximumItems'', JNum (profileMaximumItems f)), (''maximumParallel'', JNum (profileMaximumParallel f))]"

definition inputOf :: "jsval \<Rightarrow> jsval \<Rightarrow> jsval" where
  "inputOf key sha = JObj [(''fanoutItemKey'', key), (''fanoutItemSha256'', sha)]"

text \<open>
  The inputs of a leaf child list the declared inputs and the items it belongs to, outermost first;
  \<open>[...declaredInputs]\<close> needs an array or a string.
\<close>

definition childInputs :: "bool \<Rightarrow> jsval \<Rightarrow> jsval list \<Rightarrow> fanout_item \<Rightarrow> jsval result" where
  "childInputs nested declared ancestors i =
     (if nested then Inr declared
      else andThen (spreadArray declared) (\<lambda>xs.
        Inr (JArr (xs @ map (\<lambda>a. inputOf (getp a ''itemKey'') (getp a ''itemSha256'')) ancestors
          @ [inputOf (JStr (itemKey i)) (JStr (itemSha256 i))]))))"

definition staticChild :: "jsval \<Rightarrow> bool \<Rightarrow> jsval list \<Rightarrow> jsval \<Rightarrow> fanout_item \<Rightarrow> jsval result" where
  "staticChild rawTask nested ancestors membership i =
     (let body = getp rawTask ''body'';
          base = (if nested then merged rawTask body else inheritedFanoutChild rawTask body);
          child = setField ''dependsOn'' (declaredPredecessors rawTask)
            (deleteField ''opcode'' (setField ''kind'' (bodyKind body) base));
          declared = coalesceAll [getp body ''inputs'', getp rawTask ''inputs'', JArr []];
          metadata = setField ''fanout'' membership
            (merged (coalesce (getp rawTask ''metadata'') (JObj [])) (coalesce (getp body ''metadata'') (JObj [])))
      in andThen (childInputs nested declared ancestors i) (\<lambda>inputs.
           Inr (JObj (setField ''metadata''
             (JObj (if ancestors = [] then metadata else setField ''fanoutLineage'' (JArr ancestors) metadata))
             (setField ''inputs'' inputs child)))))"

definition staticCoordinatorTask :: "string \<Rightarrow> jsval \<Rightarrow> fanout_profile \<Rightarrow> string list \<Rightarrow> jsval" where
  "staticCoordinatorTask taskId rawTask f childIds =
     (let metadata = getp rawTask ''metadata'' in JObj
       [(''kind'', JStr (if childIds \<noteq> [] then ''join'' else ''noop'')),
        (''dependsOn'', if childIds \<noteq> [] then JArr (map JStr childIds) else declaredPredecessors rawTask),
        (''material'', JBool False), (''intentClauseIds'', JArr []),
        (''metadata'', JObj
          (optField (truthy (getp metadata ''fanout'')) ''fanout'' (getp metadata ''fanout'')
           @ optField (isArray (getp metadata ''fanoutLineage'')) ''fanoutLineage'' (getp metadata ''fanoutLineage'')
           @ [(''joinPolicy'', if childIds \<noteq> [] then JStr ''all-success'' else JNull),
              (''fanoutCoordinator'', JObj
                [(''parentTaskId'', JStr taskId), (''collectionSha256'', JStr (profileCollectionSha256 f)),
                 (''maximumItems'', JNum (profileMaximumItems f)),
                 (''maximumParallel'', JNum (profileMaximumParallel f))])]))])"

definition openGroup :: "jsval \<Rightarrow> int \<Rightarrow> expansion \<Rightarrow> expansion result" where
  "openGroup rawTask depth s =
     (if depth > maximumFanoutDepth then fail ''SGOS_FANOUT_DEPTH_LIMIT''
      else if expandedGroups s + 1 > maximumFanoutGroupsPerProcess then fail ''SGOS_FANOUT_LIMIT''
      else if \<not> naturalNumber (numericBound rawTask itemBoundNames) then fail ''SGOS_UNBOUNDED_CONSTRUCT''
      else if \<not> plainObject (getp rawTask ''body'') then fail ''SGOS_FANOUT_BODY_REQUIRED''
      else if constructOf (getp rawTask ''body'') \<in> {''bounded-loop'', ''loop'', ''spawn'', ''subprocess''}
      then fail ''SGOS_FANOUT_NESTED_UNSUPPORTED''
      else if \<not> nullish (getp rawTask ''items'') \<and> \<not> nullish (getp rawTask ''over'')
      then fail ''SGOS_DYNAMIC_FANOUT_SOURCE_AMBIGUOUS''
      else Inr (s\<lparr>expandedGroups := expandedGroups s + 1\<rparr>))"

lemma foldResult_cong [fundef_cong]:
  "xs = ys \<Longrightarrow> s = t \<Longrightarrow> (\<And>u x. x \<in> set ys \<Longrightarrow> f u x = g u x) \<Longrightarrow> foldResult f s xs = foldResult g t ys"
proof (induction ys arbitrary: xs s t)
  case (Cons y ys)
  have "f t y = g t y" using Cons.prems(3) [of y t] by simp
  moreover have "foldResult f u ys = foldResult g u ys" for u
    using Cons.IH [of ys u u] Cons.prems(3) by simp
  ultimately show ?case using Cons.prems(1,2) by simp
qed simp

lemma openGroup_Inr:
  "openGroup rawTask depth s = Inr s' \<Longrightarrow> depth \<le> maximumFanoutDepth \<and> expandedGroups s' = expandedGroups s + 1 \<and>
    expandedGroups s' \<le> maximumFanoutGroupsPerProcess \<and> expandedTasks s' = expandedTasks s \<and>
    plainObject (getp rawTask ''body'')"
  unfolding openGroup_def by (auto split: if_splits)

text \<open>
  One call of \<open>expand\<close>; \<open>again\<close> is the recursive call, made for the children of a fan-out whose
  body is a fan-out itself.
\<close>

type_synonym expander = "string \<Rightarrow> jsval \<Rightarrow> int \<Rightarrow> jsval list \<Rightarrow> expansion \<Rightarrow> expansion result"

definition expandStep :: "hash_function \<Rightarrow> expander \<Rightarrow> expander" where
  "expandStep H again taskId rawTask depth ancestors s =
     (if constructOf rawTask \<noteq> ''foreach'' then pushTask taskId rawTask s
      else andThen (openGroup rawTask depth s) (\<lambda>opened.
        let maximumItems = numericBound rawTask itemBoundNames;
            maximumParallel = coalesce (numericBound rawTask parallelBoundNames) (JNum 1);
            nested = (constructOf (getp rawTask ''body'') = ''foreach'')
        in if nullish (getp rawTask ''items'') \<and> \<not> nullish (getp rawTask ''over'')
           then expandDynamic taskId rawTask maximumItems maximumParallel opened
           else andThen (rewrap ''SGOS_FANOUT_INVALID''
                  (normalizeSgosFanout H taskId (getp rawTask ''items'') maximumItems maximumParallel)) (\<lambda>fanout.
             let childId = (\<lambda>i. sgosFanoutChildTemplateId H taskId (itemKey i) (itemSha256 i)) in
             andThen (foldResult (\<lambda>t i.
                let membership = membershipValue taskId fanout i in
                andThen (staticChild rawTask nested ancestors membership i) (\<lambda>child.
                  if nested then again (childId i) child (depth + 1) (ancestors @ [membership]) t
                  else pushTask (childId i) child t)) opened (profileItems fanout))
             (pushTask taskId (staticCoordinatorTask taskId rawTask fanout (map childId (profileItems fanout)))))))"

lemma expandStep_cong [fundef_cong]:
  assumes "taskId = taskId'" "rawTask = rawTask'" "depth = depth'" "ancestors = ancestors'" "s = s'"
    and "\<And>i child more t. depth' \<le> maximumFanoutDepth \<Longrightarrow> again i child (depth' + 1) more t = other i child (depth' + 1) more t"
  shows "expandStep H again taskId rawTask depth ancestors s = expandStep H other taskId' rawTask' depth' ancestors' s'"
proof (cases "depth' \<le> maximumFanoutDepth")
  case True
  then show ?thesis unfolding expandStep_def Let_def using assms by (simp cong: if_cong)
next
  case False
  then have "openGroup rawTask' depth' s' = fail ''SGOS_FANOUT_DEPTH_LIMIT''" by (simp add: openGroup_def)
  then show ?thesis unfolding expandStep_def using assms(1-5) by simp
qed

function expandTask :: "hash_function \<Rightarrow> expander" where
  "expandTask H taskId rawTask depth ancestors s =
     expandStep H (\<lambda>i child d more t. expandTask H i child d more t) taskId rawTask depth ancestors s"
  by pat_completeness auto
termination
  by (relation "measure (\<lambda>(H, taskId, rawTask, depth, ancestors, s). nat (maximumFanoutDepth + 1 - depth))") auto

declare expandTask.simps [simp del]

definition expandedTaskEntries :: "hash_function \<Rightarrow> jsval \<Rightarrow> task_entry list result" where
  "expandedTaskEntries H workflow =
     andThen (rawTaskEntries workflow) (\<lambda>raw.
     andThen (foldResult (\<lambda>s (taskId, rawTask). expandTask H taskId rawTask 1 [] s)
         \<lparr>expandedTasks = [], expandedGroups = 0\<rparr> raw) (\<lambda>s. Inr (expandedTasks s)))"

section \<open>Bounds\<close>

text \<open>
  \<open>expandWithin out n\<close> makes at most \<open>n\<close> nested calls of \<open>expand\<close> and stands for
  whatever \<open>out\<close> says beyond them.
\<close>

primrec expandWithin :: "expander \<Rightarrow> nat \<Rightarrow> hash_function \<Rightarrow> expander" where
  "expandWithin out 0 H = out"
| "expandWithin out (Suc n) H = expandStep H (expandWithin out n H)"

lemma expandWithin_enough:
  assumes "maximumFanoutDepth < depth + int n"
  shows "expandWithin out (Suc n) H taskId rawTask depth ancestors s = expandTask H taskId rawTask depth ancestors s"
  using assms
proof (induction n arbitrary: taskId rawTask depth ancestors s)
  case 0
  then show ?case
    unfolding expandTask.simps [of H taskId rawTask depth] expandWithin.simps
    by (intro expandStep_cong refl) simp
next
  case (Suc n)
  show ?case
    unfolding expandTask.simps [of H taskId rawTask depth] expandWithin.simps(2) [of out "Suc n"]
  proof (intro expandStep_cong refl)
    fix i child more t
    show "expandWithin out (Suc n) H i child (depth + 1) more t = expandTask H i child (depth + 1) more t"
      using Suc.prems by (intro Suc.IH) simp
  qed
qed

definition withinBounds :: "expansion \<Rightarrow> bool" where
  "withinBounds s \<longleftrightarrow> int (length (expandedTasks s)) \<le> maximumTasks \<and> expandedGroups s \<le> maximumFanoutGroupsPerProcess"

lemma pushTask_bounds: "pushTask taskId task s = Inr t \<Longrightarrow> withinBounds s \<Longrightarrow> withinBounds t"
  by (auto simp: pushTask_def withinBounds_def split: if_splits)

lemma foldResult_keeps:
  assumes "foldResult f s xs = Inr t" "P s" "\<And>u x v. x \<in> set xs \<Longrightarrow> f u x = Inr v \<Longrightarrow> P u \<Longrightarrow> P v"
  shows "P t"
  using assms by (induction xs arbitrary: s) (auto simp: andThen_Inr)

lemma expandDynamic_bounds:
  "expandDynamic taskId rawTask mi mp s = Inr t \<Longrightarrow> withinBounds s \<Longrightarrow> withinBounds t"
  by (auto simp: expandDynamic_def andThen_Inr split: if_splits dest!: pushTask_bounds)

lemma expandStep_bounds:
  assumes "expandStep H again taskId rawTask depth ancestors s = Inr t" "withinBounds s"
    and "\<And>i child more u v. depth \<le> maximumFanoutDepth \<Longrightarrow> again i child (depth + 1) more u = Inr v \<Longrightarrow>
      withinBounds u \<Longrightarrow> withinBounds v"
  shows "withinBounds t"
proof (cases "constructOf rawTask = ''foreach''")
  case False
  then show ?thesis using assms(1,2) by (simp add: expandStep_def pushTask_bounds)
next
  case True
  from assms(1) True obtain opened where opened: "openGroup rawTask depth s = Inr opened"
    by (auto simp: expandStep_def andThen_Inr)
  then have depth: "depth \<le> maximumFanoutDepth" and start: "withinBounds opened"
    using openGroup_Inr [OF opened] assms(2) by (auto simp: withinBounds_def)
  show ?thesis
  proof (cases "nullish (getp rawTask ''items'') \<and> \<not> nullish (getp rawTask ''over'')")
    case True
    with \<open>constructOf rawTask = ''foreach''\<close> assms(1) opened start show ?thesis
      by (auto simp: expandStep_def Let_def intro: expandDynamic_bounds)
  next
    case False
    with \<open>constructOf rawTask = ''foreach''\<close> assms(1) opened
    obtain fanout u child where loop: "foldResult (\<lambda>t i.
          andThen (staticChild rawTask (constructOf (getp rawTask ''body'') = ''foreach'') ancestors
            (membershipValue taskId fanout i) i) (\<lambda>child.
          if constructOf (getp rawTask ''body'') = ''foreach''
          then again (sgosFanoutChildTemplateId H taskId (itemKey i) (itemSha256 i)) child (depth + 1)
            (ancestors @ [membershipValue taskId fanout i]) t
          else pushTask (sgosFanoutChildTemplateId H taskId (itemKey i) (itemSha256 i)) child t))
        opened (profileItems fanout) = Inr u"
      and last: "pushTask taskId child u = Inr t"
      by (auto simp: expandStep_def Let_def andThen_Inr)
    have "withinBounds u"
      using loop start
    proof (rule foldResult_keeps)
      fix v i w
      assume "andThen (staticChild rawTask (constructOf (getp rawTask ''body'') = ''foreach'') ancestors
            (membershipValue taskId fanout i) i) (\<lambda>child.
          if constructOf (getp rawTask ''body'') = ''foreach''
          then again (sgosFanoutChildTemplateId H taskId (itemKey i) (itemSha256 i)) child (depth + 1)
            (ancestors @ [membershipValue taskId fanout i]) v
          else pushTask (sgosFanoutChildTemplateId H taskId (itemKey i) (itemSha256 i)) child v) = Inr w"
        and "withinBounds v"
      then show "withinBounds w"
        using depth assms(3) by (auto simp: andThen_Inr split: if_splits intro: pushTask_bounds)
    qed
    with last show ?thesis by (rule pushTask_bounds)
  qed
qed

lemma expandTask_bounds:
  "expandTask H taskId rawTask depth ancestors s = Inr t \<Longrightarrow> withinBounds s \<Longrightarrow> withinBounds t"
proof (induction H taskId rawTask depth ancestors s arbitrary: t rule: expandTask.induct)
  case (1 H taskId rawTask depth ancestors s)
  from 1(2) have "expandStep H (expandTask H) taskId rawTask depth ancestors s = Inr t"
    by (simp add: expandTask.simps [of H taskId rawTask depth])
  then show ?case using 1(3) by (rule expandStep_bounds) (use 1(1) in blast)
qed

lemma expandedTaskEntries_bounds:
  assumes "expandedTaskEntries H workflow = Inr es"
  shows "int (length es) \<le> maximumTasks"
proof -
  from assms obtain raw s where loop: "foldResult (\<lambda>s (taskId, rawTask). expandTask H taskId rawTask 1 [] s)
      \<lparr>expandedTasks = [], expandedGroups = 0\<rparr> raw = Inr s" and es: "es = expandedTasks s"
    by (auto simp: expandedTaskEntries_def andThen_Inr)
  have "withinBounds \<lparr>expandedTasks = [], expandedGroups = 0\<rparr>"
    by (simp add: withinBounds_def maximumTasks_def maximumFanoutGroupsPerProcess_def)
  with loop have "withinBounds s"
    by (rule foldResult_keeps) (auto split: prod.splits intro: expandTask_bounds)
  then show ?thesis by (simp add: es withinBounds_def)
qed

text \<open>
  C9: The expansion of a fan-out terminates within five nested calls, whatever the workflow nests:
  the result does not depend on what a sixth call would do, because the fifth is refused by the
  installed nesting depth.
\<close>
theorem expansion_terminates:
  "expandWithin out 5 H taskId rawTask 1 ancestors s = expandTask H taskId rawTask 1 ancestors s"
proof -
  have "expandWithin out (Suc 4) H taskId rawTask 1 ancestors s = expandTask H taskId rawTask 1 ancestors s"
    by (rule expandWithin_enough) (simp add: maximumFanoutDepth_def)
  then show ?thesis by (simp add: eval_nat_numeral)
qed

end
