(* ===== verification/SgosCompilerTasks.thy ===== *)
theory SgosCompilerTasks
  imports SgosCompilerFanout
begin

text \<open>
  The task template of one workflow task in \<open>src/sgos/compiler.mjs\<close>: its opcode, its operation and
  verification operation resolved in the pinned registry, its resources, contracts, retry ceiling and
  metadata. The object literal the compiler builds is the record \<open>compiled_template\<close>;
  \<open>templateValue\<close> prints it.
\<close>

section \<open>Opcodes and operations\<close>

definition constructOpcodes :: "(string \<times> gvm_opcode) list" where
  "constructOpcodes =
     [(''task'', KERNEL), (''kernel'', KERNEL), (''agent'', AGENT), (''device'', DEVICE), (''verify'', VERIFY),
      (''human-request'', HUMAN_REQUEST), (''human_request'', HUMAN_REQUEST), (''join'', JOIN), (''merge'', MERGE),
      (''checkpoint'', CHECKPOINT), (''foreach'', SPAWN), (''bounded-loop'', SPAWN), (''loop'', SPAWN),
      (''subprocess'', SPAWN), (''spawn'', SPAWN), (''compensation'', COMPENSATE), (''compensate'', COMPENSATE),
      (''sequence'', NOOP), (''parallel'', NOOP), (''condition'', MERGE), (''noop'', NOOP), (''end'', END)]"

definition runtimeUnsupported :: "gvm_opcode list" where
  "runtimeUnsupported = [MERGE, SPAWN, COMPENSATE]"

definition nonMaterial :: "gvm_opcode list" where
  "nonMaterial = [CHECKPOINT, NOOP, JOIN, END]"

definition taskKindAndOpcode :: "jsval \<Rightarrow> registry_catalog \<Rightarrow> (string \<times> gvm_opcode) result" where
  "taskKindAndOpcode task catalog =
     (let explicit = coalesce (getp task ''opcode'') (getp (getp task ''execution'') ''opcode'') in
      if \<not> nullish explicit
      then (case opcodeNamed (toUpperCase (trim (jsString explicit))) of
          None \<Rightarrow> fail ''SGOS_OPCODE_UNKNOWN''
        | Some opcode \<Rightarrow>
            let kind = trim (jsString (coalesce (getp task ''kind'') (JStr ''task''))) in
            if map_of constructOpcodes (toLowerCase kind) = None \<and> opcodeNamed (toUpperCase kind) = None
               \<and> map_of (catalogKinds catalog) kind = None
            then fail ''SGOS_TASK_KIND_UNKNOWN'' else Inr (kind, opcode))
      else
        let kind = trim (jsString (coalesceAll [getp task ''kind'', getp task ''type'', JStr ''task''])) in
        case opcodeNamed (toUpperCase kind) of Some opcode \<Rightarrow> Inr (kind, opcode)
        | None \<Rightarrow>
          (case map_of constructOpcodes (toLowerCase kind) of Some opcode \<Rightarrow> Inr (kind, opcode)
           | None \<Rightarrow>
             (case map_of (catalogKinds catalog) kind of
                None \<Rightarrow> fail ''SGOS_TASK_KIND_UNKNOWN''
              | Some registered \<Rightarrow>
                  (case opcodeNamed (toUpperCase (jsString (coalesce (getp registered ''opcode'') (JStr ''KERNEL'')))) of
                     None \<Rightarrow> fail ''SGOS_OPCODE_UNKNOWN'' | Some opcode \<Rightarrow> Inr (kind, opcode)))))"

definition operationContract :: "jsval \<Rightarrow> jsval" where
  "operationContract task =
     (let raw = coalesceAll [getp task ''operation'', getp task ''operationRef'', getp task ''taskKind'',
            getp (getp task ''execution'') ''operation'', JNull] in
      case raw of
        JStr s \<Rightarrow> JObj [(''id'', raw), (''version'', JStr (jsString (coalesceAll
          [getp task ''operationVersion'', getp (getp task ''metadata'') ''operationVersion'', JStr ''1''])))]
      | JObj fs \<Rightarrow>
          (let named = (if \<not> truthy (getp raw ''id'') \<and> truthy (getp raw ''name'')
                 then setField ''id'' (getp raw ''name'') fs else fs)
           in if nullish (getp (JObj named) ''version'') then JObj named
              else JObj (setField ''version'' (JStr (jsString (getp (JObj named) ''version''))) named))
      | _ \<Rightarrow> JNull)"

section \<open>Resources and bounds\<close>

definition resourceKey :: "jsval \<Rightarrow> string" where
  "resourceKey value =
     (case value of
        JStr s \<Rightarrow> trim s
      | JObj fs \<Rightarrow> trim (jsString (coalesceAll
          [getp value ''key'', getp value ''resource'', getp value ''ref'', getp value ''id'', JStr []]))
      | _ \<Rightarrow> [])"

definition normalizeResourceList :: "jsval \<Rightarrow> string list result" where
  "normalizeResourceList value =
     andThen (mapResult (\<lambda>item. if resourceKey item = [] then fail ''SGOS_RESOURCE_INVALID'' else Inr (resourceKey item))
         (if nullish value then [] else flattened value))
       (\<lambda>keys. Inr (sortPoints (dedupe keys)))"

record compiled_resources =
  resourceReads :: "string list"
  resourceWrites :: "string list"
  resourceDevices :: "string list"
  resourceEffects :: "string list"

definition normalizeResources :: "jsval \<Rightarrow> compiled_resources result" where
  "normalizeResources task =
     (let resources = (if plainObject (getp task ''resources'') then getp task ''resources'' else JObj []);
          listed = (\<lambda>field. normalizeResourceList (coalesce (getp resources field) (getp task field)))
      in andThen (listed ''reads'') (\<lambda>reads.
         andThen (listed ''writes'') (\<lambda>writes.
         andThen (listed ''devices'') (\<lambda>devices.
         andThen (listed ''externalEffects'') (\<lambda>effects.
           Inr \<lparr>resourceReads = reads, resourceWrites = writes, resourceDevices = devices, resourceEffects = effects\<rparr>)))))"

definition resourcesValue :: "compiled_resources \<Rightarrow> jsval" where
  "resourcesValue r = JObj
     [(''reads'', JArr (map JStr (resourceReads r))), (''writes'', JArr (map JStr (resourceWrites r))),
      (''devices'', JArr (map JStr (resourceDevices r))), (''externalEffects'', JArr (map JStr (resourceEffects r)))]"

definition assertBounded :: "jsval \<Rightarrow> string \<Rightarrow> unit result" where
  "assertBounded task sourceKind =
     (let kind = toLowerCase sourceKind; parallel = numericBound task parallelBoundNames in checks
       [refuseIf ((kind = ''foreach'' \<or> getp task ''dynamicFanout'' = JBool True)
          \<and> \<not> naturalNumber (numericBound task itemBoundNames)) ''SGOS_UNBOUNDED_CONSTRUCT'',
        refuseIf ((kind = ''bounded-loop'' \<or> kind = ''loop'' \<or> \<not> nullish (getp task ''while'')
            \<or> getp task ''repeat'' = JBool True)
          \<and> \<not> naturalNumber (numericBound task [''maximumIterations'', ''maxIterations''])) ''SGOS_UNBOUNDED_CONSTRUCT'',
        refuseIf (parallel \<noteq> JNull \<and> (\<not> isInteger parallel \<or> numberOf parallel < 1)) ''SGOS_BOUND_INVALID''])"

section \<open>Contracts\<close>

text \<open>
  \<open>taskEvidence\<close>, \<open>taskAuthority\<close> and \<open>taskRecovery\<close>: the contract of the task, or the workflow's
  for this task, its default, or the workflow's as a whole.
\<close>

definition scopedContract :: "jsval \<Rightarrow> string \<Rightarrow> jsval \<Rightarrow> jsval \<Rightarrow> string \<Rightarrow> jsval" where
  "scopedContract workflow field own alias taskId =
     (let global = getp (getp workflow ''spec'') field in
      firstValue [own, alias, getp (getp global ''tasks'') taskId, getp global taskId, getp global ''default'',
        if plainObject global \<and> \<not> truthy (getp global ''tasks'') then global else JNull])"

definition taskEvidence :: "jsval \<Rightarrow> string \<Rightarrow> jsval \<Rightarrow> jsval" where
  "taskEvidence workflow taskId task =
     scopedContract workflow ''evidence'' (getp task ''evidence'') (getp task ''evidenceContract'') taskId"

definition taskAuthority :: "jsval \<Rightarrow> string \<Rightarrow> jsval \<Rightarrow> jsval" where
  "taskAuthority workflow taskId task =
     scopedContract workflow ''authority'' (getp task ''authority'') (getp task ''authorityRequirement'') taskId"

definition taskRecovery :: "jsval \<Rightarrow> string \<Rightarrow> jsval \<Rightarrow> jsval" where
  "taskRecovery workflow taskId task =
     scopedContract workflow ''recovery'' (getp task ''recovery'') (getp task ''recoveryPolicy'') taskId"

definition taskVerification :: "jsval \<Rightarrow> jsval" where
  "taskVerification task = coalesce (getp task ''verification'') (getp (getp task ''metadata'') ''verification'')"

definition humanJudgment :: "jsval \<Rightarrow> gvm_opcode \<Rightarrow> bool" where
  "humanJudgment task opcode =
     (let verification = taskVerification task;
          kind = toLowerCase (jsString (coalesceAll [getp verification ''kind'', getp verification ''type'', JStr []]));
          policy = coalesce (getp task ''joinPolicy'') (getp (getp task ''metadata'') ''joinPolicy'');
          policyId = (if isString policy then policy
            else coalesceAll [getp policy ''policy'', getp policy ''mode'', JNull])
      in opcode = HUMAN_REQUEST \<or> policyId = JStr ''manual-reconcile'' \<or> kind = ''human-judgment''
         \<or> getp task ''requiresHumanJudgment'' = JBool True)"

definition normalizeRetry :: "jsval \<Rightarrow> jsval result" where
  "normalizeRetry task =
     (let supplied = coalesce (getp task ''retry'') (getp task ''retryPolicy'');
          maximum = jsNumber (coalesce (getp supplied ''maximumAttempts'') (getp supplied ''maxAttempts'')) in
      if nullish supplied then Inr (JObj [(''maximumAttempts'', JNum 1)])
      else if \<not> plainObject supplied then fail ''SGOS_RETRY_CEILING_INVALID''
      else if \<not> isSafeInteger maximum \<or> numberOf maximum < 1 then fail ''SGOS_RETRY_CEILING_REQUIRED''
      else Inr (JObj (setField ''maximumAttempts'' maximum (deleteField ''maxAttempts'' (fieldsOf supplied)))))"

section \<open>Resolution in the registry\<close>

definition registered :: "fields \<Rightarrow> string option \<Rightarrow> jsval option" where
  "registered named i = (case i of None \<Rightarrow> None | Some k \<Rightarrow> map_of named k)"

definition sameVersion :: "jsval option \<Rightarrow> jsval \<Rightarrow> bool" where
  "sameVersion entry requested =
     (case entry of None \<Rightarrow> True
      | Some e \<Rightarrow> nullish requested \<or> jsString requested = jsString (getp e ''version''))"

definition operationOpcodes :: "gvm_opcode list" where
  "operationOpcodes = [KERNEL, AGENT, DEVICE, VERIFY, COMPENSATE]"

text \<open>A truthy operation identifier, and the operation it names.\<close>

definition operationIdOf :: "jsval \<Rightarrow> string option" where
  "operationIdOf operation =
     (if nullish (getp operation ''id'') \<or> jsString (getp operation ''id'') = [] then None
      else Some (jsString (getp operation ''id'')))"

definition resolveOperation ::
    "jsval \<Rightarrow> gvm_opcode \<Rightarrow> registry_catalog \<Rightarrow> (string option \<times> jsval option) result" where
  "resolveOperation task opcode catalog =
     (let operation = operationContract task; i = operationIdOf operation; entry = registered (catalogOperations catalog) i in
      if opcode \<in> set operationOpcodes \<and> i = None then fail ''SGOS_TASK_OPERATION_MISSING''
      else if i \<noteq> None \<and> entry = None then fail ''SGOS_TASK_OPERATION_UNKNOWN''
      else if \<not> sameVersion entry (getp operation ''version'') then fail ''SGOS_TASK_OPERATION_VERSION_MISMATCH''
      else Inr (i, entry))"

text \<open>
  The requested version is \<open>verification.operation.version\<close> where the operation is of type
  \<open>object\<close>, which \<open>null\<close> is too: reading its property raises the language's error.
\<close>

definition resolveVerification :: "jsval \<Rightarrow> registry_catalog \<Rightarrow> jsval option result" where
  "resolveVerification task catalog =
     (let verification = taskVerification task; operation = getp verification ''operation'';
          named = (if isString operation then operation
            else coalesceAll [getp operation ''id'', getp verification ''operationId'', JNull]);
          entry = (if nullish named then None else map_of (catalogOperations catalog) (jsString named)) in
      if \<not> nullish named \<and> entry = None then fail ''SGOS_TASK_OPERATION_UNKNOWN''
      else andThen (if operation = JNull \<or> isArray operation \<or> plainObject operation
                    then propOf operation ''version'' else Inr (getp verification ''operationVersion'')) (\<lambda>requested.
        if \<not> sameVersion entry requested then fail ''SGOS_TASK_OPERATION_VERSION_MISMATCH'' else Inr entry))"

definition resolveDevice ::
    "jsval \<Rightarrow> gvm_opcode \<Rightarrow> string option \<Rightarrow> registry_catalog \<Rightarrow> (string \<times> jsval) option result" where
  "resolveDevice task opcode operationId catalog =
     (if opcode \<noteq> DEVICE then Inr None
      else
        let metadata = getp task ''metadata'';
            device = jsString (coalesceAll [getp metadata ''deviceId'', getp (getp metadata ''device'') ''id'',
              case operationId of Some k \<Rightarrow> JStr k | None \<Rightarrow> JStr []])
        in case map_of (catalogDevices catalog) device of
             None \<Rightarrow> fail ''SGOS_DEVICE_UNKNOWN''
           | Some entry \<Rightarrow> if device = [] then fail ''SGOS_DEVICE_UNKNOWN'' else Inr (Some (device, entry)))"

definition resolveUnit :: "jsval \<Rightarrow> gvm_opcode \<Rightarrow> registry_catalog \<Rightarrow> (string \<times> jsval) option result" where
  "resolveUnit task opcode catalog =
     (if opcode \<noteq> AGENT then Inr None
      else
        let metadata = getp task ''metadata'';
            declared = (if plainObject (getp metadata ''executionUnit'') then getp metadata ''executionUnit'' else JObj []);
            unitId = coalesce (getp metadata ''executionUnitId'') (getp declared ''id'');
            version = coalesce (getp metadata ''executionUnitVersion'') (getp declared ''version'');
            manifest = coalesce (getp metadata ''executionUnitManifestSha256'') (getp declared ''manifestSha256'')
        in case (if nullish unitId then None else map_of (catalogUnits catalog) (jsString unitId)) of
             None \<Rightarrow> fail ''SGOS_EXECUTION_UNIT_BINDING_REQUIRED''
           | Some entry \<Rightarrow>
               if \<not> truthy unitId then fail ''SGOS_EXECUTION_UNIT_BINDING_REQUIRED''
               else if \<not> sameVersion (Some entry) version then fail ''SGOS_EXECUTION_UNIT_VERSION_MISMATCH''
               else if \<not> nullish manifest \<and> manifest \<noteq> getp entry ''manifestSha256''
               then fail ''SGOS_EXECUTION_UNIT_MANIFEST_MISMATCH''
               else Inr (Some (jsString unitId, entry)))"

section \<open>Metadata\<close>

definition setWhen :: "bool \<Rightarrow> string \<Rightarrow> jsval \<Rightarrow> fields \<Rightarrow> fields" where
  "setWhen b k v fs = (if b then setField k v fs else fs)"

definition pinEntry :: "string \<Rightarrow> string \<Rightarrow> jsval option \<Rightarrow> fields \<Rightarrow> fields" where
  "pinEntry versionField manifestField entry fs =
     (case entry of None \<Rightarrow> fs
      | Some e \<Rightarrow> setField manifestField (getp e ''manifestSha256'')
          (setField versionField (JStr (jsString (getp e ''version''))) fs))"

definition pinNamed :: "string \<Rightarrow> string \<Rightarrow> string \<Rightarrow> (string \<times> jsval) option \<Rightarrow> fields \<Rightarrow> fields" where
  "pinNamed idField versionField manifestField entry fs =
     (case entry of None \<Rightarrow> fs
      | Some (i, e) \<Rightarrow> pinEntry versionField manifestField (Some e) (setField idField (JStr i) fs))"

definition templateMetadataOf ::
    "jsval \<Rightarrow> string \<Rightarrow> jsval option \<Rightarrow> jsval option \<Rightarrow> (string \<times> jsval) option \<Rightarrow> (string \<times> jsval) option \<Rightarrow> fields" where
  "templateMetadataOf task sourceKind operation verification unit device =
     (let present = (\<lambda>k. \<not> nullish (getp task k));
          m1 = setField ''sourceConstruct'' (JStr (toLowerCase sourceKind))
            (spread [] (entries (coalesce (getp task ''metadata'') (JObj []))));
          m2 = pinEntry ''operationVersion'' ''operationManifestSha256'' operation m1;
          m3 = setWhen (present ''verification'') ''verification'' (getp task ''verification'') m2;
          m4 = pinEntry ''verificationOperationVersion'' ''verificationOperationManifestSha256'' verification m3;
          m5 = setWhen (present ''budgets'') ''budgets'' (getp task ''budgets'') m4;
          m6 = setWhen (present ''parameters'' \<or> present ''arguments'') ''parameters''
            (coalesce (getp task ''parameters'') (getp task ''arguments'')) m5;
          m7 = (case unit of None \<Rightarrow> m6
            | Some _ \<Rightarrow> deleteField ''executionUnit''
                (pinNamed ''executionUnitId'' ''executionUnitVersion'' ''executionUnitManifestSha256'' unit m6));
          m8 = pinNamed ''deviceId'' ''deviceVersion'' ''deviceManifestSha256'' device m7;
          m9 = setWhen (present ''bounds'') ''bounds'' (getp task ''bounds'') m8;
          m10 = setWhen (present ''joinPolicy'') ''joinPolicy'' (getp task ''joinPolicy'') m9;
          human = getp (getp task ''metadata'') ''humanRequest'';
          m11 = setWhen (\<not> nullish human) ''humanRequest'' human m10
      in setWhen (present ''compilerInvariant'' \<or> present ''insertedByCompiler'') ''compilerInvariant''
           (coalesce (getp task ''compilerInvariant'') (getp task ''insertedByCompiler'')) m11)"

section \<open>Templates\<close>

record compiled_template =
  compiledId :: string
  compiledOpcode :: gvm_opcode
  compiledDependsOn :: "string list"
  compiledInputs :: jsval
  compiledOutputs :: jsval
  compiledResources :: compiled_resources
  compiledEvidence :: jsval
  compiledAuthority :: jsval
  compiledRecovery :: jsval
  compiledRetry :: jsval
  compiledPolicy :: jsval
  compiledClauses :: "string list"
  compiledMaterial :: bool
  compiledMetadata :: fields
  compiledOperation :: "string option"
  compiledTimeout :: "jsval option"

definition templateValue :: "compiled_template \<Rightarrow> jsval" where
  "templateValue t = JObj
     ([(''taskTemplateId'', JStr (compiledId t)), (''opcode'', JStr (opcodeName (compiledOpcode t))),
       (''dependsOn'', JArr (map JStr (compiledDependsOn t))), (''inputs'', compiledInputs t),
       (''outputs'', compiledOutputs t), (''resources'', resourcesValue (compiledResources t)),
       (''evidence'', compiledEvidence t), (''authority'', compiledAuthority t),
       (''recovery'', compiledRecovery t), (''retry'', compiledRetry t),
       (''policySnapshotSha256'', compiledPolicy t),
       (''intentClauseIds'', JArr (map JStr (compiledClauses t))), (''material'', JBool (compiledMaterial t)),
       (''metadata'', JObj (compiledMetadata t))]
      @ (case compiledOperation t of None \<Rightarrow> [] | Some k \<Rightarrow> [(''operation'', JStr k)])
      @ (case compiledTimeout t of None \<Rightarrow> [] | Some v \<Rightarrow> [(''timeoutMs'', v)]))"

definition isMaterial :: "jsval \<Rightarrow> gvm_opcode \<Rightarrow> bool" where
  "isMaterial task opcode =
     (if nullish (getp task ''material'') then opcode \<notin> set nonMaterial else getp task ''material'' = JBool True)"

definition contractChecks ::
    "jsval \<Rightarrow> gvm_opcode \<Rightarrow> bool \<Rightarrow> compiled_resources \<Rightarrow> jsval \<Rightarrow> jsval \<Rightarrow> jsval \<Rightarrow> unit result" where
  "contractChecks task opcode material resources evidence authority recovery = checks
     [refuseIf (material \<and> \<not> present evidence) ''SGOS_EVIDENCE_REQUIRED'',
      refuseIf (humanJudgment task opcode \<and> \<not> present authority) ''SGOS_HUMAN_AUTHORITY_REQUIRED'',
      refuseIf (resourceEffects resources \<noteq> [] \<and> \<not> present recovery) ''SGOS_EXTERNAL_EFFECT_RECOVERY_REQUIRED'']"

definition admittedOpcode :: "jsval \<Rightarrow> registry_catalog \<Rightarrow> (string \<times> gvm_opcode) result" where
  "admittedOpcode task catalog =
     andThen (taskKindAndOpcode task catalog) (\<lambda>ko.
     andThen (checks
       [assertBounded task (fst ko),
        refuseIf (\<not> nullish (getp task ''condition'') \<or> \<not> nullish (getp task ''when'')) ''SGOS_CONDITIONAL_EDGE_UNSUPPORTED'',
        refuseIf (snd ko \<in> set runtimeUnsupported) ''SGOS_OPCODE_RUNTIME_UNSUPPORTED'']) (\<lambda>_. Inr ko))"

definition taskTemplate :: "jsval \<Rightarrow> string \<Rightarrow> jsval \<Rightarrow> registry_catalog \<Rightarrow> compiled_template result" where
  "taskTemplate workflow taskId task catalog =
     (if \<not> safeId taskId then fail ''SGOS_TASK_ID_INVALID''
      else if \<not> plainObject task then fail ''SGOS_WORKFLOW_TASK_INVALID''
      else andThen (admittedOpcode task catalog) (\<lambda>(kind, opcode).
        andThen (resolveOperation task opcode catalog) (\<lambda>(operationId, operation).
        andThen (resolveVerification task catalog) (\<lambda>verification.
        andThen (resolveDevice task opcode operationId catalog) (\<lambda>device.
        andThen (normalizeResources task) (\<lambda>resources.
        let material = isMaterial task opcode; evidence = taskEvidence workflow taskId task;
            authority = taskAuthority workflow taskId task; recovery = taskRecovery workflow taskId task in
        andThen (contractChecks task opcode material resources evidence authority recovery) (\<lambda>_.
        andThen (resolveUnit task opcode catalog) (\<lambda>unit.
        andThen (sortedUniqueStrings (coalesceAll
            [getp task ''dependsOn'', getp task ''after'', getp task ''predecessors''])) (\<lambda>dependsOn.
        andThen (normalizeRetry task) (\<lambda>retry.
        andThen (sortedUniqueStrings (coalesceAll
            [getp task ''intentClauseIds'', getp task ''clauseIds'', getp task ''mappedIntentClauseIds''])) (\<lambda>clauses.
          Inr \<lparr>compiledId = taskId, compiledOpcode = opcode, compiledDependsOn = dependsOn,
            compiledInputs = coalesceAll [getp task ''inputs'', getp task ''inputRefs'', JArr []],
            compiledOutputs = coalesceAll [getp task ''outputs'', getp task ''outputRefs'', JArr []],
            compiledResources = resources, compiledEvidence = coalesce evidence (JObj []),
            compiledAuthority = coalesce authority (JObj []), compiledRecovery = coalesce recovery (JObj []),
            compiledRetry = retry, compiledPolicy = getp workflow ''policySnapshotSha256'',
            compiledClauses = clauses, compiledMaterial = material,
            compiledMetadata = templateMetadataOf task kind operation verification unit device,
            compiledOperation = operationId,
            compiledTimeout = (if nullish (getp task ''timeoutMs'') then None
              else Some (jsNumber (getp task ''timeoutMs'')))\<rparr>)))))))))))"

section \<open>JSON-safe values\<close>

lemma unsafe_not_digits: "k \<in> set unsafeKeys \<Longrightarrow> \<not> list_all isDigit k"
  by (auto simp: unsafeKeys_def isDigit_def codePoint_def)

definition maybeSafe :: "jsval \<Rightarrow> bool" where
  "maybeSafe v \<longleftrightarrow> v = JUndef \<or> jsonSafe v"

lemma maybeSafe_getp: "jsonSafe v \<Longrightarrow> maybeSafe (getp v k)"
proof (cases v)
  case (JObj fs)
  assume "jsonSafe v"
  with JObj show ?thesis by (auto simp: maybeSafe_def list_all_iff split: option.splits dest!: map_of_SomeD)
qed (auto simp: maybeSafe_def list_all_iff split: option.splits)

lemma maybeSafe_getp': "maybeSafe v \<Longrightarrow> maybeSafe (getp v k)"
  using maybeSafe_getp [of v k] by (auto simp: maybeSafe_def)

lemma coalesce_safe: "maybeSafe a \<Longrightarrow> jsonSafe b \<Longrightarrow> jsonSafe (coalesce a b)"
  by (auto simp: maybeSafe_def coalesce_def nullish_def)

lemma coalesce_maybe: "maybeSafe a \<Longrightarrow> maybeSafe b \<Longrightarrow> maybeSafe (coalesce a b)"
  by (simp add: coalesce_def)

lemma present_safe: "maybeSafe v \<Longrightarrow> \<not> nullish v \<Longrightarrow> jsonSafe v"
  by (auto simp: maybeSafe_def)

lemma firstValue_maybe: "list_all maybeSafe vs \<Longrightarrow> maybeSafe (firstValue vs)"
  by (auto simp: firstValue_def list_all_iff maybeSafe_def split: option.splits dest: find_in)

lemma spread_safe: "jsonSafe (JObj base) \<Longrightarrow> jsonSafe (JObj fs) \<Longrightarrow> jsonSafe (JObj (spread base fs))"
proof (induction fs arbitrary: base)
  case (Cons f fs)
  have "jsonSafe (JObj (setField (fst f) (snd f) base))"
    using Cons.prems by (intro jsonSafe_setField) auto
  then show ?case using Cons.IH Cons.prems(2) by (simp add: spread_Cons)
qed simp

lemma entries_safe: "jsonSafe v \<Longrightarrow> jsonSafe (JObj (entries v))"
proof (cases v)
  case (JArr xs)
  assume "jsonSafe v"
  with JArr show ?thesis
    using unsafe_not_digits showNat_digits by (fastforce simp: list_all_iff dest: set_zip_leftD set_zip_rightD)
next
  case (JStr s)
  then show ?thesis
    using unsafe_not_digits showNat_digits by (fastforce simp: list_all_iff dest: set_zip_leftD set_zip_rightD)
qed auto

lemma deleteField_safe: "jsonSafe (JObj fs) \<Longrightarrow> jsonSafe (JObj (deleteField k fs))"
  by (auto simp: deleteField_def list_all_iff)

lemma setWhen_safe:
  "jsonSafe (JObj fs) \<Longrightarrow> (b \<Longrightarrow> jsonSafe v) \<Longrightarrow> k \<notin> set unsafeKeys \<Longrightarrow> jsonSafe (JObj (setWhen b k v fs))"
  unfolding setWhen_def using jsonSafe_setField by simp

text \<open>What a validated registry gives for every entry the compiler may pin.\<close>

definition pinnable :: "jsval \<Rightarrow> bool" where
  "pinnable e \<longleftrightarrow> jsonSafe (getp e ''manifestSha256'')"

lemma pinEntry_safe:
  "jsonSafe (JObj fs) \<Longrightarrow> pred_option pinnable entry \<Longrightarrow> vf \<notin> set unsafeKeys \<Longrightarrow> mf \<notin> set unsafeKeys \<Longrightarrow>
   jsonSafe (JObj (pinEntry vf mf entry fs))"
  by (auto simp: pinEntry_def pinnable_def split: option.splits intro!: jsonSafe_setField simp del: jsonSafe.simps(3,4))

lemma pinNamed_safe:
  "jsonSafe (JObj fs) \<Longrightarrow> pred_option (\<lambda>ie. pinnable (snd ie)) entry \<Longrightarrow> nf \<notin> set unsafeKeys \<Longrightarrow>
   vf \<notin> set unsafeKeys \<Longrightarrow> mf \<notin> set unsafeKeys \<Longrightarrow> jsonSafe (JObj (pinNamed nf vf mf entry fs))"
  unfolding pinNamed_def by (auto split: option.splits intro!: pinEntry_safe jsonSafe_setField simp del: jsonSafe.simps(4))

section \<open>Compiled templates are typed\<close>

lemma taskTemplate_steps:
  assumes "taskTemplate workflow taskId task catalog = Inr t"
  obtains kind operation verification device unit where
    "safeId taskId" "plainObject task" "admittedOpcode task catalog = Inr (kind, compiledOpcode t)"
    "resolveOperation task (compiledOpcode t) catalog = Inr (compiledOperation t, operation)"
    "resolveVerification task catalog = Inr verification"
    "resolveDevice task (compiledOpcode t) (compiledOperation t) catalog = Inr device"
    "normalizeResources task = Inr (compiledResources t)"
    "contractChecks task (compiledOpcode t) (compiledMaterial t) (compiledResources t)
       (taskEvidence workflow taskId task) (taskAuthority workflow taskId task) (taskRecovery workflow taskId task) = Inr ()"
    "resolveUnit task (compiledOpcode t) catalog = Inr unit"
    "sortedUniqueStrings (coalesceAll [getp task ''dependsOn'', getp task ''after'', getp task ''predecessors''])
       = Inr (compiledDependsOn t)"
    "normalizeRetry task = Inr (compiledRetry t)"
    "sortedUniqueStrings (coalesceAll [getp task ''intentClauseIds'', getp task ''clauseIds'',
       getp task ''mappedIntentClauseIds'']) = Inr (compiledClauses t)"
    "compiledId t = taskId" "compiledMaterial t = isMaterial task (compiledOpcode t)"
    "compiledInputs t = coalesceAll [getp task ''inputs'', getp task ''inputRefs'', JArr []]"
    "compiledOutputs t = coalesceAll [getp task ''outputs'', getp task ''outputRefs'', JArr []]"
    "compiledEvidence t = coalesce (taskEvidence workflow taskId task) (JObj [])"
    "compiledAuthority t = coalesce (taskAuthority workflow taskId task) (JObj [])"
    "compiledRecovery t = coalesce (taskRecovery workflow taskId task) (JObj [])"
    "compiledPolicy t = getp workflow ''policySnapshotSha256''"
    "compiledMetadata t = templateMetadataOf task kind operation verification unit device"
    "compiledTimeout t = (if nullish (getp task ''timeoutMs'') then None else Some (jsNumber (getp task ''timeoutMs'')))"
proof -
  from assms obtain ko op verification device resources unit dependsOn retry clauses where steps:
      "safeId taskId" "plainObject task" "admittedOpcode task catalog = Inr ko"
      "resolveOperation task (snd ko) catalog = Inr op" "resolveVerification task catalog = Inr verification"
      "resolveDevice task (snd ko) (fst op) catalog = Inr device" "normalizeResources task = Inr resources"
      "contractChecks task (snd ko) (isMaterial task (snd ko)) resources
         (taskEvidence workflow taskId task) (taskAuthority workflow taskId task) (taskRecovery workflow taskId task) = Inr ()"
      "resolveUnit task (snd ko) catalog = Inr unit"
      "sortedUniqueStrings (coalesceAll [getp task ''dependsOn'', getp task ''after'', getp task ''predecessors'']) = Inr dependsOn"
      "normalizeRetry task = Inr retry"
      "sortedUniqueStrings (coalesceAll [getp task ''intentClauseIds'', getp task ''clauseIds'',
         getp task ''mappedIntentClauseIds'']) = Inr clauses"
    and t: "Inr \<lparr>compiledId = taskId, compiledOpcode = snd ko, compiledDependsOn = dependsOn,
            compiledInputs = coalesceAll [getp task ''inputs'', getp task ''inputRefs'', JArr []],
            compiledOutputs = coalesceAll [getp task ''outputs'', getp task ''outputRefs'', JArr []],
            compiledResources = resources, compiledEvidence = coalesce (taskEvidence workflow taskId task) (JObj []),
            compiledAuthority = coalesce (taskAuthority workflow taskId task) (JObj []),
            compiledRecovery = coalesce (taskRecovery workflow taskId task) (JObj []),
            compiledRetry = retry, compiledPolicy = getp workflow ''policySnapshotSha256'',
            compiledClauses = clauses, compiledMaterial = isMaterial task (snd ko),
            compiledMetadata = templateMetadataOf task (fst ko) (snd op) verification unit device,
            compiledOperation = fst op,
            compiledTimeout = (if nullish (getp task ''timeoutMs'') then None
              else Some (jsNumber (getp task ''timeoutMs'')))\<rparr> = (Inr t :: compiled_template result)"
    unfolding taskTemplate_def Let_def if_fail_Inr andThen_Inr case_prod_beta by (elim exE conjE) simp
  show thesis
    by (rule that [of "fst ko" "snd op" verification device unit]) (use steps t in auto)
qed

lemma sortedUniqueStrings_Inr:
  "sortedUniqueStrings v = Inr ss \<Longrightarrow> sorted_wrt (<) ss \<and> list_all (\<lambda>s. s \<noteq> [] \<and> trim s = s) ss"
  using sortedTexts_sorted [of "concat (map flattened (elements v))"] sortedTexts_set [of "concat (map flattened (elements v))"]
  by (auto simp: sortedUniqueStrings_def list_all_iff split: if_splits jsval.splits)

lemma resourceKey_trimmed: "trim (resourceKey v) = resourceKey v"
  by (simp add: resourceKey_def split: jsval.splits)

lemma normalizeResourceList_Inr:
  assumes "normalizeResourceList v = Inr ss"
  shows "sorted_wrt (<) ss \<and> list_all (\<lambda>s. s \<noteq> [] \<and> trim s = s) ss"
proof -
  from assms obtain keys where keys: "mapResult (\<lambda>item. if resourceKey item = [] then fail ''SGOS_RESOURCE_INVALID''
        else Inr (resourceKey item)) (if nullish v then [] else flattened v) = Inr keys"
      and ss: "ss = sortPoints (dedupe keys)"
    by (auto simp: normalizeResourceList_def andThen_Inr)
  have "k \<noteq> [] \<and> trim k = k" if k: "k \<in> set keys" for k
  proof -
    obtain v where "(if resourceKey v = [] then fail ''SGOS_RESOURCE_INVALID'' else Inr (resourceKey v)) = Inr k"
      using list_all2_in_right [OF keys [unfolded mapResult_Inr] k] by blast
    then show ?thesis by (auto simp: resourceKey_trimmed split: if_splits)
  qed
  moreover have "set ss = set keys" using ss by (simp add: sortPoints_sort)
  moreover have "sorted_wrt (<) ss" using ss by simp
  ultimately show ?thesis by (simp add: list_all_iff)
qed

lemma normalizeResources_Inr:
  assumes "normalizeResources task = Inr r"
  shows "list_all (\<lambda>ss. sorted_wrt (<) ss \<and> list_all (\<lambda>s. s \<noteq> [] \<and> trim s = s) ss)
    [resourceReads r, resourceWrites r, resourceDevices r, resourceEffects r]"
  using assms unfolding normalizeResources_def Let_def andThen_Inr
  by (auto dest!: normalizeResourceList_Inr)

lemma sorted_strings_array:
  assumes "sorted_wrt (<) ss" "list_all (\<lambda>s. s \<noteq> [] \<and> trim s = s) ss"
  shows "stringArray (JArr (map JStr ss)) = Inr ()"
proof -
  have "distinct ss" using assms(1) by (simp add: strict_sorted_iff)
  then have "distinct (map JStr ss)" by (simp add: distinct_map inj_on_def)
  moreover have "eachOf stringCheck (map JStr ss) = Inr ()"
    using assms(2) by (auto simp: eachOf_Inr stringCheck_def nonBlank_def list_all_iff)
  ultimately show ?thesis by (simp add: stringArray_def arrayOf_def arrayCheck_def)
qed

lemma normalizeRetry_Inr:
  assumes "normalizeRetry task = Inr retry" "jsonSafe task"
  shows "jsonSafe retry" "isSafeInteger (getp retry ''maximumAttempts'')" "1 \<le> numberOf (getp retry ''maximumAttempts'')"
proof -
  let ?supplied = "coalesce (getp task ''retry'') (getp task ''retryPolicy'')"
  have "jsonSafe retry \<and> isSafeInteger (getp retry ''maximumAttempts'') \<and> 1 \<le> numberOf (getp retry ''maximumAttempts'')"
  proof (cases "nullish ?supplied")
    case True
    with assms(1) show ?thesis by (auto simp: normalizeRetry_def Let_def unsafeKeys_def maxSafeInteger_def)
  next
    case False
    with assms(1) obtain fs n where fs: "?supplied = JObj fs" and n: "isSafeInteger n" "1 \<le> numberOf n"
        and retry: "retry = JObj (setField ''maximumAttempts'' n (deleteField ''maxAttempts'' fs))"
      by (auto simp: normalizeRetry_def Let_def plainObject_iff split: if_splits)
    have "maybeSafe ?supplied" using assms(2) by (intro coalesce_maybe maybeSafe_getp)
    with fs have "jsonSafe (JObj fs)" by (simp add: maybeSafe_def del: jsonSafe.simps)
    then have "jsonSafe retry"
      unfolding retry using n(1)
      by (intro jsonSafe_setField deleteField_safe) (auto simp: isSafeInteger_iff unsafeKeys_def)
    with n retry show ?thesis by (simp add: getp_setField del: getp.simps jsonSafe.simps)
  qed
  then show "jsonSafe retry" "isSafeInteger (getp retry ''maximumAttempts'')" "1 \<le> numberOf (getp retry ''maximumAttempts'')"
    by auto
qed

lemma pred_option_map_of: "list_all (\<lambda>e. P (snd e)) m \<Longrightarrow> pred_option P (map_of m k)"
  by (cases "map_of m k") (auto simp: list_all_iff dest!: map_of_SomeD)

lemma resolved_pinnable:
  assumes "list_all (\<lambda>e. pinnable (snd e)) (catalogOperations catalog @ catalogDevices catalog @ catalogUnits catalog)"
  shows "resolveOperation task opcode catalog = Inr (i, operation) \<Longrightarrow> pred_option pinnable operation"
    "resolveVerification task catalog = Inr verification \<Longrightarrow> pred_option pinnable verification"
    "resolveDevice task opcode i catalog = Inr device \<Longrightarrow> pred_option (\<lambda>ie. pinnable (snd ie)) device"
    "resolveUnit task opcode catalog = Inr unit \<Longrightarrow> pred_option (\<lambda>ie. pinnable (snd ie)) unit"
proof -
  have ops: "map_of (catalogOperations catalog) k = Some e \<Longrightarrow> pinnable e"
    and devices: "map_of (catalogDevices catalog) k = Some e \<Longrightarrow> pinnable e"
    and units: "map_of (catalogUnits catalog) k = Some e \<Longrightarrow> pinnable e" for k e
    using assms by (auto dest!: map_of_SomeD simp: list_all_iff dest!: bspec [of _ _ "(k, e)"])
  show "resolveOperation task opcode catalog = Inr (i, operation) \<Longrightarrow> pred_option pinnable operation"
    by (auto simp: resolveOperation_def Let_def registered_def pred_option_def split: if_splits option.splits dest: ops)
  show "resolveVerification task catalog = Inr verification \<Longrightarrow> pred_option pinnable verification"
    unfolding resolveVerification_def Let_def if_fail_Inr andThen_Inr
    by (elim exE conjE) (auto simp: pred_option_def split: if_splits dest: ops)
  show "resolveDevice task opcode i catalog = Inr device \<Longrightarrow> pred_option (\<lambda>ie. pinnable (snd ie)) device"
    unfolding resolveDevice_def Let_def
    by (auto simp: pred_option_def split: if_splits option.splits dest: devices)
  show "resolveUnit task opcode catalog = Inr unit \<Longrightarrow> pred_option (\<lambda>ie. pinnable (snd ie)) unit"
    unfolding resolveUnit_def Let_def
    by (auto simp: pred_option_def split: if_splits option.splits dest: units)
qed

lemma templateMetadataOf_safe:
  assumes "jsonSafe task" "pred_option pinnable operation" "pred_option pinnable verification"
    and "pred_option (\<lambda>ie. pinnable (snd ie)) unit" "pred_option (\<lambda>ie. pinnable (snd ie)) device"
  shows "jsonSafe (JObj (templateMetadataOf task kind operation verification unit device))"
proof -
  have field: "maybeSafe (getp task k)" for k using assms(1) by (rule maybeSafe_getp)
  have here: "\<not> nullish (getp task k) \<Longrightarrow> jsonSafe (getp task k)" for k using field by (rule present_safe)
  have either: "\<not> nullish (getp task j) \<or> \<not> nullish (getp task k) \<Longrightarrow> jsonSafe (coalesce (getp task j) (getp task k))" for j k
    using here by (auto simp: coalesce_def)
  have base: "jsonSafe (JObj (spread [] (entries (coalesce (getp task ''metadata'') (JObj [])))))"
    by (intro spread_safe entries_safe coalesce_safe field) simp_all
  have human: "\<not> nullish (getp (getp task ''metadata'') k) \<Longrightarrow> jsonSafe (getp (getp task ''metadata'') k)" for k
    using maybeSafe_getp' [OF field] by (rule present_safe)
  show ?thesis
    unfolding templateMetadataOf_def Let_def
    by (auto simp del: jsonSafe.simps(3,4) split: option.split
        intro!: setWhen_safe pinEntry_safe pinNamed_safe jsonSafe_setField deleteField_safe base here either human assms
        simp: unsafeKeys_def) (use assms(4) in simp)
qed

lemma unlisted_undefined: "exactKeys v allowed = Inr () \<Longrightarrow> k \<notin> set allowed \<Longrightarrow> getp v k = JUndef"
  by (cases v) (auto simp: exactKeys_def objectCheck_def list_all_iff andThen_Inr split: option.splits dest!: map_of_SomeD)

lemma scopedContract_safe:
  "jsonSafe workflow \<Longrightarrow> maybeSafe a \<Longrightarrow> maybeSafe b \<Longrightarrow> jsonSafe (coalesce (scopedContract workflow field a b taskId) (JObj []))"
proof -
  assume "jsonSafe workflow" and own: "maybeSafe a" "maybeSafe b"
  then have g: "maybeSafe (getp (getp workflow ''spec'') field)" by (intro maybeSafe_getp' [OF maybeSafe_getp])
  have "maybeSafe JNull" by (simp add: maybeSafe_def)
  with g own have "list_all maybeSafe [a, b, getp (getp (getp (getp workflow ''spec'') field) ''tasks'') taskId,
      getp (getp (getp workflow ''spec'') field) taskId, getp (getp (getp workflow ''spec'') field) ''default'',
      if plainObject (getp (getp workflow ''spec'') field) \<and> \<not> truthy (getp (getp (getp workflow ''spec'') field) ''tasks'')
      then getp (getp workflow ''spec'') field else JNull]"
    by (simp add: maybeSafe_getp')
  then show ?thesis unfolding scopedContract_def Let_def by (intro coalesce_safe firstValue_maybe) simp_all
qed

text \<open>A task the workflow contract admits names its operation directly, and in the operation's grammar.\<close>

lemma admitted_operation:
  assumes "validateWorkflowTask key task = Inr ()" "resolveOperation task opcode catalog = Inr (Some k, entry)"
  shows "operationText k" "trim k \<noteq> []"
proof -
  from assms(1) have keys: "exactKeys task workflowTaskFields = Inr ()"
      and pattern: "nullish (getp task ''operation'') \<or> patternCheck operationText (getp task ''operation'') = Inr ()"
    unfolding validateWorkflowTask_def Let_def checks_Inr by (simp_all add: optionally_def whenPresent_Inr)
  have none: "getp task ''operationRef'' = JUndef" "getp task ''taskKind'' = JUndef" "getp task ''execution'' = JUndef"
    using unlisted_undefined [OF keys] by (simp_all add: workflowTaskFields_def)
  from assms(2) have k: "operationIdOf (operationContract task) = Some k"
    by (auto simp: resolveOperation_def Let_def split: if_splits)
  have "getp task ''operation'' = JStr k \<and> \<not> nullish (getp task ''operation'')"
    using k pattern by (auto simp: operationContract_def operationIdOf_def none patternCheck_def nonBlank_def Let_def
        isString_iff coalesce_def split: if_splits)
  with pattern show "operationText k" "trim k \<noteq> []" by (auto simp: patternCheck_def nonBlank_def)
qed

lemma admittedOpcode_Inr: "admittedOpcode task catalog = Inr (kind, opcode) \<Longrightarrow> opcode \<notin> set runtimeUnsupported"
  by (auto simp: admittedOpcode_def andThen_Inr)

lemma resolveOperation_Inr:
  assumes "resolveOperation task opcode catalog = Inr (i, entry)"
  shows "opcode \<in> set operationOpcodes \<longrightarrow> i \<noteq> None" "entry = registered (catalogOperations catalog) i"
    "i = Some k \<longrightarrow> map_of (catalogOperations catalog) k \<noteq> None"
proof -
  from assms have i: "i = operationIdOf (operationContract task)" and entry: "entry = registered (catalogOperations catalog) i"
      and guards: "\<not> (opcode \<in> set operationOpcodes \<and> i = None)" "\<not> (i \<noteq> None \<and> entry = None)"
    by (auto simp: resolveOperation_def Let_def split: if_splits)
  then show "opcode \<in> set operationOpcodes \<longrightarrow> i \<noteq> None" "entry = registered (catalogOperations catalog) i"
    "i = Some k \<longrightarrow> map_of (catalogOperations catalog) k \<noteq> None"
    by (auto simp: registered_def split: option.splits)
qed

lemma templateValue_fields:
  "getp (templateValue t) ''id'' = JUndef" "getp (templateValue t) ''taskTemplateId'' = JStr (compiledId t)"
  "getp (templateValue t) ''opcode'' = JStr (opcodeName (compiledOpcode t))"
  "getp (templateValue t) ''dependsOn'' = JArr (map JStr (compiledDependsOn t))"
  "getp (templateValue t) ''inputs'' = compiledInputs t" "getp (templateValue t) ''outputs'' = compiledOutputs t"
  "getp (templateValue t) ''resources'' = resourcesValue (compiledResources t)"
  "getp (templateValue t) ''evidence'' = compiledEvidence t" "getp (templateValue t) ''authority'' = compiledAuthority t"
  "getp (templateValue t) ''recovery'' = compiledRecovery t" "getp (templateValue t) ''retry'' = compiledRetry t"
  "getp (templateValue t) ''policySnapshotSha256'' = compiledPolicy t"
  "getp (templateValue t) ''intentClauseIds'' = JArr (map JStr (compiledClauses t))"
  "getp (templateValue t) ''material'' = JBool (compiledMaterial t)"
  "getp (templateValue t) ''metadata'' = JObj (compiledMetadata t)"
  "getp (templateValue t) ''taskTemplateSha256'' = JUndef"
  "getp (templateValue t) ''operation'' = (case compiledOperation t of None \<Rightarrow> JUndef | Some k \<Rightarrow> JStr k)"
  "getp (templateValue t) ''timeoutMs'' = (case compiledTimeout t of None \<Rightarrow> JUndef | Some v \<Rightarrow> v)"
  by (simp_all add: templateValue_def split: option.split)

lemma templateValue_keys: "exactKeys (templateValue t) taskTemplateFields = Inr ()"
  by (simp add: templateValue_def exactKeys_def objectCheck_def taskTemplateFields_def split: option.split)

lemma opcode_enumerated: "enumerationCheck (map opcodeName gvmOpcodes) (JStr (opcodeName opcode)) = Inr ()"
  by (cases opcode) (simp_all add: enumerationCheck_def gvmOpcodes_def)

lemma safeId_blank: "safeId s \<Longrightarrow> trim s \<noteq> [] \<and> s \<noteq> []"
proof -
  assume "safeId s"
  then have s: "s \<noteq> []" "isAlnum (hd s)" by (auto simp: safeId_def)
  then have "\<not> isSpace (hd s)" by (auto simp: isAlnum_def isSpace_def isDigit_def isLower_def isUpper_def)
  then have "dropWhile isSpace s = s" using s(1) by (cases s) auto
  moreover have "dropWhile isSpace (rev s) \<noteq> []"
    using \<open>\<not> isSpace (hd s)\<close> s(1) by (auto simp: dropWhile_eq_Nil_conv)
  ultimately show "trim s \<noteq> [] \<and> s \<noteq> []" using s(1) by (simp add: trim_def)
qed

lemma template_parts_safe:
  assumes "taskTemplate workflow taskId task catalog = Inr t" and "jsonSafe task" "jsonSafe workflow"
    and "list_all (\<lambda>e. pinnable (snd e)) (catalogOperations catalog @ catalogDevices catalog @ catalogUnits catalog)"
  shows "jsonSafe (JObj (compiledMetadata t)) \<and> jsonSafe (compiledEvidence t) \<and> jsonSafe (compiledAuthority t)
    \<and> jsonSafe (compiledRecovery t) \<and> jsonSafe (compiledInputs t) \<and> jsonSafe (compiledOutputs t) \<and> jsonSafe (compiledRetry t)"
proof (rule taskTemplate_steps [OF assms(1)], goal_cases)
  case s: (1 kind operation verification device unit)
  have field: "maybeSafe (getp task k)" for k using assms(2) by (rule maybeSafe_getp)
  have "jsonSafe (JObj (compiledMetadata t))"
    unfolding s(21)
    by (rule templateMetadataOf_safe [OF assms(2)]) (use resolved_pinnable [OF assms(4)] s(4-6,9) in blast)+
  moreover have "jsonSafe (compiledEvidence t)" "jsonSafe (compiledAuthority t)" "jsonSafe (compiledRecovery t)"
    unfolding s(17-19) taskEvidence_def taskAuthority_def taskRecovery_def
    by (rule scopedContract_safe [OF assms(3) field field])+
  moreover have "jsonSafe (compiledInputs t)" "jsonSafe (compiledOutputs t)"
    unfolding s(15,16) coalesceAll.simps by (intro coalesce_safe field, simp)+
  ultimately show ?case using normalizeRetry_Inr(1) [OF s(11) assms(2)] by blast
qed

lemma template_timeout:
  assumes "taskTemplate workflow taskId task catalog = Inr t" and "validateWorkflowTask key task = Inr ()"
    and "compiledTimeout t = Some v"
  shows "integerCheck 1 v = Inr ()"
proof (rule taskTemplate_steps [OF assms(1)], goal_cases)
  case s: (1 kind operation verification device unit)
  have "optionally task ''timeoutMs'' (integerCheck 1) = Inr ()"
    using assms(2) unfolding validateWorkflowTask_def Let_def checks_Inr by simp
  then show ?case
    using s(22) assms(3) by (auto simp: optionally_def whenPresent_Inr integerCheck_def isSafeInteger_iff split: if_splits)
qed

lemma resources_valid: "normalizeResources task = Inr r \<Longrightarrow> validateResourceContract (resourcesValue r) = Inr ()"
  using normalizeResources_Inr
  by (fastforce simp: validateResourceContract_def resourcesValue_def exactly_def exactKeys_def requireKeys_def objectCheck_def
      hasOwn_def fieldsEach_def eachOf_def sorted_strings_array)

text \<open>
  C5: A workflow task that its contract admits compiles, if it compiles at all, to a task template
  that the Program contract admits: every field has its type, the opcode is one the runtime
  implements, the operation is registered, and the retry ceiling is a positive safe integer.
\<close>
theorem compiled_template_typed:
  assumes "taskTemplate workflow taskId task catalog = Inr t"
    and "validateWorkflowTask key task = Inr ()" "jsonSafe task"
    and "jsonSafe workflow" "digestCheck (getp workflow ''policySnapshotSha256'') = Inr ()"
    and "list_all (\<lambda>e. pinnable (snd e)) (catalogOperations catalog @ catalogDevices catalog @ catalogUnits catalog)"
  shows "validateTaskTemplate (templateValue t) = Inr () \<and>
    compiledOpcode t \<notin> set runtimeUnsupported \<and>
    (compiledOpcode t \<in> set operationOpcodes \<longrightarrow> compiledOperation t \<noteq> None) \<and>
    (\<forall>k. compiledOperation t = Some k \<longrightarrow> map_of (catalogOperations catalog) k \<noteq> None) \<and>
    isSafeInteger (getp (compiledRetry t) ''maximumAttempts'') \<and> 1 \<le> numberOf (getp (compiledRetry t) ''maximumAttempts'')"
proof (rule taskTemplate_steps [OF assms(1)], goal_cases)
  case s: (1 kind operation verification device unit)
  note safe = template_parts_safe [OF assms(1,3,4,6)] and timeout = template_timeout [OF assms(1,2)]
  have lists: "stringArray (JArr (map JStr (compiledDependsOn t))) = Inr ()"
      "stringArray (JArr (map JStr (compiledClauses t))) = Inr ()"
    using sortedUniqueStrings_Inr [OF s(10)] sortedUniqueStrings_Inr [OF s(12)] by (auto intro: sorted_strings_array)
  have operation: "operationText k \<and> trim k \<noteq> []" if "compiledOperation t = Some k" for k
    using admitted_operation [OF assms(2)] s(4) that by auto
  have "validateTaskTemplate (templateValue t) = Inr ()"
    using safe lists resources_valid [OF s(7)] operation timeout assms(5) s(13,20) safeId_blank [OF s(1)]
    unfolding validateTaskTemplate_def checks_Inr
    by (simp add: templateValue_fields templateValue_keys optionally_def whenPresent_Inr eachOf_Inr opcode_enumerated
        stringCheck_def nonBlank_def patternCheck_def booleanCheck_def jsonCheck_def split: option.splits
        del: jsonSafe.simps getp.simps)
  then show ?case
    using admittedOpcode_Inr [OF s(3)] resolveOperation_Inr [OF s(4)] normalizeRetry_Inr(2,3) [OF s(11) assms(3)]
    by blast
qed

section \<open>Native errors\<close>

lemma andThen_Inl: "andThen m f = Inl e \<longleftrightarrow> m = Inl e \<or> (\<exists>x. m = Inr x \<and> f x = Inl e)"
  by (cases m) auto

lemma checks_native: "Inl NativeError \<notin> set cs \<Longrightarrow> checks cs \<noteq> Inl NativeError"
  by (induction cs) (auto simp: andThen_Inl)

lemma refuseIf_native [simp]: "refuseIf b code \<noteq> Inl NativeError" "Inl NativeError \<noteq> refuseIf b code"
  by (simp_all add: refuseIf_def)

lemma mapResult_native: "mapResult f xs = Inl NativeError \<Longrightarrow> \<exists>x \<in> set xs. f x = Inl NativeError"
  by (induction xs) (auto simp: andThen_Inl)

lemma no_native_errors:
  "admittedOpcode task catalog \<noteq> Inl NativeError" "resolveOperation task opcode catalog \<noteq> Inl NativeError"
  "resolveDevice task opcode i catalog \<noteq> Inl NativeError" "resolveUnit task opcode catalog \<noteq> Inl NativeError"
  "normalizeResourceList v \<noteq> Inl NativeError" "normalizeResources task \<noteq> Inl NativeError"
  "contractChecks task opcode material resources evidence authority recovery \<noteq> Inl NativeError"
  "normalizeRetry task \<noteq> Inl NativeError"
proof -
  have "taskKindAndOpcode task catalog \<noteq> Inl NativeError"
    by (simp add: taskKindAndOpcode_def Let_def split: option.split)
  moreover have "assertBounded task kind \<noteq> Inl NativeError" for kind
    unfolding assertBounded_def Let_def by (rule checks_native) simp
  ultimately show "admittedOpcode task catalog \<noteq> Inl NativeError"
    by (auto simp: admittedOpcode_def andThen_Inl)
  show lists: "normalizeResourceList v \<noteq> Inl NativeError" for v
    by (auto simp: normalizeResourceList_def andThen_Inl dest!: mapResult_native split: if_splits)
  then show "normalizeResources task \<noteq> Inl NativeError"
    by (auto simp: normalizeResources_def Let_def andThen_Inl)
  show "contractChecks task opcode material resources evidence authority recovery \<noteq> Inl NativeError"
    unfolding contractChecks_def by (rule checks_native) simp
  show "resolveOperation task opcode catalog \<noteq> Inl NativeError" "resolveDevice task opcode i catalog \<noteq> Inl NativeError"
    "resolveUnit task opcode catalog \<noteq> Inl NativeError" "normalizeRetry task \<noteq> Inl NativeError"
    by (simp_all add: resolveOperation_def resolveDevice_def resolveUnit_def normalizeRetry_def Let_def split: option.split)
qed

lemma resolveVerification_native:
  "resolveVerification task catalog = Inl NativeError \<Longrightarrow> getp (taskVerification task) ''operation'' = JNull"
  by (auto simp: resolveVerification_def Let_def andThen_Inl propOf_def nullish_def split: if_splits)

lemma sortedUniqueStrings_native: "sortedUniqueStrings v = Inl NativeError \<longleftrightarrow> \<not> nullish v \<and> \<not> isArray v"
  by (cases v) (auto simp: sortedUniqueStrings_def)

lemma taskTemplate_native:
  assumes "taskTemplate workflow taskId task catalog = Inl NativeError"
  shows "resolveVerification task catalog = Inl NativeError \<or>
    sortedUniqueStrings (coalesceAll [getp task ''dependsOn'', getp task ''after'', getp task ''predecessors'']) = Inl NativeError \<or>
    sortedUniqueStrings (coalesceAll [getp task ''intentClauseIds'', getp task ''clauseIds'',
      getp task ''mappedIntentClauseIds'']) = Inl NativeError"
  using assms no_native_errors
  by (auto simp: taskTemplate_def Let_def andThen_Inl split: if_splits)


section \<open>An example\<close>

definition sampleEntry :: jsval where
  "sampleEntry = JObj [(''id'', JStr ''build.run''), (''version'', JStr ''1''), (''status'', JStr ''active''),
     (''manifestSha256'', JStr sampleDigest)]"

definition sampleCatalog :: registry_catalog where
  "sampleCatalog = \<lparr>catalogKinds = [], catalogOperations = [(''build.run'', sampleEntry)],
     catalogDevices = [], catalogUnits = []\<rparr>"

definition sampleTask :: jsval where
  "sampleTask = JObj [(''kind'', JStr ''task''), (''operation'', JStr ''build.run''),
     (''resources'', JObj [(''reads'', JArr []), (''writes'', JArr [JStr ''out'']), (''devices'', JArr []),
        (''externalEffects'', JArr [])]),
     (''evidence'', JObj [(''report'', JStr ''log'')]), (''intentClauseIds'', JArr [JStr ''goal'']),
     (''retry'', JObj [(''maxAttempts'', JNum 2)])]"

definition sampleWorkflow :: jsval where
  "sampleWorkflow = JObj [(''policySnapshotSha256'', JStr sampleDigest)]"

definition sampleTemplate :: compiled_template where
  "sampleTemplate = \<lparr>compiledId = ''build'', compiledOpcode = KERNEL, compiledDependsOn = [],
     compiledInputs = JArr [], compiledOutputs = JArr [],
     compiledResources = \<lparr>resourceReads = [], resourceWrites = [''out''], resourceDevices = [], resourceEffects = []\<rparr>,
     compiledEvidence = JObj [(''report'', JStr ''log'')], compiledAuthority = JObj [], compiledRecovery = JObj [],
     compiledRetry = JObj [(''maximumAttempts'', JNum 2)], compiledPolicy = JStr sampleDigest,
     compiledClauses = [''goal''], compiledMaterial = True,
     compiledMetadata = [(''sourceConstruct'', JStr ''task''), (''operationVersion'', JStr ''1''),
       (''operationManifestSha256'', JStr sampleDigest)],
     compiledOperation = Some ''build.run'', compiledTimeout = None\<rparr>"

lemma sample_compiles:
  "taskTemplate sampleWorkflow ''build'' sampleTask sampleCatalog = Inr sampleTemplate"
  "validateWorkflowTask (Some ''build'') sampleTask = Inr ()" "jsonSafe sampleTask" "jsonSafe sampleWorkflow"
  "digestCheck (getp sampleWorkflow ''policySnapshotSha256'') = Inr ()"
  "list_all (\<lambda>e. pinnable (snd e)) (catalogOperations sampleCatalog @ catalogDevices sampleCatalog @ catalogUnits sampleCatalog)"
  by code_simp+

theorem compiled_template_typed_witness:
  "validateTaskTemplate (templateValue sampleTemplate) = Inr () \<and> compiledOpcode sampleTemplate = KERNEL \<and>
   compiledOperation sampleTemplate \<noteq> None"
  using compiled_template_typed [OF sample_compiles] by (simp add: sampleTemplate_def)

definition nullVerificationTask :: jsval where
  "nullVerificationTask = JObj [(''kind'', JStr ''task''), (''operation'', JStr ''build.run''),
     (''evidence'', JObj [(''report'', JStr ''log'')]),
     (''metadata'', JObj [(''verification'', JObj [(''operation'', JNull)])])]"

lemma nullVerification_crashes:
  "validateWorkflowTask (Some ''build'') nullVerificationTask = Inr ()"
  "taskTemplate sampleWorkflow ''build'' nullVerificationTask sampleCatalog = Inl NativeError"
  by code_simp+


end
