(* ===== verification/SgosCompilerGraph.thy ===== *)
theory SgosCompilerGraph
  imports SgosCompilerTasks SgosGraph
begin

text \<open>
  The whole-graph checks of \<open>src/sgos/compiler.mjs\<close>: the compile-time ceilings, the edges, the joins,
  the terminal tasks, the gates behind a proposal task and the safety of running two unordered tasks
  at the same time.
\<close>

section \<open>Ceilings\<close>

definition metadataField :: "compiled_template \<Rightarrow> string \<Rightarrow> jsval" where
  "metadataField t k = getp (JObj (compiledMetadata t)) k"

definition dynamicBodyOf :: "compiled_template \<Rightarrow> jsval" where
  "dynamicBodyOf t = metadataField t ''dynamicFanoutBody''"

definition outputContract :: "(string \<times> string) list \<Rightarrow> compiled_template \<Rightarrow> (string \<times> string) list result" where
  "outputContract seen t =
     (let descriptor = dynamicBodyOf t;
          identity = jsString (getp descriptor ''sourceTaskTemplateId'') @ [nul] @ jsString (getp descriptor ''outputName'');
          contract = canonicalJson (JObj [(''itemKeySelector'', getp descriptor ''itemKeySelector''),
            (''maximumItems'', getp descriptor ''maximumItems'')])
      in case map_of seen identity of
           None \<Rightarrow> Inr (AList.update identity contract seen)
         | Some prior \<Rightarrow> if prior \<noteq> contract then fail ''SGOS_DYNAMIC_FANOUT_COLLECTION_MISMATCH''
             else Inr (AList.update identity contract seen))"

definition materializedTotal :: "compiled_template list \<Rightarrow> js_number" where
  "materializedTotal templates =
     (let bodies = filter (\<lambda>t. truthy (dynamicBodyOf t)) templates in
      addNumbers (Finite (of_int (int (length templates) - int (length bodies))))
        (foldl addNumbers (Finite 0)
          (map (\<lambda>t. numericValue (jsNumber (getp (dynamicBodyOf t) ''maximumItems''))) bodies)))"

definition fanoutParents :: "compiled_template \<Rightarrow> jsval list" where
  "fanoutParents t = filter truthy (map (\<lambda>k. getp (metadataField t k) ''parentTaskId'')
     [''fanout'', ''fanoutCoordinator'', ''dynamicFanoutCoordinator''])"

definition positiveCeiling :: "jsval \<Rightarrow> bool" where
  "positiveCeiling v \<longleftrightarrow> isSafeInteger v \<and> 1 \<le> numberOf v"

definition templateCeiling :: "int \<Rightarrow> compiled_template \<Rightarrow> unit result" where
  "templateCeiling maximumAttempts t =
     (let attempts = jsNumber (getp (compiledRetry t) ''maximumAttempts'') in
      andThen (rewrap ''SGOS_RESOURCE_LEASE_LIMIT'' (canonicalSgosResourceEntries (resourcesValue (compiledResources t)))) (\<lambda>_.
      checks [refuseIf (\<not> positiveCeiling attempts) ''SGOS_RETRY_CEILING_REQUIRED'',
        refuseIf (numberOf attempts > maximumAttempts) ''SGOS_RETRY_CEILING_EXCEEDED'']))"

definition assertCompileCeilings :: "jsval \<Rightarrow> compiled_template list \<Rightarrow> unit result" where
  "assertCompileCeilings workflow templates =
     (let budgets = coalesce (getp (getp workflow ''spec'') ''budgets'') (JObj []);
          maximum = jsNumber (getp budgets ''maximumTasks'');
          attempts = jsNumber (coalesce (getp budgets ''maximumAttemptsPerTask'') (getp budgets ''maximumAttempts''));
          total = materializedTotal templates
      in if \<not> positiveCeiling maximum then fail ''SGOS_MAXIMUM_TASKS_REQUIRED''
         else andThen (foldResult outputContract [] (filter (\<lambda>t. truthy (dynamicBodyOf t)) templates)) (\<lambda>_. checks
           [refuseIf (exceeds total (numberOf maximum)) ''SGOS_MAXIMUM_TASKS_EXCEEDED'',
            refuseIf (exceeds total maximumTasks) ''SGOS_MAXIMUM_TASKS_EXCEEDED'',
            refuseIf (int (length (jsSet (concat (map fanoutParents templates)))) > maximumFanoutGroupsPerProcess)
              ''SGOS_FANOUT_LIMIT'',
            refuseIf (\<not> positiveCeiling attempts) ''SGOS_RETRY_CEILING_REQUIRED'',
            eachOf (templateCeiling (numberOf attempts)) templates]))"

section \<open>Edges\<close>

text \<open>
  A \<open>condition\<close> is refused before an edge is built, so an edge is its two ends. The \<open>Map\<close> keyed by
  the ends keeps one edge per pair: the ends are task IDs by then, and none holds a \<open>NUL\<close>.
\<close>

definition normalizeEdge :: "jsval \<Rightarrow> (string \<times> string) result" where
  "normalizeEdge raw =
     (if isArray raw \<and> 2 \<le> length (elements raw)
      then if 2 < length (elements raw) \<and> \<not> nullish (elements raw ! 2) then fail ''SGOS_CONDITIONAL_EDGE_UNSUPPORTED''
           else Inr (jsString (elements raw ! 0), jsString (elements raw ! 1))
      else if \<not> plainObject raw then fail ''SGOS_EDGE_INVALID''
      else if \<not> nullish (getp raw ''condition'') then fail ''SGOS_CONDITIONAL_EDGE_UNSUPPORTED''
      else
        let source = coalesceAll [getp raw ''from'', getp raw ''predecessor'', getp raw ''source'', getp raw ''sourceTaskId''];
            target = coalesceAll [getp raw ''to'', getp raw ''successor'', getp raw ''target'', getp raw ''targetTaskId'']
        in if \<not> truthy source \<or> \<not> truthy target then fail ''SGOS_EDGE_INVALID''
           else Inr (jsString source, jsString target))"

definition indexed :: "jsval \<Rightarrow> jsval list" where
  "indexed v = (case v of JArr xs \<Rightarrow> xs | JStr s \<Rightarrow> map (\<lambda>c. JStr [c]) s | _ \<Rightarrow> [])"

definition sequenceMembers :: "jsval \<Rightarrow> jsval list" where
  "sequenceMembers g =
     indexed (if isArray g then g else coalesceAll [getp g ''tasks'', getp g ''steps'', JArr []])"

definition sequenceEdges :: "jsval \<Rightarrow> edge_list" where
  "sequenceEdges workflow =
     (let spec = getp workflow ''spec'';
          sequences = coalesceAll [getp spec ''sequences'', getp spec ''sequence'', JArr []];
          groups = (if isArray sequences \<and> list_all isString (elements sequences) then [sequences] else elements sequences)
      in concat (map (\<lambda>g. map (\<lambda>(a, b). (jsString a, jsString b)) (adjacentPairs (sequenceMembers g))) groups))"

definition dependencyEdges :: "compiled_template list \<Rightarrow> edge_list" where
  "dependencyEdges templates =
     concat (map (\<lambda>t. map (\<lambda>predecessor. (predecessor, compiledId t)) (compiledDependsOn t)) templates)"

definition edgeCheck :: "string list \<Rightarrow> string \<times> string \<Rightarrow> unit result" where
  "edgeCheck ids e = checks
     [refuseIf (\<not> knownEdge ids e) ''SGOS_EDGE_TASK_UNKNOWN'', refuseIf (fst e = snd e) ''SGOS_GRAPH_CYCLE'']"

definition edgeOrder :: "string \<times> string \<Rightarrow> string \<times> string \<Rightarrow> int" where
  "edgeOrder = thenBy (byKey fst) (byKey snd)"

definition buildEdges :: "jsval \<Rightarrow> compiled_template list \<Rightarrow> edge_list result" where
  "buildEdges workflow templates =
     andThen (spreadArray (coalesceAll [getp (getp workflow ''spec'') ''edges'', getp workflow ''edges'', JArr []])) (\<lambda>raws.
     andThen (mapResult normalizeEdge raws) (\<lambda>declared.
       let edges = dependencyEdges templates @ declared @ sequenceEdges workflow in
       andThen (eachOf (edgeCheck (map compiledId templates)) edges) (\<lambda>_. Inr (sortBy edgeOrder (dedupe edges)))))"

section \<open>Joins\<close>

definition typeofObject :: "jsval \<Rightarrow> bool" where
  "typeofObject v \<longleftrightarrow> v = JNull \<or> isArray v \<or> plainObject v"

text \<open>
  A field of the join under one of two names: in the workflow's contract, else in the template's
  \<open>joinPolicy\<close> where that is of type \<open>object\<close>; the property of a \<open>null\<close> policy raises.
\<close>

definition joinField :: "jsval \<Rightarrow> jsval \<Rightarrow> string \<Rightarrow> string \<Rightarrow> jsval result" where
  "joinField supplied policy name alias =
     (let own = coalesce (getp supplied name) (getp supplied alias) in
      if \<not> nullish own then Inr own
      else if \<not> typeofObject policy then Inr JNull
      else andThen (propOf policy name) (\<lambda>v. Inr (coalesce v (getp policy alias))))"

definition joinDeclaration :: "fields \<Rightarrow> compiled_template \<Rightarrow> jsval result" where
  "joinDeclaration configured t =
     (let supplied = (case map_of configured (compiledId t) of Some v \<Rightarrow> coalesce v (JObj []) | None \<Rightarrow> JObj []);
          metadataPolicy = metadataField t ''joinPolicy'';
          policy = coalesceAll [getp supplied ''policy'', getp supplied ''mode'',
            if isString metadataPolicy then metadataPolicy else getp metadataPolicy ''policy'',
            if typeofObject metadataPolicy then getp metadataPolicy ''mode'' else JNull]
      in if \<not> plainObject supplied then fail ''SGOS_JOIN_INVALID''
         else andThen (joinField supplied metadataPolicy ''requiredSuccesses'' ''threshold'') (\<lambda>successes.
              andThen (joinField supplied metadataPolicy ''reducerId'' ''reducer'') (\<lambda>reducer.
                Inr (JObj
                  ([(''joinId'', JStr (jsString (coalesce (getp supplied ''joinId'') (JStr (compiledId t))))),
                    (''taskTemplateId'', JStr (compiledId t)), (''policy'', policy)]
                   @ optField (\<not> nullish successes) ''requiredSuccesses'' successes
                   @ optField (\<not> nullish reducer) ''reducerId'' reducer
                   @ [(''predecessorTaskTemplateIds'', JArr (map JStr (compiledDependsOn t)))])))))"

definition joinsForProgram :: "jsval \<Rightarrow> compiled_template list \<Rightarrow> join_contract list result" where
  "joinsForProgram workflow templates =
     (let configured = entries (coalesce (getp (getp workflow ''spec'') ''joins'') (JObj []));
          joining = filter (\<lambda>t. compiledOpcode t = JOIN) templates in
      andThen (mapResult (joinDeclaration configured) joining) (\<lambda>joins.
        if list_ex (\<lambda>f. fst f \<notin> set (map compiledId joining)) configured then fail ''SGOS_JOIN_TASK_UNKNOWN''
        else rewrap ''SGOS_JOIN_INVALID'' (canonicalSgosJoins (JArr joins))))"

section \<open>Terminals\<close>

definition endTasks :: "compiled_template list \<Rightarrow> string list" where
  "endTasks templates = sortPoints (map compiledId (filter (\<lambda>t. compiledOpcode t = END) templates))"

definition assertTerminalReachability :: "compiled_template list \<Rightarrow> task_graph \<Rightarrow> string list result" where
  "assertTerminalReachability templates graph =
     (let ends = endTasks templates; canReachEnd = reachableFrom ends (graphReverse graph) in
      if ends = [] then fail ''SGOS_TERMINAL_UNREACHABLE''
      else if list_ex (\<lambda>e. lookupList (graphForward graph) e \<noteq> []) ends then fail ''SGOS_TERMINAL_UNREACHABLE''
      else if list_ex (\<lambda>t. compiledOpcode t \<noteq> END \<and> compiledId t \<notin> set canReachEnd) templates
      then fail ''SGOS_TERMINAL_UNREACHABLE''
      else Inr ends)"

section \<open>Gates behind proposals\<close>

definition verificationOperationId :: "compiled_template \<Rightarrow> string option" where
  "verificationOperationId t =
     (let verification = metadataField t ''verification''; operation = getp verification ''operation'' in
      if isString verification then Some (stringOf verification)
      else if isString operation then Some (stringOf operation)
      else if isString (getp operation ''id'') then Some (stringOf (getp operation ''id''))
      else if nullish (getp verification ''operationId'') then None
      else Some (jsString (getp verification ''operationId'')))"

definition independentGate :: "compiled_template \<Rightarrow> compiled_template \<Rightarrow> bool" where
  "independentGate proposal gate \<longleftrightarrow>
     compiledMaterial gate \<and>
     (case (compiledOperation gate, verificationOperationId gate) of
        (Some operation, Some verifier) \<Rightarrow> operation \<noteq> [] \<and> verifier \<noteq> [] \<and>
          Some operation \<noteq> compiledOperation proposal \<and> Some verifier \<noteq> compiledOperation proposal \<and>
          verifier \<noteq> operation
      | _ \<Rightarrow> False)"

definition proposalTask :: "compiled_template \<Rightarrow> bool" where
  "proposalTask t \<longleftrightarrow> compiledOpcode t = AGENT \<and> metadataField t ''executionUnitId'' = JStr ''copilot-cli''"

definition unscoped :: "compiled_resources \<Rightarrow> bool" where
  "unscoped r \<longleftrightarrow> resourceReads r = [] \<and> resourceWrites r = [] \<and> resourceDevices r = [] \<and> resourceEffects r = []"

definition gateCheck :: "compiled_template list \<Rightarrow> task_graph \<Rightarrow> compiled_template \<Rightarrow> unit result" where
  "gateCheck templates graph proposal =
     (let gates = map (\<lambda>i. find (\<lambda>t. compiledId t = i) templates) (lookupList (graphForward graph) (compiledId proposal))
      in checks
       [refuseIf (\<not> unscoped (compiledResources proposal)) ''SGOS_COPILOT_PROPOSAL_SCOPE_UNSUPPORTED'',
        refuseIf (gates = [] \<or> list_ex (\<lambda>g. map_option compiledOpcode g \<noteq> Some VERIFY) gates)
          ''SGOS_COPILOT_PROPOSAL_VERIFY_REQUIRED'',
        eachOf (\<lambda>g. refuseIf (\<not> (case g of None \<Rightarrow> False | Some gate \<Rightarrow> independentGate proposal gate))
          ''SGOS_COPILOT_PROPOSAL_VERIFY_REQUIRED'') gates])"

definition assertCopilotProposalGates :: "compiled_template list \<Rightarrow> task_graph \<Rightarrow> unit result" where
  "assertCopilotProposalGates templates graph = eachOf (gateCheck templates graph) (filter proposalTask templates)"

section \<open>Parallel safety\<close>

definition normalizedResourcePrefix :: "jsval \<Rightarrow> string" where
  "normalizedResourcePrefix value = stripSlash (stripWildcard (backslashToSlash (resourceKey value)))"

definition resourceOverlap :: "jsval \<Rightarrow> jsval \<Rightarrow> bool" where
  "resourceOverlap left right =
     (let a = normalizedResourcePrefix left; b = normalizedResourcePrefix right in
      if a = [] \<or> b = [] then False
      else a = ''*'' \<or> b = ''*'' \<or> a = b \<or> startsWith a (b @ ''/'') \<or> startsWith b (a @ ''/''))"

record resource_conflict =
  conflictType :: string
  conflictLeft :: string
  conflictRight :: string

definition conflictValue :: "resource_conflict \<Rightarrow> jsval" where
  "conflictValue c = JObj [(''type'', JStr (conflictType c)), (''left'', JStr (conflictLeft c)),
     (''right'', JStr (conflictRight c))]"

definition overlapping :: "string \<Rightarrow> string list \<Rightarrow> string list \<Rightarrow> resource_conflict list" where
  "overlapping kind leftValues rightValues =
     map (\<lambda>(a, b). \<lparr>conflictType = kind, conflictLeft = resourceKey (JStr a), conflictRight = resourceKey (JStr b)\<rparr>)
       (filter (\<lambda>(a, b). resourceOverlap (JStr a) (JStr b)) (List.product leftValues rightValues))"

definition conflictKeys :: "compiled_resources \<Rightarrow> compiled_resources \<Rightarrow> resource_conflict list" where
  "conflictKeys l r = sortBy (\<lambda>c d. canonicalCompare (conflictValue c) (conflictValue d))
     (overlapping ''write/write'' (resourceWrites l) (resourceWrites r)
      @ overlapping ''write/read'' (resourceWrites l) (resourceReads r)
      @ overlapping ''read/write'' (resourceReads l) (resourceWrites r)
      @ overlapping ''device/device'' (resourceDevices l) (resourceDevices r)
      @ overlapping ''effect/effect'' (resourceEffects l) (resourceEffects r))"

text \<open>\<open>a === b\<close> on values that are not the same object.\<close>

definition strictEqual :: "jsval \<Rightarrow> jsval \<Rightarrow> bool" where
  "strictEqual a b \<longleftrightarrow> isPrimitive a \<and> a = b"

definition declaredSafeConcurrency :: "jsval \<Rightarrow> jsval \<Rightarrow> resource_conflict list \<Rightarrow> bool result" where
  "declaredSafeConcurrency left right conflicts =
     (let leftResources = coalesce (getp left ''resources'') (JObj []);
          rightResources = coalesce (getp right ''resources'') (JObj []);
          isolation = (\<lambda>r t. coalesceAll [getp r ''isolationKey'', getp t ''isolationKey'', getp t ''workspaceIsolation'']);
          commutativity = (\<lambda>r t. coalesce (getp r ''commutativityKey'') (getp t ''commutativityKey''));
          reducer = (\<lambda>r t. coalesce (getp r ''reducer'') (getp t ''deterministicReducer''));
          leases = (\<lambda>r t. normalizeResourceList (coalesceAll [getp r ''leases'', getp t ''leaseKeys'', JArr []]))
      in if truthy (isolation leftResources left) \<and> truthy (isolation rightResources right)
            \<and> \<not> strictEqual (isolation leftResources left) (isolation rightResources right) then Inr True
         else if (getp leftResources ''commutative'' = JBool True \<and> getp rightResources ''commutative'' = JBool True)
            \<or> (truthy (commutativity leftResources left)
               \<and> strictEqual (commutativity leftResources left) (commutativity rightResources right)) then Inr True
         else if truthy (reducer leftResources left)
            \<and> strictEqual (reducer leftResources left) (reducer rightResources right) then Inr True
         else andThen (leases leftResources left) (\<lambda>ls. andThen (leases rightResources right) (\<lambda>rs.
           Inr (list_all (\<lambda>c. list_ex (\<lambda>v. resourceOverlap (JStr v) (JStr (conflictLeft c))) ls
             \<and> list_ex (\<lambda>v. resourceOverlap (JStr v) (JStr (conflictRight c))) rs) conflicts))))"

fun laterPairs :: "'a list \<Rightarrow> ('a \<times> 'a) list" where
  "laterPairs [] = []"
| "laterPairs (x # xs) = map (Pair x) xs @ laterPairs xs"

definition pairCheck :: "task_graph \<Rightarrow> compiled_template \<times> compiled_template \<Rightarrow> unit result" where
  "pairCheck graph lr = (case lr of (left, right) \<Rightarrow>
     if pathExists (compiledId left) (compiledId right) (graphForward graph)
        \<or> pathExists (compiledId right) (compiledId left) (graphForward graph) then Inr ()
     else
       let conflicts = conflictKeys (compiledResources left) (compiledResources right) in
       if conflicts = [] then Inr ()
       else andThen (declaredSafeConcurrency (templateValue left) (templateValue right) conflicts) (\<lambda>declared.
         refuseIf (\<not> declared) ''SGOS_PARALLEL_WRITE_CONFLICT''))"

definition assertParallelSafety :: "compiled_template list \<Rightarrow> task_graph \<Rightarrow> unit result" where
  "assertParallelSafety templates graph = eachOf (pairCheck graph) (laterPairs templates)"

section \<open>Edges and terminals\<close>

interpretation edges: strict_comparator edgeOrder
proof -
  have c: "sort_comparator edgeOrder"
    unfolding edgeOrder_def by (rule keyed2.sort_comparator_axioms)
  moreover have "strict_comparator_axioms edgeOrder"
    by unfold_locales (auto simp: edgeOrder_def thenBy_def byKey_def compare_simps split: if_splits)
  ultimately show "strict_comparator edgeOrder" by (rule strict_comparator.intro)
qed

lemma edgeOrder_less: "edgeOrder e f < 0 \<longleftrightarrow> fst e < fst f \<or> (fst e = fst f \<and> snd e < snd f)"
  by (auto simp: edgeOrder_def thenBy_def byKey_def compare_simps)

lemma edgeOrder_pos: "0 < edgeOrder f e \<longleftrightarrow> edgeOrder e f < 0"
  unfolding edgeOrder_less by (auto simp: edgeOrder_def thenBy_def byKey_def compare_simps not_le [symmetric])

lemma buildEdges_Inr:
  assumes "buildEdges workflow templates = Inr edges"
  shows "sorted_wrt (\<lambda>e f. edgeOrder e f < 0) edges" "list_all (knownEdge (map compiledId templates)) edges"
    "list_all (\<lambda>e. fst e \<noteq> snd e) edges" "set (dependencyEdges templates) \<subseteq> set edges"
proof -
  from assms obtain declared where checked:
      "eachOf (edgeCheck (map compiledId templates)) (dependencyEdges templates @ declared @ sequenceEdges workflow) = Inr ()"
      and edges: "edges = sortBy edgeOrder (dedupe (dependencyEdges templates @ declared @ sequenceEdges workflow))"
    by (auto simp: buildEdges_def andThen_Inr Let_def)
  show "sorted_wrt (\<lambda>e f. edgeOrder e f < 0) edges"
    unfolding edges using edges.strictly_sorted [OF distinct_sortBy [THEN iffD2, OF distinct_dedupe]]
    by (simp add: edges.sorted_sortBy not_le edgeOrder_pos)
  show "list_all (knownEdge (map compiledId templates)) edges" "list_all (\<lambda>e. fst e \<noteq> snd e) edges"
    using checked unfolding edges by (auto simp: list_all_iff eachOf_Inr edgeCheck_def andThen_Inr)
  show "set (dependencyEdges templates) \<subseteq> set edges" unfolding edges by auto
qed

lemma terminals_Inr:
  assumes "assertTerminalReachability templates g = Inr ends" "graphFacts (map compiledId templates) edges = Inr g"
  shows "ends = endTasks templates" "ends \<noteq> []" "\<forall>e \<in> set ends. \<forall>b. (e, b) \<notin> set edges"
    "\<forall>t \<in> set templates. \<exists>e \<in> set ends. (compiledId t, e) \<in> (set edges)\<^sup>*"
proof -
  note g = graphFacts_maps [OF assms(2)]
  have parts: "ends = endTasks templates" "ends \<noteq> []" "\<forall>e \<in> set ends. lookupList (graphForward g) e = []"
      "\<forall>t \<in> set templates. compiledOpcode t = END \<or> compiledId t \<in> set (reachableFrom ends (graphReverse g))"
    using assms(1) by (auto simp: assertTerminalReachability_def Let_def list_ex_iff split: if_splits)
  show "ends = endTasks templates" "ends \<noteq> []" using parts by auto
  show "\<forall>e \<in> set ends. \<forall>b. (e, b) \<notin> set edges"
  proof (intro ballI allI notI)
    fix e b assume "e \<in> set ends" "(e, b) \<in> set edges"
    then have "b \<in> set (lookupList (graphForward g) e)" using g(5) by (auto simp: adjacencyRel_def)
    with parts(3) \<open>e \<in> set ends\<close> show False by simp
  qed
  show "\<forall>t \<in> set templates. \<exists>e \<in> set ends. (compiledId t, e) \<in> (set edges)\<^sup>*"
  proof
    fix t assume t: "t \<in> set templates"
    show "\<exists>e \<in> set ends. (compiledId t, e) \<in> (set edges)\<^sup>*"
    proof (cases "compiledOpcode t = END")
      case True
      then have "compiledId t \<in> set ends" using t parts(1) by (auto simp: endTasks_def)
      then show ?thesis by blast
    next
      case False
      with parts(4) t have "compiledId t \<in> set (reachableFrom ends (graphReverse g))" by blast
      then obtain e where "e \<in> set ends" "(e, compiledId t) \<in> ((set edges)\<inverse>)\<^sup>*"
        unfolding reachableFrom_set g(6) by blast
      then show ?thesis by (auto simp: rtrancl_converse)
    qed
  qed
qed

section \<open>Conflicts\<close>

text \<open>
  A compiled template has none of the fields \<open>declaredSafeConcurrency\<close> reads: its resources are the
  four lists, and nothing else is copied from the task.
\<close>

lemma declaredSafeConcurrency_compiled:
  "declaredSafeConcurrency (templateValue l) (templateValue r) conflicts = Inr (conflicts = [])"
proof -
  have own: "getp (templateValue t) ''isolationKey'' = JUndef" "getp (templateValue t) ''workspaceIsolation'' = JUndef"
      "getp (templateValue t) ''commutativityKey'' = JUndef" "getp (templateValue t) ''deterministicReducer'' = JUndef"
      "getp (templateValue t) ''leaseKeys'' = JUndef" for t
    by (simp_all add: templateValue_def split: option.split)
  have resources: "getp (resourcesValue q) ''isolationKey'' = JUndef" "getp (resourcesValue q) ''commutative'' = JUndef"
      "getp (resourcesValue q) ''commutativityKey'' = JUndef" "getp (resourcesValue q) ''reducer'' = JUndef"
      "getp (resourcesValue q) ''leases'' = JUndef" for q
    by (simp_all add: resourcesValue_def)
  have obj: "coalesce (resourcesValue q) v = resourcesValue q" for q v by (simp add: resourcesValue_def)
  show ?thesis
    unfolding declaredSafeConcurrency_def Let_def templateValue_fields(7) obj own resources
    by (cases conflicts) (simp_all add: normalizeResourceList_def flattened_def sortPoints_sort)
qed

lemma laterPairs_nth: "i < j \<Longrightarrow> j < length xs \<Longrightarrow> (xs ! i, xs ! j) \<in> set (laterPairs xs)"
proof (induction xs arbitrary: i j)
  case (Cons x xs)
  then show ?case by (cases i; cases j) auto
qed simp

lemma pairCheck_Inr:
  "pairCheck g (l, r) = Inr () \<longleftrightarrow>
     (compiledId l, compiledId r) \<in> (adjacencyRel (graphForward g))\<^sup>* \<or>
     (compiledId r, compiledId l) \<in> (adjacencyRel (graphForward g))\<^sup>* \<or>
     conflictKeys (compiledResources l) (compiledResources r) = []"
  by (auto simp: pairCheck_def pathExists_iff Let_def declaredSafeConcurrency_compiled)

lemma normalizedResourcePrefix_text: "normalizedResourcePrefix (JStr s) = normalizedText s"
  by (simp add: normalizedResourcePrefix_def resourceKey_def normalizedText_def)

lemma overlapping_Nil:
  "overlapping kind xs ys = [] \<longleftrightarrow> (\<forall>a \<in> set xs. \<forall>b \<in> set ys. \<not> resourceOverlap (JStr a) (JStr b))"
  by (auto simp: overlapping_def filter_empty_conv)

definition resourceField :: "compiled_resources \<Rightarrow> resource_mode \<Rightarrow> string list" where
  "resourceField r m = (case m of ReadMode \<Rightarrow> resourceReads r | WriteMode \<Rightarrow> resourceWrites r
     | DeviceMode \<Rightarrow> resourceDevices r | ExternalEffectMode \<Rightarrow> resourceEffects r)"

definition conflictingModes :: "(resource_mode \<times> resource_mode) set" where
  "conflictingModes = {(WriteMode, WriteMode), (WriteMode, ReadMode), (ReadMode, WriteMode), (DeviceMode, DeviceMode),
     (ExternalEffectMode, ExternalEffectMode)}"

lemma modesConflict_pairs: "{(m, n). modesConflict m n} = conflictingModes"
proof -
  have "modesConflict m n \<longleftrightarrow> (m, n) \<in> conflictingModes" for m n
    by (cases m; cases n) (simp_all add: modesConflict_def conflictingModes_def)
  then show ?thesis by auto
qed

lemma conflictKeys_Nil:
  "conflictKeys l r = [] \<longleftrightarrow>
     (\<forall>m n. modesConflict m n \<longrightarrow>
        (\<forall>a \<in> set (resourceField l m). \<forall>b \<in> set (resourceField r n). \<not> resourceOverlap (JStr a) (JStr b)))"
proof -
  have "conflictKeys l r = [] \<longleftrightarrow>
      overlapping ''write/write'' (resourceWrites l) (resourceWrites r) = [] \<and>
      overlapping ''write/read'' (resourceWrites l) (resourceReads r) = [] \<and>
      overlapping ''read/write'' (resourceReads l) (resourceWrites r) = [] \<and>
      overlapping ''device/device'' (resourceDevices l) (resourceDevices r) = [] \<and>
      overlapping ''effect/effect'' (resourceEffects l) (resourceEffects r) = []"
    by (simp only: conflictKeys_def sortBy_Nil_iff append_is_Nil_conv)
  also have "\<dots> \<longleftrightarrow> (\<forall>(m, n) \<in> conflictingModes.
      \<forall>a \<in> set (resourceField l m). \<forall>b \<in> set (resourceField r n). \<not> resourceOverlap (JStr a) (JStr b))"
    unfolding overlapping_Nil conflictingModes_def resourceField_def by simp
  finally show ?thesis unfolding modesConflict_pairs [symmetric] by auto
qed

lemma resourcesValue_field:
  "(f, m) \<in> set fieldModes \<Longrightarrow> getp (resourcesValue r) f = JArr (map JStr (resourceField r m))"
  by (cases m) (auto simp: fieldModes_def resourcesValue_def resourceField_def)

text \<open>An entry of a compiled lease is a declared resource, normalized.\<close>

lemma compiled_entry:
  assumes "canonicalSgosResourceEntries (resourcesValue r) = Inr es" "e \<in> set es"
  shows "\<exists>a \<in> set (resourceField r (entryMode e)). entryKey e = normalizedText a \<and> entryKey e \<noteq> []"
proof -
  obtain f v where f: "(f, entryMode e) \<in> set fieldModes"
      and v: "v \<in> set (elements (coalesce (getp (resourcesValue r) f) (JArr [])))" "normalizeSgosResourceKey v = Inr (entryKey e)"
    using assms canonicalEntry_iff [OF assms(1)] by blast
  have "coalesce (getp (resourcesValue r) f) (JArr []) = JArr (map JStr (resourceField r (entryMode e)))"
    using resourcesValue_field [OF f] by simp
  with v show ?thesis by (auto simp: normalizeSgosResourceKey_Inr)
qed

lemma clear_entries:
  assumes "canonicalSgosResourceEntries (resourcesValue l) = Inr es" "canonicalSgosResourceEntries (resourcesValue r) = Inr fs"
    and fixed: "list_all (\<lambda>e. normalizeSgosResourceKey (JStr (entryKey e)) = Inr (entryKey e)) (es @ fs)"
    and "conflictKeys l r = []"
  shows "sgosResourceEntriesConflict es fs = Inr False"
  unfolding conflict_False
proof (intro ballI)
  fix e f assume e: "e \<in> set es" and f: "f \<in> set fs"
  obtain a where a: "a \<in> set (resourceField l (entryMode e))" "entryKey e = normalizedText a" "entryKey e \<noteq> []"
    using compiled_entry [OF assms(1) e] by blast
  obtain b where b: "b \<in> set (resourceField r (entryMode f))" "entryKey f = normalizedText b" "entryKey f \<noteq> []"
    using compiled_entry [OF assms(2) f] by blast
  have norm: "normalizeSgosResourceKey (JStr (entryKey e)) = Inr (entryKey e)"
      "normalizeSgosResourceKey (JStr (entryKey f)) = Inr (entryKey f)"
    using fixed e f by (auto simp: list_all_iff)
  show "entriesClash e f = Inr False"
  proof (cases "modesConflict (entryMode e) (entryMode f)")
    case True
    then have "\<not> resourceOverlap (JStr a) (JStr b)" using assms(4) a(1) b(1) unfolding conflictKeys_Nil by blast
    then have "\<not> (entryKey e = ''*'' \<or> entryKey f = ''*'' \<or> entryKey e = entryKey f \<or>
        startsWith (entryKey e) (entryKey f @ ''/'') \<or> startsWith (entryKey f) (entryKey e @ ''/''))"
      using a(2,3) b(2,3) by (simp add: resourceOverlap_def normalizedResourcePrefix_text Let_def)
    then show ?thesis unfolding entriesClash_def sgosResourceKeysOverlap_def norm using True by simp
  qed (simp add: entriesClash_def)
qed

section \<open>Properties of the whole-graph checks\<close>


definition sideTask :: "string \<Rightarrow> string \<Rightarrow> compiled_template" where
  "sideTask i resource = sampleTemplate\<lparr>compiledId := i,
     compiledResources := \<lparr>resourceReads = [''shared/*''], resourceWrites = [resource], resourceDevices = [], resourceEffects = []\<rparr>\<rparr>"


text \<open>
  A task cannot declare its concurrency safe: the resource contract of a workflow task admits the four
  resource lists only and the template copies nothing else, so every conflict is refused.
\<close>

lemma declared_concurrency_unreachable:
  "pairCheck g (l, r) = fail ''SGOS_PARALLEL_WRITE_CONFLICT'' \<longleftrightarrow>
     \<not> pathExists (compiledId l) (compiledId r) (graphForward g) \<and>
     \<not> pathExists (compiledId r) (compiledId l) (graphForward g) \<and>
     conflictKeys (compiledResources l) (compiledResources r) \<noteq> []"
  by (simp add: pairCheck_def Let_def declaredSafeConcurrency_compiled refuseIf_def)

section \<open>Properties of the ceilings\<close>

definition dynamicBodies :: "compiled_template list \<Rightarrow> compiled_template list" where
  "dynamicBodies templates = filter (\<lambda>t. truthy (dynamicBodyOf t)) templates"

definition bodyMaximum :: "compiled_template \<Rightarrow> int" where
  "bodyMaximum t = numberOf (getp (dynamicBodyOf t) ''maximumItems'')"

lemma sum_numbers: "foldl addNumbers (Finite (of_int a)) (map (\<lambda>n. Finite (of_int n)) ns) = Finite (of_int (a + sum_list ns))"
  by (induction ns arbitrary: a) (auto simp flip: of_int_add simp: add.assoc)

lemma materializedTotal_numbers:
  assumes "list_all (\<lambda>t. isInteger (getp (dynamicBodyOf t) ''maximumItems'')) (dynamicBodies templates)"
  shows "materializedTotal templates =
    Finite (of_int (int (length templates) - int (length (dynamicBodies templates))
      + sum_list (map bodyMaximum (dynamicBodies templates))))"
proof -
  have "numericValue (jsNumber (getp (dynamicBodyOf t) ''maximumItems'')) = Finite (of_int (bodyMaximum t))"
    if "t \<in> set (dynamicBodies templates)" for t
    using assms that by (cases "getp (dynamicBodyOf t) ''maximumItems''") (auto simp: list_all_iff numericValue_def bodyMaximum_def)
  then have "map (\<lambda>t. numericValue (jsNumber (getp (dynamicBodyOf t) ''maximumItems''))) (dynamicBodies templates)
      = map (\<lambda>n. Finite (of_int n)) (map bodyMaximum (dynamicBodies templates))"
    by simp
  moreover have "Finite 0 = Finite (of_int 0)" by simp
  ultimately show ?thesis
    unfolding materializedTotal_def Let_def dynamicBodies_def [symmetric] by (simp only: sum_numbers addNumbers.simps of_int_add) simp
qed

lemma ceilings_Inr:
  assumes "assertCompileCeilings workflow templates = Inr ()"
  shows "\<not> exceeds (materializedTotal templates)
      (numberOf (jsNumber (getp (coalesce (getp (getp workflow ''spec'') ''budgets'') (JObj [])) ''maximumTasks'')))"
    "\<not> exceeds (materializedTotal templates) maximumTasks"
    "t \<in> set templates \<Longrightarrow> \<exists>es. canonicalSgosResourceEntries (resourcesValue (compiledResources t)) = Inr es"
  using assms unfolding assertCompileCeilings_def Let_def if_fail_Inr andThen_Inr checks_Inr
  by (auto simp: eachOf_Inr templateCeiling_def Let_def andThen_Inr rewrap_Inr)


definition bodyTask :: compiled_template where
  "bodyTask = sampleTemplate\<lparr>compiledId := ''each:dynamic-body'', compiledMetadata :=
     [(''dynamicFanoutBody'', JObj [(''sourceTaskTemplateId'', JStr ''build''), (''outputName'', JStr ''files''),
        (''itemKeySelector'', JStr ''$''), (''maximumItems'', JNum 3)])]\<rparr>"

definition budgetedWorkflow :: jsval where
  "budgetedWorkflow = JObj [(''spec'', JObj [(''budgets'', JObj
     [(''maximumTasks'', JNum 5), (''maximumAttempts'', JNum 2)])])]"

lemma budgeted:
  "assertCompileCeilings budgetedWorkflow [sampleTemplate, bodyTask] = Inr ()"
  "getp (getp (getp budgetedWorkflow ''spec'') ''budgets'') ''maximumTasks'' = JNum 5"
  "list_all (\<lambda>t. isInteger (getp (dynamicBodyOf t) ''maximumItems'')) (dynamicBodies [sampleTemplate, bodyTask])"
  "sum_list (map bodyMaximum (dynamicBodies [sampleTemplate, bodyTask])) = 3"
  "length (dynamicBodies [sampleTemplate, bodyTask]) = 1"
  by code_simp+


text \<open>
  The metadata of a task is the author's, so a task may carry a \<open>dynamicFanoutBody\<close> the expansion did
  not create. If its \<open>maximumItems\<close> is no number the total is \<open>NaN\<close>, no ceiling is exceeded, and
  neither the workflow's \<open>maximumTasks\<close> nor the installed one is enforced.
\<close>

lemma addNumbers_NaN: "foldl addNumbers NotANumber ns = NotANumber"
  by (induction ns) auto

lemma addNumbers_NaN_in: "NotANumber \<in> set ns \<Longrightarrow> foldl addNumbers a ns = NotANumber"
proof (induction ns arbitrary: a)
  case (Cons m ns)
  then show ?case by (cases "m = NotANumber"; cases a) (auto simp: addNumbers_NaN)
qed simp

lemma forged_body_lifts_ceiling:
  assumes "t \<in> set templates" "truthy (dynamicBodyOf t)"
    and "numericValue (jsNumber (getp (dynamicBodyOf t) ''maximumItems'')) = NotANumber"
  shows "\<not> exceeds (materializedTotal templates) n"
proof -
  have "NotANumber \<in> set (map (\<lambda>t. numericValue (jsNumber (getp (dynamicBodyOf t) ''maximumItems''))) (dynamicBodies templates))"
    using assms by (force simp: dynamicBodies_def)
  then have "materializedTotal templates = NotANumber"
    by (simp add: materializedTotal_def dynamicBodies_def Let_def addNumbers_NaN_in)
  then show ?thesis by simp
qed

end
