(* ===== verification/SgosSimulation.thy ===== *)
theory SgosSimulation
  imports SgosCompilerGraph
begin

text \<open>
  \<open>src/sgos/simulation.mjs\<close>: the read-only simulation of a Program, the structural impact of removing
  Devices, and fault plans.

  The simulation works on the Program record itself. A template is known by its
  \<open>taskTemplateId\<close>, which every compiled template has; for a template that only has the alternative
  \<open>id\<close> of the contract the key would be \<open>undefined\<close>, which the model prints.
\<close>

section \<open>Vocabulary\<close>

definition simulationAssurance :: "string list" where
  "simulationAssurance = [''deterministically-proven'', ''historically-estimated'', ''model-advised'', ''unknown'']"

definition faultFailures :: "string list" where
  "faultFailures = [''interrupted'', ''malformed-result'', ''permission-denied'', ''timeout'', ''unavailable'',
     ''verification-failed'']"

definition provenClass :: "string \<times> jsval" where
  "provenClass = (''assurance'', JStr ''deterministically-proven'')"

definition unknownClass :: "string \<times> jsval" where
  "unknownClass = (''assurance'', JStr ''unknown'')"

definition deviceName :: "string \<Rightarrow> bool" where
  "deviceName s \<longleftrightarrow> kebab s \<and> length s \<le> 64"

definition inputInvalid :: string where
  "inputInvalid = ''SGOS_SIMULATION_INPUT_INVALID''"

definition optionKeys :: "jsval \<Rightarrow> string list \<Rightarrow> unit result" where
  "optionKeys value allowed = checks
     [refuseIf (\<not> plainObject value) inputInvalid,
      refuseIf (\<not> list_all (\<lambda>f. fst f \<in> set allowed) (fieldsOf value)) inputInvalid]"

definition uniqueSorted :: "string list \<Rightarrow> string list" where
  "uniqueSorted values = sortPoints (dedupe values)"

definition textsValue :: "string list \<Rightarrow> jsval" where
  "textsValue ids = JArr (map JStr ids)"

text \<open>\<open>Buffer.byteLength(text, 'utf8')\<close>, for the code points below 256 the model has.\<close>

definition utf8Length :: "string \<Rightarrow> int" where
  "utf8Length s = int (length s) + int (length (filter (\<lambda>c. 128 \<le> codePoint c) s))"

fun countOnto :: "num \<Rightarrow> string \<Rightarrow> num" where
  "countOnto k [] = k"
| "countOnto k (c # cs) = countOnto (if 128 \<le> codePoint c then Num.inc (Num.inc k) else Num.inc k) cs"

lemma high_bit: "128 \<le> codePoint (Char a b c d e f g h) \<longleftrightarrow> h"
  by (cases a; cases b; cases c; cases d; cases e; cases f; cases g; cases h; simp add: codePoint_def)

lemma countOnto_code [code]:
  "countOnto k [] = k"
  "countOnto k (Char a b c d e f g False # cs) = countOnto (Num.inc k) cs"
  "countOnto k (Char a b c d e f g True # cs) = countOnto (Num.inc (Num.inc k)) cs"
  by (simp_all add: high_bit)

lemma countOnto_length: "(numeral (countOnto k s) :: int) = numeral k + utf8Length s"
proof (induction s arbitrary: k)
  case (Cons c cs)
  have step: "(numeral (Num.inc (Num.inc k)) :: int) = numeral k + 2" "(numeral (Num.inc k) :: int) = numeral k + 1"
    using numeral_inc [of "Num.inc k", where 'a = int] numeral_inc [of k, where 'a = int] by linarith+
  show ?case
  proof (cases "128 \<le> codePoint c")
    case True
    then have "countOnto k (c # cs) = countOnto (Num.inc (Num.inc k)) cs" by simp
    then show ?thesis using True by (simp only: Cons.IH step) (simp add: utf8Length_def)
  next
    case False
    then have "countOnto k (c # cs) = countOnto (Num.inc k) cs" by simp
    then show ?thesis using False by (simp only: Cons.IH step) (simp add: utf8Length_def)
  qed
qed (simp add: utf8Length_def)

lemma utf8Length_code [code]: "utf8Length s = numeral (countOnto num.One s) - 1"
  by (simp add: countOnto_length)

section \<open>The Program\<close>

definition programInput :: "jsval \<Rightarrow> jsval" where
  "programInput value = (if plainObject (getp value ''program'') then getp value ''program'' else value)"

definition templatesOf :: "jsval \<Rightarrow> jsval list" where
  "templatesOf program = elements (getp program ''taskTemplates'')"

definition validatedProgram :: "hash_function \<Rightarrow> jsval \<Rightarrow> jsval result" where
  "validatedProgram H value =
     andThen (recode ''SGOS_SIMULATION_PROGRAM_INVALID'' (validateGvmProgram H (programInput value))) (\<lambda>program.
     andThen (checks
       [refuseIf (utf8Length (canonicalJson program) > maximumProgramBytes) ''SGOS_SIMULATION_PROGRAM_TOO_LARGE'',
        refuseIf (int (length (templatesOf program)) > maximumTasks + maximumFanoutGroupsPerProcess
            \<or> int (length (elements (getp program ''edges''))) > maximumEdges) ''SGOS_SIMULATION_GRAPH_TOO_LARGE''])
       (\<lambda>_. Inr program))"

definition taskKey :: "jsval \<Rightarrow> string" where
  "taskKey task = jsString (getp task ''taskTemplateId'')"

definition declaredTexts :: "string \<Rightarrow> jsval \<Rightarrow> string list" where
  "declaredTexts field task =
     map jsString (elements (coalesce (getp (getp task ''resources'') field) (JArr [])))"

definition addSimulated :: "(string \<times> jsval) list \<Rightarrow> jsval \<Rightarrow> (string \<times> jsval) list result" where
  "addSimulated tasks task =
     andThen (checks
       [refuseIf (taskKey task \<in> set (map fst tasks)) ''SGOS_SIMULATION_GRAPH_INVALID'',
        refuseIf (list_ex (\<lambda>v. \<not> isString v \<or> \<not> deviceName (stringOf v))
            (elements (coalesce (getp (getp task ''resources'') ''devices'') (JArr [])))) ''SGOS_SIMULATION_DEPENDENCY_INVALID''])
       (\<lambda>_. Inr (tasks @ [(taskKey task, task)]))"

text \<open>The edges seen so far under their keys \<open>from\0to\<close>.\<close>

definition edgeText :: "string \<times> string \<Rightarrow> string" where
  "edgeText e = fst e @ [CHR 0x00] @ snd e"

definition addSimulatedEdge :: "string list \<Rightarrow> edge_list \<Rightarrow> jsval \<Rightarrow> edge_list result" where
  "addSimulatedEdge ids edges edge =
     (let e = (jsString (getp edge ''from''), jsString (getp edge ''to'')) in
      andThen (checks
        [refuseIf (\<not> nullish (getp edge ''condition'')) ''SGOS_SIMULATION_GRAPH_INVALID'',
         refuseIf (\<not> knownEdge ids e) ''SGOS_SIMULATION_GRAPH_INVALID'',
         refuseIf (edgeText e \<in> set (map edgeText edges)) ''SGOS_SIMULATION_GRAPH_INVALID'']) (\<lambda>_. Inr (edges @ [e])))"

record simulation_graph =
  simTasks :: "(string \<times> jsval) list"
  simIds :: "string list"
  simForward :: adjacency
  simReverse :: adjacency
  simRoots :: "string list"
  simLeaves :: "string list"
  simWaves :: "string list list"
  simOrder :: "string list"

definition taskOf :: "(string \<times> jsval) list \<Rightarrow> string \<Rightarrow> jsval" where
  "taskOf tasks i = (case map_of tasks i of None \<Rightarrow> JUndef | Some t \<Rightarrow> t)"

definition declaredDependsOn :: "jsval \<Rightarrow> string list" where
  "declaredDependsOn task = uniqueSorted (map jsString (elements (coalesce (getp task ''dependsOn'') (JArr []))))"

definition dependencyCheck :: "(string \<times> jsval) list \<Rightarrow> adjacency \<Rightarrow> string \<Rightarrow> unit result" where
  "dependencyCheck tasks reverse i =
     refuseIf (canonicalJson (textsValue (declaredDependsOn (taskOf tasks i))) \<noteq> canonicalJson (textsValue (lookupList reverse i)))
       ''SGOS_SIMULATION_GRAPH_INVALID''"

definition wavePairCheck :: "(string \<times> jsval) list \<Rightarrow> string \<times> string \<Rightarrow> unit result" where
  "wavePairCheck tasks lr =
     andThen (canonicalSgosResourceEntries (getp (taskOf tasks (fst lr)) ''resources'')) (\<lambda>left.
     andThen (canonicalSgosResourceEntries (getp (taskOf tasks (snd lr)) ''resources'')) (\<lambda>right.
     andThen (sgosResourceConflictDetails left right) (\<lambda>conflicts.
       refuseIf (conflicts \<noteq> []) ''SGOS_SIMULATION_PARALLEL_UNSAFE'')))"

definition endKeys :: "jsval list \<Rightarrow> string list" where
  "endKeys templates = sortPoints (map taskKey (filter (\<lambda>t. getp t ''opcode'' = JStr ''END'') templates))"

definition terminalCheck :: "string list \<Rightarrow> adjacency \<Rightarrow> adjacency \<Rightarrow> string list \<Rightarrow> unit result" where
  "terminalCheck ends forward reverse ids = checks
     [refuseIf (ends = [] \<or> list_ex (\<lambda>i. lookupList forward i \<noteq> []) ends) ''SGOS_SIMULATION_TERMINAL_INVALID'',
      refuseIf (list_ex (\<lambda>i. i \<notin> set (worklist reverse [] ends)) ids) ''SGOS_SIMULATION_TERMINAL_INVALID'']"

definition graphFor :: "jsval \<Rightarrow> simulation_graph result" where
  "graphFor program =
     andThen (foldResult addSimulated [] (templatesOf program)) (\<lambda>tasks.
     let ids = sortPoints (map fst tasks) in
     andThen (foldResult (addSimulatedEdge ids) [] (elements (getp program ''edges''))) (\<lambda>edges.
     let forward = forwardMap ids edges; reverse = reverseMap ids edges in
     andThen (eachOf (dependencyCheck tasks reverse) ids) (\<lambda>_.
     andThen (wavesOf ids edges) (\<lambda>waves.
     andThen (eachOf (\<lambda>wave. eachOf (wavePairCheck tasks) (laterPairs wave)) waves) (\<lambda>_.
     andThen (terminalCheck (endKeys (templatesOf program)) forward reverse ids) (\<lambda>_.
       Inr \<lparr>simTasks = tasks, simIds = ids, simForward = forward, simReverse = reverse,
         simRoots = filter (\<lambda>i. lookupList reverse i = []) ids,
         simLeaves = filter (\<lambda>i. lookupList forward i = []) ids,
         simWaves = waves, simOrder = concat waves\<rparr>))))))"

section \<open>Critical path and descendants\<close>

fun comparePaths :: "string list \<Rightarrow> string list \<Rightarrow> int" where
  "comparePaths (x # xs) (y # ys) =
     (if compareSgosCodePoints x y \<noteq> 0 then compareSgosCodePoints x y else comparePaths xs ys)"
| "comparePaths xs ys = int (length xs) - int (length ys)"

definition longerFirst :: "string list \<Rightarrow> string list \<Rightarrow> int" where
  "longerFirst = thenBy (\<lambda>p q. int (length q) - int (length p)) comparePaths"

definition extendBest :: "adjacency \<Rightarrow> (string \<times> string list) list \<Rightarrow> string \<Rightarrow> (string \<times> string list) list" where
  "extendBest reverse best i =
     (case sortBy longerFirst (map (\<lambda>p. lookupList best p @ [i]) (lookupList reverse i)) of
        [] \<Rightarrow> AList.update i [i] best
      | path # _ \<Rightarrow> AList.update i path best)"

definition criticalPath :: "simulation_graph \<Rightarrow> string list" where
  "criticalPath g =
     (let best = foldl (extendBest (simReverse g)) [] (simOrder g) in
      case sortBy longerFirst (map (lookupList best) (simLeaves g)) of [] \<Rightarrow> [] | path # _ \<Rightarrow> path)"

definition descendants :: "simulation_graph \<Rightarrow> string list \<Rightarrow> string list" where
  "descendants g start = sortPoints (worklist (simForward g) [] (uniqueSorted start))"

section \<open>Dependencies\<close>

definition metadataOf :: "jsval \<Rightarrow> string \<Rightarrow> jsval" where
  "metadataOf task k = getp (getp task ''metadata'') k"

definition namedDevice :: "jsval \<Rightarrow> bool" where
  "namedDevice v \<longleftrightarrow> isString v \<and> deviceName (stringOf v)"

definition deviceIdsForTask :: "jsval \<Rightarrow> string list" where
  "deviceIdsForTask task = uniqueSorted (declaredTexts ''devices'' task @
     (if namedDevice (metadataOf task ''deviceId'') then [stringOf (metadataOf task ''deviceId'')] else []))"

definition digestOrNull :: "jsval \<Rightarrow> jsval" where
  "digestOrNull v = (if isString v \<and> sha256Pattern (stringOf v) then v else JNull)"

definition deviceManifest :: "jsval \<Rightarrow> string \<Rightarrow> jsval" where
  "deviceManifest task device =
     (if metadataOf task ''deviceId'' = JStr device then digestOrNull (metadataOf task ''deviceManifestSha256'') else JNull)"

record task_dependency =
  dependencyKind :: string
  dependencyId :: jsval
  dependencyTask :: string
  dependencyManifest :: jsval
  dependencyReason :: string

definition pinnedReason :: string where
  "pinnedReason = ''A Program pins the dependency declaration; current adapter availability requires runtime authority.''"

definition dependenciesOfTask :: "jsval \<Rightarrow> task_dependency list" where
  "dependenciesOfTask task =
     (let devices = deviceIdsForTask task; unit = metadataOf task ''executionUnitId''; i = taskKey task in
      map (\<lambda>d. \<lparr>dependencyKind = ''device'', dependencyId = JStr d, dependencyTask = i,
        dependencyManifest = deviceManifest task d, dependencyReason = pinnedReason\<rparr>) devices
      @ (if getp task ''opcode'' = JStr ''DEVICE'' \<and> devices = []
         then [\<lparr>dependencyKind = ''device'', dependencyId = JNull, dependencyTask = i, dependencyManifest = JNull,
           dependencyReason = ''This legacy DEVICE task does not expose an exact dependency identity.''\<rparr>] else [])
      @ (if getp task ''opcode'' = JStr ''AGENT''
         then [\<lparr>dependencyKind = ''execution-unit'', dependencyId = (if namedDevice unit then unit else JNull),
           dependencyTask = i, dependencyManifest = digestOrNull (metadataOf task ''executionUnitManifestSha256''),
           dependencyReason = (if namedDevice unit then pinnedReason
             else ''This legacy AGENT task does not expose an exact Execution Unit identity.'')\<rparr>] else []))"

definition dependencyValue :: "task_dependency \<Rightarrow> jsval" where
  "dependencyValue d = JObj
     [(''dependencyKind'', JStr (dependencyKind d)), (''dependencyId'', dependencyId d),
      (''taskTemplateId'', JStr (dependencyTask d)), (''manifestSha256'', dependencyManifest d),
      (''availability'', JStr ''unknown''), unknownClass, (''reason'', JStr (dependencyReason d))]"

definition taskDependencies :: "jsval \<Rightarrow> task_dependency list" where
  "taskDependencies program =
     sortBy (thenBy (byKey dependencyKind) (thenBy (byKey (\<lambda>d. jsString (dependencyId d))) (byKey dependencyTask)))
       (concat (map dependenciesOfTask (templatesOf program)))"

section \<open>Reports\<close>

text \<open>\<open>collectAssurance\<close> counts every class separately; this is the count of one class.\<close>

fun assuranceCount :: "string \<Rightarrow> jsval \<Rightarrow> nat" where
  "assuranceCount c (JArr xs) = sum_list (map (assuranceCount c) xs)"
| "assuranceCount c (JObj fs) =
     (if map_of fs ''assurance'' = Some (JStr c) then 1 else 0) + sum_list (map (\<lambda>f. assuranceCount c (snd f)) fs)"
| "assuranceCount c v = 0"

definition collectAssurance :: "jsval \<Rightarrow> jsval" where
  "collectAssurance value = JObj (map (\<lambda>c. (c, JNum (int (assuranceCount c value)))) simulationAssurance)"

definition sealReport :: "hash_function \<Rightarrow> fields \<Rightarrow> jsval result" where
  "sealReport H report =
     andThen (cloneJson (JObj (setField ''reportSha256'' JNull report))) (\<lambda>core.
     andThen (sha256Json H core) (\<lambda>digest.
       let output = JObj (setField ''reportSha256'' (JStr digest) (fieldsOf core)) in
       if utf8Length (canonicalJson output) > maximumRecordBytes then fail ''SGOS_SIMULATION_OUTPUT_TOO_LARGE''
       else Inr output))"

definition sealClassifiedReport :: "hash_function \<Rightarrow> fields \<Rightarrow> jsval result" where
  "sealClassifiedReport H report = sealReport H (report @
     [(''assuranceVocabulary'', textsValue simulationAssurance),
      (''assuranceSummary'', JObj [(''scope'', JStr ''classified-claim-objects''),
         (''counts'', collectAssurance (JObj report)), provenClass])])"

definition unknownValue :: "string \<Rightarrow> jsval" where
  "unknownValue reason = JObj [(''value'', JNull), unknownClass, (''reason'', JStr reason)]"

definition unknownEstimate :: "string \<Rightarrow> jsval" where
  "unknownEstimate reason = JObj [(''value'', JNull), (''unit'', JNull), unknownClass, (''reason'', JStr reason)]"

text \<open>The index of the wave a task is in, from one.\<close>

definition waveNumber :: "string list list \<Rightarrow> string \<Rightarrow> jsval" where
  "waveNumber waves i =
     (case find (\<lambda>(n, w). i \<in> set w) (zip [0..<length waves] waves) of
        None \<Rightarrow> JUndef | Some (n, w) \<Rightarrow> JNum (int n + 1))"

definition readyWidth :: "string list list \<Rightarrow> jsval" where
  "readyWidth waves = JNum (int (foldr max (map length waves) 0))"

definition scheduleClaims :: "jsval \<Rightarrow> simulation_graph \<Rightarrow> jsval" where
  "scheduleClaims program g = JObj
     [provenClass,
      (''tasks'', JArr (map (\<lambda>t. JObj
        [(''taskTemplateId'', getp t ''taskTemplateId''), (''opcode'', getp t ''opcode''),
         (''operation'', coalesce (getp t ''operation'') JNull), (''wave'', waveNumber (simWaves g) (taskKey t)),
         (''predecessorTaskIds'', textsValue (lookupList (simReverse g) (taskKey t))),
         (''successorTaskIds'', textsValue (lookupList (simForward g) (taskKey t))), provenClass]) (templatesOf program))),
      (''criticalPath'', JObj
        [(''taskTemplateIds'', textsValue (criticalPath g)), (''taskCount'', JNum (int (length (criticalPath g)))),
         (''edgeCount'', JNum (max 0 (int (length (criticalPath g)) - 1))),
         (''basis'', JStr ''longest-dependency-path-by-task-count''), provenClass]),
      (''parallelGroups'', JArr (map (\<lambda>(n, wave). JObj
         [(''wave'', JNum (int n + 1)), (''taskTemplateIds'', textsValue wave),
          (''basis'', JStr ''dependency-ready-and-resource-nonconflicting''), provenClass])
         (filter (\<lambda>(n, wave). 1 < length wave) (zip [0..<length (simWaves g)] (simWaves g)))))]"

definition humanStops :: "jsval \<Rightarrow> jsval" where
  "humanStops program = JObj
     [(''items'', JArr (map (\<lambda>t. JObj
         [(''taskTemplateId'', getp t ''taskTemplateId''), (''authority'', coalesce (getp t ''authority'') (JObj [])), provenClass])
        (filter (\<lambda>t. getp t ''opcode'' = JStr ''HUMAN_REQUEST'') (templatesOf program)))), provenClass]"

text \<open>The declared pairs of a task and one of its effects, in the order of the effects.\<close>

definition externalEffects :: "jsval \<Rightarrow> (string \<times> string) list" where
  "externalEffects program = sortBy (thenBy (byKey snd) (byKey fst))
     (concat (map (\<lambda>t. map (Pair (taskKey t)) (declaredTexts ''externalEffects'' t)) (templatesOf program)))"

definition deviceClaims :: "jsval \<Rightarrow> (string \<times> string \<times> jsval) list" where
  "deviceClaims program = sortBy (thenBy (byKey (\<lambda>d. fst (snd d))) (byKey fst))
     (concat (map (\<lambda>t. map (\<lambda>d. (taskKey t, d, deviceManifest t d)) (deviceIdsForTask t)) (templatesOf program)))"

definition effectValue :: "string \<times> string \<Rightarrow> jsval" where
  "effectValue e = JObj [(''taskTemplateId'', JStr (fst e)), (''effect'', JStr (snd e)), provenClass]"

definition effectClaims :: "jsval \<Rightarrow> jsval" where
  "effectClaims program =
     (let effects = externalEffects program; network = filter (\<lambda>e. startsWith (snd e) ''network:'') effects;
          unclassified = (filter (\<lambda>e. \<not> startsWith (snd e) ''network:'') effects \<noteq> []) in JObj
       [(''devices'', JObj [(''items'', JArr (map (\<lambda>(t, d, m). JObj
          [(''taskTemplateId'', JStr t), (''deviceId'', JStr d), (''deviceManifestSha256'', m), provenClass])
          (deviceClaims program))), provenClass]),
        (''external'', JObj [(''items'', JArr (map effectValue effects)), provenClass]),
        (''network'', JObj [(''items'', JArr (map effectValue network)), if unclassified then unknownClass else provenClass,
          (''reason'', if unclassified
             then JStr ''Only external effects with the exact network: resource prefix can be classified as network effects.''
             else JNull)]),
        (''performed'', JBool False), provenClass])"

definition resourceUnion :: "string \<Rightarrow> jsval \<Rightarrow> string list" where
  "resourceUnion field program = uniqueSorted (concat (map (declaredTexts field) (templatesOf program)))"

definition maximumAttemptsOf :: "jsval \<Rightarrow> jsval" where
  "maximumAttemptsOf task = coalesce (getp (getp task ''retry'') ''maximumAttempts'') (JNum 1)"

definition recoveryItem :: "simulation_graph \<Rightarrow> jsval \<Rightarrow> jsval" where
  "recoveryItem g t = JObj
     [(''taskTemplateId'', getp t ''taskTemplateId''),
      (''directFailureSuccessorTaskIds'', textsValue (lookupList (simForward g) (taskKey t))),
      (''maximumAttempts'', maximumAttemptsOf t), (''recoveryContract'', coalesce (getp t ''recovery'') (JObj [])), provenClass,
      (''recoveryOutcome'', unknownValue
         ''A declared recovery contract does not prove that recovery will succeed at runtime.'')]"

definition simulationClaims :: "jsval \<Rightarrow> simulation_graph \<Rightarrow> jsval" where
  "simulationClaims program g = JObj
     [(''schedule'', scheduleClaims program g),
      (''humanStops'', humanStops program),
      (''effects'', effectClaims program),
      (''storage'', JObj
        [(''profileSha256'', getp program ''storageProfileSha256''),
         (''readResources'', textsValue (resourceUnion ''reads'' program)),
         (''writeResources'', textsValue (resourceUnion ''writes'' program)), provenClass,
         (''capacitySufficiency'', unknownValue
           ''The immutable Program pins a storage profile but carries no live capacity attestation.'')]),
      (''estimates'', JObj
        [(''cost'', unknownEstimate ''No reviewed historical estimator was supplied; simulation does not invent a cost.''),
         (''elapsedTime'', unknownEstimate
           ''No reviewed historical estimator was supplied; simulation does not invent a duration.''), unknownClass]),
      (''blastRadius'', JObj
        [(''writableResources'', textsValue (resourceUnion ''writes'' program)),
         (''externalEffects'', JArr (map (\<lambda>e. JObj [(''taskTemplateId'', JStr (fst e)), (''effect'', JStr (snd e))])
           (externalEffects program))),
         (''maximumReadyWidth'', readyWidth (simWaves g)), provenClass,
         (''runtimeReachability'', unknownValue
           ''Declared scope is proven; live credentials and reachable systems are not inspected.'')]),
      (''failureAndRecovery'', JObj [(''items'', JArr (map (recoveryItem g) (templatesOf program))), provenClass]),
      (''unavailableDependencies'', JObj
        [(''items'', JArr (map dependencyValue (taskDependencies program))), unknownClass,
         (''reason'', JStr ''Read-only Program simulation does not inspect the runtime registry or start adapters.'')])]"

definition reportHeader :: "string \<Rightarrow> jsval \<Rightarrow> fields" where
  "reportHeader kind program =
     [(''reportVersion'', JNum 1), (''kind'', JStr kind), (''programId'', getp program ''programId''),
      (''programSha256'', getp program ''programSha256'')]"

definition simulateSgosProgramAssurance :: "hash_function \<Rightarrow> jsval \<Rightarrow> jsval result" where
  "simulateSgosProgramAssurance H value =
     andThen (validatedProgram H value) (\<lambda>program.
     andThen (graphFor program) (\<lambda>g.
       sealClassifiedReport H (reportHeader ''gvm-program-simulation'' program @
         [(''bounded'', JBool True), (''readOnly'', JBool True), (''consequentialEffectsPerformed'', JBool False),
          (''waves'', JArr (map textsValue (simWaves g))), (''topologicalOrder'', textsValue (simOrder g)),
          (''maximumReadyWidth'', readyWidth (simWaves g)), (''terminalTaskIds'', textsValue (endKeys (templatesOf program))),
          (''receiptRequiredTaskIds'', textsValue (simOrder g)),
          (''compatibilityAssurance'', JStr ''deterministically-proven''),
          (''claims'', simulationClaims program g)])))"

section \<open>Removing Devices\<close>

definition exactDeviceIds :: "jsval \<Rightarrow> string list result" where
  "exactDeviceIds options =
     (let listed = getp options ''withoutDeviceIds'' in
      andThen (checks
        [optionKeys options [''withoutDeviceIds''],
         refuseIf (\<not> isArray listed \<or> length (elements listed) < 1 \<or> 64 < length (elements listed)) inputInvalid,
         refuseIf (list_ex (\<lambda>v. \<not> namedDevice v) (elements listed) \<or> \<not> distinct (elements listed)) inputInvalid])
        (\<lambda>_. Inr (sortPoints (map stringOf (elements listed)))))"

record structural_impact =
  directTasks :: "string list"
  affectedTasks :: "string list"
  affectedEnds :: "string list"

definition impactOf :: "jsval \<Rightarrow> simulation_graph \<Rightarrow> string list \<Rightarrow> structural_impact" where
  "impactOf program g direct =
     (let affected = descendants g direct in
      \<lparr>directTasks = direct, affectedTasks = affected,
       affectedEnds = filter (\<lambda>i. i \<in> set affected) (endKeys (templatesOf program))\<rparr>)"

definition usersOf :: "jsval \<Rightarrow> string list \<Rightarrow> string list" where
  "usersOf program devices =
     sortPoints (map taskKey (filter (\<lambda>t. list_ex (\<lambda>d. d \<in> set devices) (deviceIdsForTask t)) (templatesOf program)))"

definition whatIfImpact :: "jsval \<Rightarrow> simulation_graph \<Rightarrow> string list \<Rightarrow> structural_impact result" where
  "whatIfImpact program g devices =
     andThen (refuseIf (filter (\<lambda>d. d \<notin> set (uniqueSorted (concat (map deviceIdsForTask (templatesOf program))))) devices \<noteq> [])
       ''SGOS_SIMULATION_DEVICE_NOT_FOUND'') (\<lambda>_. Inr (impactOf program g (usersOf program devices)))"

definition whatIfReport :: "jsval \<Rightarrow> simulation_graph \<Rightarrow> string list \<Rightarrow> structural_impact \<Rightarrow> fields" where
  "whatIfReport program g devices i =
     (let ends = endKeys (templatesOf program) in
      reportHeader ''gvm-program-what-if'' program @
      [(''readOnly'', JBool True), (''consequentialEffectsPerformed'', JBool False),
       (''without'', JObj [(''kind'', JStr ''device''), (''ids'', textsValue devices), provenClass]),
       (''impact'', JObj
         [(''directTaskIds'', textsValue (directTasks i)), (''blockedTaskIds'', textsValue (affectedTasks i)),
          (''unaffectedTaskIds'', textsValue (filter (\<lambda>k. k \<notin> set (affectedTasks i)) (simIds g))),
          (''blockedTerminalTaskIds'', textsValue (affectedEnds i)),
          (''allTerminalPathsBlocked'', JBool (ends \<noteq> [] \<and> length (affectedEnds i) = length ends)), provenClass]),
       (''diagnostics'', JArr ([JObj [(''code'', JStr ''device-removed''), (''deviceIds'', textsValue devices),
           (''directlyBlockedTaskIds'', textsValue (directTasks i)), provenClass]]
         @ (if affectedEnds i \<noteq> []
            then [JObj [(''code'', JStr ''terminal-path-blocked''), (''terminalTaskIds'', textsValue (affectedEnds i)), provenClass]]
            else []))),
       (''estimates'', JObj
         [(''costDelta'', unknownValue ''No reviewed cost estimator was supplied.''),
          (''elapsedTimeDelta'', unknownValue ''No reviewed duration estimator was supplied.''), unknownClass])])"

definition whatIfSgosProgram :: "hash_function \<Rightarrow> jsval \<Rightarrow> jsval \<Rightarrow> jsval result" where
  "whatIfSgosProgram H value options =
     andThen (validatedProgram H value) (\<lambda>program.
     andThen (graphFor program) (\<lambda>g.
     andThen (exactDeviceIds options) (\<lambda>devices.
     andThen (whatIfImpact program g devices) (\<lambda>i.
       sealClassifiedReport H (whatIfReport program g devices i)))))"

section \<open>Fault plans\<close>

datatype fault_target = TaskTarget string | DeviceTarget string

definition exactFaultOptions :: "jsval \<Rightarrow> (fault_target \<times> string) result" where
  "exactFaultOptions options =
     (let target = getp options ''target''; kind = getp target ''kind''; i = getp target ''id'';
          failure = getp options ''failure'' in
      andThen (checks
        [optionKeys options [''target'', ''failure''],
         optionKeys target [''kind'', ''id''],
         refuseIf (kind \<notin> {JStr ''task'', JStr ''device''}) inputInvalid,
         refuseIf (\<not> isString i \<or> \<not> (if kind = JStr ''device'' then deviceName else safeId) (stringOf i)) inputInvalid,
         refuseIf (\<not> isString failure) ''SGOS_SIMULATION_FAILURE_INVALID'',
         refuseIf (stringOf failure \<notin> set faultFailures) ''SGOS_SIMULATION_FAILURE_INVALID''])
        (\<lambda>_. Inr (if kind = JStr ''device'' then DeviceTarget (stringOf i) else TaskTarget (stringOf i), stringOf failure)))"

definition faultImpact :: "jsval \<Rightarrow> simulation_graph \<Rightarrow> fault_target \<Rightarrow> structural_impact result" where
  "faultImpact program g target =
     (case target of
        TaskTarget i \<Rightarrow>
         (if i \<notin> set (map fst (simTasks g)) then fail ''SGOS_SIMULATION_TASK_NOT_FOUND'' else Inr (impactOf program g [i]))
      | DeviceTarget d \<Rightarrow>
         (if usersOf program [d] = [] then fail ''SGOS_SIMULATION_DEVICE_NOT_FOUND''
          else Inr (impactOf program g (usersOf program [d]))))"

definition targetValue :: "fault_target \<Rightarrow> jsval" where
  "targetValue target = (case target of
     TaskTarget i \<Rightarrow> JObj [(''kind'', JStr ''task''), (''id'', JStr i), provenClass]
   | DeviceTarget d \<Rightarrow> JObj [(''kind'', JStr ''device''), (''id'', JStr d), provenClass])"

definition faultReport :: "jsval \<Rightarrow> simulation_graph \<Rightarrow> fault_target \<Rightarrow> string \<Rightarrow> structural_impact \<Rightarrow> fields" where
  "faultReport program g target failure i =
     reportHeader ''gvm-program-fault-plan'' program @
     [(''target'', targetValue target), (''failure'', JObj [(''id'', JStr failure), provenClass]),
      (''planOnly'', JBool True), (''readOnly'', JBool True), (''faultInjected'', JBool False),
      (''executionPerformed'', JBool False),
      (''impact'', JObj
        [(''directTaskIds'', textsValue (directTasks i)), (''affectedTaskIds'', textsValue (affectedTasks i)),
         (''affectedTerminalTaskIds'', textsValue (affectedEnds i)), provenClass]),
      (''recovery'', JObj [(''items'', JArr (map (\<lambda>k. let t = taskOf (simTasks g) k in JObj
         [(''taskTemplateId'', JStr k), (''maximumAttempts'', maximumAttemptsOf t),
          (''recoveryContract'', coalesce (getp t ''recovery'') (JObj [])), provenClass,
          (''recoveryOutcome'', unknownValue
             ''Fault planning proves only the declared route; it does not execute or verify recovery.'')])
         (directTasks i))), provenClass])]"

definition planSgosProgramFault :: "hash_function \<Rightarrow> jsval \<Rightarrow> jsval \<Rightarrow> jsval result" where
  "planSgosProgramFault H value options =
     andThen (validatedProgram H value) (\<lambda>program.
     andThen (graphFor program) (\<lambda>g.
     andThen (exactFaultOptions options) (\<lambda>tf.
     andThen (faultImpact program g (fst tf)) (\<lambda>i.
       sealClassifiedReport H (faultReport program g (fst tf) (snd tf) i)))))"

section \<open>The accepted graph\<close>

lemma addSimulated_Inr:
  "addSimulated acc t = Inr r \<Longrightarrow> taskKey t \<notin> set (map fst acc) \<and> r = acc @ [(taskKey t, t)]"
  by (auto simp: addSimulated_def andThen_Inr)

lemma addSimulated_fold:
  "foldResult addSimulated acc ts = Inr r \<Longrightarrow>
     r = acc @ map (\<lambda>t. (taskKey t, t)) ts \<and> (distinct (map fst acc) \<longrightarrow> distinct (map fst r))"
proof (induction ts arbitrary: acc)
  case (Cons t ts)
  then obtain u where "addSimulated acc t = Inr u" "foldResult addSimulated u ts = Inr r"
    by (auto simp: andThen_Inr)
  note u = this addSimulated_Inr [OF this(1)]
  have "distinct (map fst acc) \<longrightarrow> distinct (map fst u)" using u(3) by auto
  with Cons.IH [OF u(2)] u(3) show ?case by (intro conjI) (simp, blast)
qed simp

definition programEdge :: "jsval \<Rightarrow> string \<times> string" where
  "programEdge e = (jsString (getp e ''from''), jsString (getp e ''to''))"

definition programEdgesOf :: "jsval \<Rightarrow> edge_list" where
  "programEdgesOf program = map programEdge (elements (getp program ''edges''))"

lemma addSimulatedEdge_Inr: "addSimulatedEdge ids acc e = Inr r \<Longrightarrow> knownEdge ids (programEdge e) \<and> r = acc @ [programEdge e]"
  by (auto simp: addSimulatedEdge_def Let_def andThen_Inr programEdge_def)

lemma addSimulatedEdge_fold:
  "foldResult (addSimulatedEdge ids) acc es = Inr r \<Longrightarrow> list_all (knownEdge ids) acc \<Longrightarrow>
     r = acc @ map programEdge es \<and> list_all (knownEdge ids) r"
proof (induction es arbitrary: acc)
  case (Cons e es)
  then obtain u where "addSimulatedEdge ids acc e = Inr u" "foldResult (addSimulatedEdge ids) u es = Inr r"
    by (auto simp: andThen_Inr)
  with Cons.IH [of u] Cons.prems(2) addSimulatedEdge_Inr [of ids acc e u] show ?case by auto
qed simp

text \<open>What an accepted graph is, over the tasks and edges of the Program.\<close>

lemma graphFor_Inr:
  assumes "graphFor program = Inr g"
  defines "E \<equiv> programEdgesOf program"
  shows "simTasks g = map (\<lambda>t. (taskKey t, t)) (templatesOf program)" "distinct (map taskKey (templatesOf program))"
    "simIds g = sortPoints (map taskKey (templatesOf program))" "list_all (knownEdge (simIds g)) E"
    "simForward g = forwardMap (simIds g) E" "simReverse g = reverseMap (simIds g) E"
    "wavesOf (simIds g) E = Inr (simWaves g)" "simOrder g = concat (simWaves g)"
    "simRoots g = filter (\<lambda>i. lookupList (simReverse g) i = []) (simIds g)"
    "simLeaves g = filter (\<lambda>i. lookupList (simForward g) i = []) (simIds g)"
    "terminalCheck (endKeys (templatesOf program)) (simForward g) (simReverse g) (simIds g) = Inr ()"
proof -
  obtain tasks edges waves where
    tasks: "foldResult addSimulated [] (templatesOf program) = Inr tasks" and
    edges: "foldResult (addSimulatedEdge (sortPoints (map fst tasks))) [] (elements (getp program ''edges'')) = Inr edges" and
    waves: "wavesOf (sortPoints (map fst tasks)) edges = Inr waves" and
    ends: "terminalCheck (endKeys (templatesOf program)) (forwardMap (sortPoints (map fst tasks)) edges)
      (reverseMap (sortPoints (map fst tasks)) edges) (sortPoints (map fst tasks)) = Inr ()" and
    g: "g = \<lparr>simTasks = tasks, simIds = sortPoints (map fst tasks),
      simForward = forwardMap (sortPoints (map fst tasks)) edges, simReverse = reverseMap (sortPoints (map fst tasks)) edges,
      simRoots = filter (\<lambda>i. lookupList (reverseMap (sortPoints (map fst tasks)) edges) i = []) (sortPoints (map fst tasks)),
      simLeaves = filter (\<lambda>i. lookupList (forwardMap (sortPoints (map fst tasks)) edges) i = []) (sortPoints (map fst tasks)),
      simWaves = waves, simOrder = concat waves\<rparr>"
    using assms(1) unfolding graphFor_def Let_def andThen_Inr by auto
  have t: "tasks = map (\<lambda>t. (taskKey t, t)) (templatesOf program)" "distinct (map fst tasks)"
    using addSimulated_fold [OF tasks] by auto
  have e: "edges = E" "list_all (knownEdge (sortPoints (map fst tasks))) edges"
    using addSimulatedEdge_fold [OF edges] by (auto simp: E_def programEdgesOf_def)
  show "simTasks g = map (\<lambda>t. (taskKey t, t)) (templatesOf program)" "distinct (map taskKey (templatesOf program))"
    "simIds g = sortPoints (map taskKey (templatesOf program))" "list_all (knownEdge (simIds g)) E"
    "simForward g = forwardMap (simIds g) E" "simReverse g = reverseMap (simIds g) E"
    "wavesOf (simIds g) E = Inr (simWaves g)" "simOrder g = concat (simWaves g)"
    "simRoots g = filter (\<lambda>i. lookupList (simReverse g) i = []) (simIds g)"
    "simLeaves g = filter (\<lambda>i. lookupList (simForward g) i = []) (simIds g)"
    "terminalCheck (endKeys (templatesOf program)) (simForward g) (simReverse g) (simIds g) = Inr ()"
    using t e waves ends by (simp_all add: g comp_def)
qed

lemma graphFor_search:
  assumes "graphFor program = Inr g"
  shows "adjacencyRel (simForward g) = set (programEdgesOf program)"
    "adjacencyRel (simReverse g) = (set (programEdgesOf program))\<inverse>"
    "set (descendants g start) = {k. \<exists>d \<in> set start. (d, k) \<in> (set (programEdgesOf program))\<^sup>*}"
    "sorted_wrt (<) (descendants g start)"
    "set (lookupList (simReverse g) k) = {a. (a, k) \<in> set (programEdgesOf program)}"
proof -
  note g = graphFor_Inr [OF assms]
  show f: "adjacencyRel (simForward g) = set (programEdgesOf program)"
    and r: "adjacencyRel (simReverse g) = (set (programEdgesOf program))\<inverse>"
    using adjacencyRel_forward [OF g(4)] adjacencyRel_reverse [OF g(4)] by (simp_all add: g(5,6))
  show "set (lookupList (simReverse g) k) = {a. (a, k) \<in> set (programEdgesOf program)}"
    using r by (auto simp: adjacencyRel_def set_eq_iff)
  have w: "worklist (simForward g) [] (uniqueSorted start) = reachableFrom (dedupe start) (simForward g)"
    by (simp add: uniqueSorted_def reachableFrom_def)
  show "set (descendants g start) = {k. \<exists>d \<in> set start. (d, k) \<in> (set (programEdgesOf program))\<^sup>*}"
    by (simp add: descendants_def w reachableFrom_set f)
  show "sorted_wrt (<) (descendants g start)"
    by (simp add: descendants_def w reachableFrom_def sortPoints_sort strict_sorted_iff worklist_distinct)
qed

text \<open>Every task reaches an END task, and END tasks have no successors.\<close>

lemma graphFor_terminals:
  assumes "graphFor program = Inr g" "i \<in> set (simIds g)"
  shows "\<exists>e \<in> set (simLeaves g). (i, e) \<in> (set (programEdgesOf program))\<^sup>*"
proof -
  note g = graphFor_Inr [OF assms(1)]
  let ?ends = "endKeys (templatesOf program)"
  have parts: "\<forall>e \<in> set ?ends. lookupList (simForward g) e = []" "i \<in> set (worklist (simReverse g) [] ?ends)"
    using g(11) assms(2) unfolding terminalCheck_def checks_Inr by (auto simp: list_ex_iff)
  have "worklist (simReverse g) [] ?ends = reachableFrom ?ends (simReverse g)"
    by (simp add: reachableFrom_def endKeys_def)
  with parts(2) obtain e where e: "e \<in> set ?ends" "(e, i) \<in> ((set (programEdgesOf program))\<inverse>)\<^sup>*"
    by (auto simp: reachableFrom_set graphFor_search(2) [OF assms(1)])
  then have "e \<in> set (simIds g)" by (auto simp: endKeys_def g(3))
  with e parts(1) show ?thesis by (auto simp: g(10) rtrancl_converse)
qed

lemma waves_topological:
  assumes "distinct ids" "list_all (knownEdge ids) edges" "wavesOf ids edges = Inr waves"
  shows "topological edges (concat waves)" "distinct (concat waves)" "set (concat waves) = set ids"
proof -
  have w: "distinct (concat waves)" "set (concat waves) = set ids"
      "\<forall>i < length waves. \<forall>b \<in> set (waves ! i). \<forall>a. (a, b) \<in> set edges \<longrightarrow> a \<in> set (concat (take i waves))"
    using peelWaves_correct [OF tracks_initial _ assms(1) assms(3) [unfolded wavesOf_def]] by simp_all
  show "distinct (concat waves)" "set (concat waves) = set ids" by (rule w(1), rule w(2))
  show "topological edges (concat waves)"
    unfolding topological_def
  proof (intro allI impI)
    fix i a assume i: "i < length (concat waves)" and a: "(a, concat waves ! i) \<in> set edges"
    let ?b = "concat waves ! i"
    obtain w where "w \<in> set waves" "?b \<in> set w" using nth_mem [OF i] by auto
    then obtain k where k: "k < length waves" "?b \<in> set (waves ! k)" by (metis in_set_conv_nth)
    let ?front = "concat (take k waves)"
    have split: "concat waves = ?front @ waves ! k @ concat (drop (Suc k) waves)"
      using k(1) by (metis append_take_drop_id concat.simps(2) concat_append Cons_nth_drop_Suc)
    have "\<not> i < length ?front"
    proof
      assume less: "i < length ?front"
      then have "?b = ?front ! i" by (subst split) (simp add: nth_append)
      with nth_mem [OF less] have "?b \<in> set ?front" by simp
      with k(2) w(1) show False by (subst (asm) split) auto
    qed
    moreover have "?front = take (length ?front) (concat waves)"
      using arg_cong [OF split, of "take (length ?front)"] by simp
    ultimately have "set ?front \<subseteq> set (take i (concat waves))"
      by (metis linorder_not_less set_take_subset_set_take)
    then show "a \<in> set (take i (concat waves))" using w(3) k a by blast
  qed
qed

section \<open>The critical path\<close>

lemma Nil_below: "([] :: string list) < q \<longleftrightarrow> [] \<noteq> q"
  by (cases q) auto

lemma comparePaths_less_eq: "comparePaths p q \<le> 0 \<longleftrightarrow> p \<le> q"
  by (induction p q rule: comparePaths.induct) (auto simp: compare_simps le_less Nil_below)

lemma longerFirst_less_eq: "longerFirst p q \<le> 0 \<longleftrightarrow> length q < length p \<or> length q = length p \<and> p \<le> q"
  by (auto simp: longerFirst_def thenBy_def comparePaths_less_eq)

interpretation longer: strict_comparator longerFirst
  by unfold_locales (auto simp: longerFirst_less_eq)

abbreviation precedes :: "string list \<Rightarrow> string list \<Rightarrow> bool" where
  "precedes p q \<equiv> length q < length p \<or> length q = length p \<and> p \<le> q"

lemma append_order: "length p = length q \<Longrightarrow> p @ [i] \<le> q @ [i] \<longleftrightarrow> (p :: string list) \<le> q"
  by (induction p q rule: list_induct2) auto

lemma precedes_snoc: "precedes p q \<Longrightarrow> precedes (p @ [i]) (q @ [i])"
  by (auto simp: append_order)

lemma precedes_trans: "precedes p q \<Longrightarrow> precedes q r \<Longrightarrow> precedes p r"
  by auto

lemma sortBy_head:
  assumes "sortBy longerFirst ps = p # rest"
  shows "p \<in> set ps" "q \<in> set ps \<Longrightarrow> precedes p q"
proof -
  have sets: "set ps = set (p # rest)" using assms set_sortBy [of longerFirst ps] by simp
  then show "p \<in> set ps" by simp
  have "sorted_wrt longer.below (p # rest)" using longer.sorted_sortBy [of ps] assms by simp
  then show "q \<in> set ps \<Longrightarrow> precedes p q"
    using sets longer.refl [of p] by (auto simp: longerFirst_less_eq)
qed

text \<open>A path of the graph, and the best of those that end in \<open>i\<close>.\<close>

definition pathIn :: "edge_list \<Rightarrow> string list \<Rightarrow> bool" where
  "pathIn edges p \<longleftrightarrow> p \<noteq> [] \<and> successively (\<lambda>a b. (a, b) \<in> set edges) p"

definition bestTo :: "edge_list \<Rightarrow> string \<Rightarrow> string list \<Rightarrow> bool" where
  "bestTo edges i p \<longleftrightarrow> pathIn edges p \<and> last p = i \<and> (\<forall>q. pathIn edges q \<and> last q = i \<longrightarrow> precedes p q)"

lemma pathIn_snoc: "pathIn edges (p @ [i]) \<longleftrightarrow> p = [] \<or> pathIn edges p \<and> (last p, i) \<in> set edges"
  by (auto simp: pathIn_def successively_append_iff)

lemma pathIn_cases:
  assumes "pathIn edges q" "last q = i"
  obtains "q = [i]" | q' where "q = q' @ [i]" "pathIn edges q'" "(last q', i) \<in> set edges"
proof -
  have "q = butlast q @ [i]" using assms by (metis append_butlast_last_id pathIn_def)
  with assms(1) that pathIn_snoc [of edges "butlast q" i] show thesis by (cases "butlast q = []") auto
qed

lemma extendBest_step:
  assumes preds: "set (lookupList reverse i) = {a. (a, i) \<in> set edges}"
    and best: "\<And>a. (a, i) \<in> set edges \<Longrightarrow> bestTo edges a (lookupList best a)"
  shows "\<exists>p. extendBest reverse best i = AList.update i p best \<and> bestTo edges i p"
proof (cases "sortBy longerFirst (map (\<lambda>p. lookupList best p @ [i]) (lookupList reverse i))")
  case Nil
  then have "lookupList reverse i = []" by (metis sortBy_Nil_iff map_is_Nil_conv)
  then have none: "(a, i) \<notin> set edges" for a using preds by auto
  have "bestTo edges i [i]"
    unfolding bestTo_def
  proof (intro conjI allI impI)
    fix q assume "pathIn edges q \<and> last q = i"
    then have "q = [i]" using none by (metis pathIn_cases)
    then show "precedes [i] q" by simp
  qed (simp_all add: pathIn_def)
  with Nil show ?thesis by (auto simp: extendBest_def)
next
  case (Cons h rest)
  note head = sortBy_head [OF Cons]
  obtain a where a: "(a, i) \<in> set edges" "h = lookupList best a @ [i]" using head(1) preds by auto
  have "bestTo edges i h"
    unfolding bestTo_def
  proof (intro conjI allI impI)
    show path: "pathIn edges h" "last h = i" using best [OF a(1)] a by (auto simp: bestTo_def pathIn_snoc)
    fix q assume "pathIn edges q \<and> last q = i"
    then consider "q = [i]" | q' where "q = q' @ [i]" "pathIn edges q'" "(last q', i) \<in> set edges"
      by (metis pathIn_cases)
    then show "precedes h q"
    proof cases
      assume "q = [i]"
      then show ?thesis using best [OF a(1)] a(2) by (auto simp: bestTo_def pathIn_def)
    next
      fix q' assume q': "q = q' @ [i]" "pathIn edges q'" "(last q', i) \<in> set edges"
      have "precedes (lookupList best (last q')) q'" using best [OF q'(3)] q'(2) by (auto simp: bestTo_def)
      moreover have "precedes h (lookupList best (last q') @ [i])"
        by (rule head(2)) (use q'(3) preds in auto)
      ultimately show ?thesis unfolding q'(1) using precedes_snoc precedes_trans by blast
    qed
  qed
  with Cons show ?thesis by (auto simp: extendBest_def)
qed

lemma best_paths:
  assumes "topological edges order" "\<And>i. i \<in> set order \<Longrightarrow> set (lookupList reverse i) = {a. (a, i) \<in> set edges}"
    and "distinct order" "i \<in> set order"
  shows "bestTo edges i (lookupList (foldl (extendBest reverse) [] order) i)"
  using assms
proof (induction order arbitrary: i rule: rev_induct)
  case (snoc x order)
  let ?best = "foldl (extendBest reverse) [] order"
  have top: "topological edges order" using snoc.prems(1) by (auto simp: topological_def nth_append)
  have IH: "bestTo edges k (lookupList ?best k)" if "k \<in> set order" for k
    by (rule snoc.IH [OF top]) (use snoc.prems that in auto)
  have before: "(a, x) \<in> set edges \<Longrightarrow> a \<in> set order" for a
    using snoc.prems(1) by (auto simp: topological_def dest: spec [of _ "length order"])
  obtain p where p: "extendBest reverse ?best x = AList.update x p ?best" "bestTo edges x p"
    using extendBest_step [of reverse x edges ?best] snoc.prems(2) [of x] IH before by auto
  show ?case
  proof (cases "i = x")
    case True
    with p show ?thesis by (simp add: lookupList_def update_conv')
  next
    case False
    with snoc.prems(4) IH show ?thesis by (simp add: p(1) lookupList_def update_conv')
  qed
qed simp

lemma path_onwards:
  assumes "(a, b) \<in> (set edges)\<^sup>*" "pathIn edges p" "last p = a"
  shows "\<exists>q. pathIn edges q \<and> last q = b \<and> (if a = b then q = p else length p < length q)"
  using assms
proof (induction rule: rtrancl_induct)
  case (step b c)
  then obtain q where q: "pathIn edges q" "last q = b" "length p \<le> length q" by (auto split: if_splits)
  then have "pathIn edges (q @ [c])" using step.hyps(2) by (simp add: pathIn_snoc)
  show ?case
  proof (cases "a = c")
    case True
    with step.prems show ?thesis by auto
  next
    case False
    with q \<open>pathIn edges (q @ [c])\<close> show ?thesis by (intro exI [of _ "q @ [c]"]) auto
  qed
qed auto

lemma graph_best:
  assumes "graphFor program = Inr g" "i \<in> set (simIds g)"
  shows "bestTo (programEdgesOf program) i (lookupList (foldl (extendBest (simReverse g)) [] (simOrder g)) i)"
proof -
  note g = graphFor_Inr [OF assms(1)]
  have "distinct (simIds g)" using g(2,3) by simp
  note order = waves_topological [OF this g(4) g(7)]
  show ?thesis
    using best_paths [OF order(1) graphFor_search(5) [OF assms(1)] order(2)] order(3) assms(2) unfolding g(8) by blast
qed

lemma critical_path_best:
  assumes "graphFor program = Inr g"
  shows "\<exists>leaf \<in> set (simLeaves g). bestTo (programEdgesOf program) leaf (criticalPath g)"
    "leaf \<in> set (simLeaves g) \<Longrightarrow> pathIn (programEdgesOf program) q \<Longrightarrow> last q = leaf \<Longrightarrow> precedes (criticalPath g) q"
proof -
  note g = graphFor_Inr [OF assms]
  let ?E = "programEdgesOf program" and ?best = "foldl (extendBest (simReverse g)) [] (simOrder g)"
  have leaf: "bestTo ?E k (lookupList ?best k)" if "k \<in> set (simLeaves g)" for k
    using graph_best [OF assms, of k] that by (simp add: g(10))
  have "endKeys (templatesOf program) \<noteq> []"
    using g(11) unfolding terminalCheck_def checks_Inr by (auto simp: endKeys_def)
  then have "simIds g \<noteq> []" by (auto simp: g(3) endKeys_def)
  then obtain i where "i \<in> set (simIds g)" by (cases "simIds g") auto
  then have "simLeaves g \<noteq> []" using graphFor_terminals [OF assms] by fastforce
  then obtain h rest where sorted: "sortBy longerFirst (map (lookupList ?best) (simLeaves g)) = h # rest"
    by (metis list.exhaust sortBy_Nil_iff map_is_Nil_conv)
  then have h: "criticalPath g = h" by (simp add: criticalPath_def Let_def)
  note head = sortBy_head [OF sorted]
  from head(1) leaf show "\<exists>leaf \<in> set (simLeaves g). bestTo ?E leaf (criticalPath g)" unfolding h by auto
  assume q: "leaf \<in> set (simLeaves g)" "pathIn ?E q" "last q = leaf"
  have "precedes (lookupList ?best leaf) q" using leaf [OF q(1)] q(2,3) by (auto simp: bestTo_def)
  moreover have "precedes h (lookupList ?best leaf)" by (rule head(2)) (use q(1) in simp)
  ultimately show "precedes (criticalPath g) q" unfolding h by (rule precedes_trans [rotated])
qed

text \<open>
  C21: The critical path of an accepted graph is a path of the Program from a root to a leaf, and no
  path of its tasks is longer; of the paths as long, it is the first in code-point order. The dynamic
  program of \<open>criticalPath\<close> only compares the best paths of the predecessors, and still finds it.
\<close>
theorem critical_path_longest:
  assumes "graphFor program = Inr g"
  shows "pathIn (programEdgesOf program) (criticalPath g) \<and> hd (criticalPath g) \<in> set (simRoots g) \<and>
    last (criticalPath g) \<in> set (simLeaves g) \<and>
    (\<forall>q. pathIn (programEdgesOf program) q \<and> set q \<subseteq> set (simIds g) \<longrightarrow>
       length q < length (criticalPath g) \<or> length q = length (criticalPath g) \<and> criticalPath g \<le> q)"
proof -
  note g = graphFor_Inr [OF assms]
  let ?E = "programEdgesOf program" and ?p = "criticalPath g"
  obtain leaf where leaf: "leaf \<in> set (simLeaves g)" "bestTo ?E leaf ?p" using critical_path_best(1) [OF assms] by blast
  then have p: "pathIn ?E ?p" "last ?p = leaf" by (auto simp: bestTo_def)
  have longest: "precedes ?p q" if q: "pathIn ?E q" "set q \<subseteq> set (simIds g)" for q
  proof -
    have "last q \<in> set (simIds g)" using q by (auto simp: pathIn_def)
    then obtain e where e: "e \<in> set (simLeaves g)" "(last q, e) \<in> (set ?E)\<^sup>*" using graphFor_terminals [OF assms] by blast
    obtain r where r: "pathIn ?E r" "last r = e" "if last q = e then r = q else length q < length r"
      using path_onwards [OF e(2) q(1) refl] by blast
    with critical_path_best(2) [OF assms e(1) r(1,2)] show ?thesis by (auto split: if_splits)
  qed
  have inside: "hd ?p \<in> set (simIds g)"
  proof (cases "tl ?p")
    case Nil
    then have "hd ?p = leaf" using p by (cases ?p) (auto simp: pathIn_def)
    with leaf(1) show ?thesis by (simp add: g(10))
  next
    case (Cons b bs)
    then have "(hd ?p, b) \<in> set ?E" using p(1) by (cases ?p) (auto simp: pathIn_def)
    with g(4) show ?thesis by (auto simp: list_all_iff knownEdge_def)
  qed
  have "lookupList (simReverse g) (hd ?p) = []"
  proof (rule ccontr)
    assume "lookupList (simReverse g) (hd ?p) \<noteq> []"
    then obtain a where "a \<in> set (lookupList (simReverse g) (hd ?p))"
      by (cases "lookupList (simReverse g) (hd ?p)") auto
    then have a: "(a, hd ?p) \<in> set ?E" unfolding graphFor_search(5) [OF assms] by simp
    then have "pathIn ?E (a # ?p)" using p(1) by (auto simp: pathIn_def successively_Cons)
    then show False using critical_path_best(2) [OF assms leaf(1), of "a # ?p"] p by (simp add: pathIn_def)
  qed
  with inside have "hd ?p \<in> set (simRoots g)" by (simp add: g(9))
  with p leaf(1) longest show ?thesis by blast
qed

section \<open>The impact of a removed Device\<close>

text \<open>
  C22: The impact of removing Devices is exact. The blocked tasks are those reachable from a task that
  uses a removed Device, strictly sorted; every other task of the Program has no such task upstream;
  and the blocked terminal tasks are the END tasks among the blocked ones.
\<close>
theorem what_if_impact_exact:
  assumes "graphFor program = Inr g" "whatIfImpact program g devices = Inr i"
  shows "set (directTasks i) = {taskKey t | t. t \<in> set (templatesOf program) \<and> (\<exists>d \<in> set devices. d \<in> set (deviceIdsForTask t))} \<and>
    (\<forall>d \<in> set devices. \<exists>t \<in> set (templatesOf program). d \<in> set (deviceIdsForTask t)) \<and>
    set (affectedTasks i) = {k. \<exists>t \<in> set (directTasks i). (t, k) \<in> (set (programEdgesOf program))\<^sup>*} \<and>
    sorted_wrt (<) (affectedTasks i) \<and> set (affectedTasks i) \<subseteq> set (simIds g) \<and>
    set (affectedEnds i) = {taskKey t | t. t \<in> set (templatesOf program) \<and> getp t ''opcode'' = JStr ''END'' \<and>
      taskKey t \<in> set (affectedTasks i)}"
proof -
  note g = graphFor_Inr [OF assms(1)]
  have i: "i = impactOf program g (usersOf program devices)"
      and known: "\<forall>d \<in> set devices. \<exists>t \<in> set (templatesOf program). d \<in> set (deviceIdsForTask t)"
    using assms(2) by (auto simp: whatIfImpact_def andThen_Inr filter_empty_conv uniqueSorted_def)
  have users: "set (usersOf program devices) =
      {taskKey t | t. t \<in> set (templatesOf program) \<and> (\<exists>d \<in> set devices. d \<in> set (deviceIdsForTask t))}"
    by (auto simp: usersOf_def list_ex_iff)
  have parts: "directTasks i = usersOf program devices" "affectedTasks i = descendants g (usersOf program devices)"
      "affectedEnds i = filter (\<lambda>k. k \<in> set (affectedTasks i)) (endKeys (templatesOf program))"
    by (simp_all add: i impactOf_def Let_def)
  have "(a, k) \<in> (set (programEdgesOf program))\<^sup>* \<Longrightarrow> a \<in> set (simIds g) \<Longrightarrow> k \<in> set (simIds g)" for a k
    by (induction rule: rtrancl_induct) (use g(4) in \<open>auto simp: list_all_iff knownEdge_def\<close>)
  moreover have "set (usersOf program devices) \<subseteq> set (simIds g)" unfolding users by (auto simp: g(3))
  ultimately have inside: "set (affectedTasks i) \<subseteq> set (simIds g)"
    unfolding parts graphFor_search(3) [OF assms(1)] by blast
  have ends: "set (affectedEnds i) = {taskKey t | t. t \<in> set (templatesOf program) \<and> getp t ''opcode'' = JStr ''END'' \<and>
      taskKey t \<in> set (affectedTasks i)}"
    unfolding parts(3) by (auto simp: endKeys_def)
  show ?thesis
    using known inside ends users graphFor_search(3,4) [OF assms(1), of "usersOf program devices"]
    unfolding parts(1,2) by blast
qed

section \<open>A diamond, evaluated\<close>

definition sampleTemplateRecord :: "string \<Rightarrow> string \<Rightarrow> string list \<Rightarrow> string list \<Rightarrow> jsval" where
  "sampleTemplateRecord i opcode predecessors devices = JObj
     [(''taskTemplateId'', JStr i), (''opcode'', JStr opcode), (''dependsOn'', textsValue predecessors),
      (''resources'', JObj [(''reads'', JArr []), (''writes'', JArr []), (''devices'', textsValue devices),
        (''externalEffects'', JArr [])])]"

definition diamondProgram :: jsval where
  "diamondProgram = JObj
     [(''taskTemplates'', JArr
        [sampleTemplateRecord ''a'' ''KERNEL'' [] [], sampleTemplateRecord ''b'' ''DEVICE'' [''a''] [''printer''],
         sampleTemplateRecord ''c'' ''KERNEL'' [''a''] [], sampleTemplateRecord ''d'' ''END'' [''b'', ''c''] []]),
      (''edges'', JArr (map (\<lambda>(a, b). JObj [(''from'', JStr a), (''to'', JStr b)])
        [(''a'', ''b''), (''a'', ''c''), (''b'', ''d''), (''c'', ''d'')]))]"

definition diamondGraph :: simulation_graph where
  "diamondGraph = projr (graphFor diamondProgram)"

lemma diamond:
  "graphFor diamondProgram = Inr diamondGraph" "criticalPath diamondGraph = [''a'', ''b'', ''d'']"
  "whatIfImpact diamondProgram diamondGraph [''printer''] =
     Inr \<lparr>directTasks = [''b''], affectedTasks = [''b'', ''d''], affectedEnds = [''d'']\<rparr>"
  "set (simIds diamondGraph) = {''a'', ''b'', ''c'', ''d''}" "pathIn (programEdgesOf diamondProgram) [''a'', ''c'', ''d'']"
  by code_simp+

theorem critical_path_longest_witness:
  "[''a'', ''b'', ''d''] \<le> [''a'', ''c'', ''d''] \<and> hd (criticalPath diamondGraph) \<in> set (simRoots diamondGraph)"
  using critical_path_longest [OF diamond(1)] diamond(2,4,5) by fastforce

theorem what_if_impact_exact_witness:
  "{''b'', ''d''} = {k. (''b'', k) \<in> (set (programEdgesOf diamondProgram))\<^sup>*}"
proof -
  have "set [''b'', ''d''] = {k. \<exists>t \<in> set [''b'']. (t, k) \<in> (set (programEdgesOf diamondProgram))\<^sup>*}"
    using what_if_impact_exact [OF diamond(1,3)] by (simp only: structural_impact.simps)
  then show ?thesis by simp
qed

end
