(* ===== verification/SgosCapabilityPack.thy ===== *)
theory SgosCapabilityPack
  imports SgosCompilerTasks
begin

text \<open>
  The part of \<open>src/sgos/capability-pack-authority.mjs\<close> the compiler runs: which Capability Pack a
  workflow selects, which authority object may stand for it, and which operations it allows. Loading
  a signed Pack from the Authority Store is not modelled; what the loader leaves behind for the
  compiler, the repository binding recorded in the \<open>WeakMap\<close> \<open>verifiedSelections\<close> for the very
  object it returned, is the argument \<open>proof\<close>: \<open>None\<close> for any other object.
\<close>

section \<open>Authorities\<close>

abbreviation packInvalid :: string where
  "packInvalid \<equiv> ''SGOS_CAPABILITY_PACK_AUTHORITY_INVALID''"

definition authorityFormat :: string where
  "authorityFormat = ''singularity-flow-sgos-capability-pack-authority/v1''"

definition coreManifest :: jsval where
  "coreManifest = JObj
     [(''format'', JStr ''singularity-flow-sgos-builtin-core-pack/v1''), (''packId'', JStr ''sflow-core''),
      (''version'', JStr ''1.0.0''), (''domain'', JStr ''core''), (''operationsPolicy'', JStr ''exact-registry-bound'')]"

definition coreAuthority :: "hash_function \<Rightarrow> jsval" where
  "coreAuthority H = JObj
     [(''format'', JStr authorityFormat), (''kind'', JStr ''built-in-core''),
      (''profile'', getp coreManifest ''format''), (''domain'', getp coreManifest ''domain''),
      (''packId'', getp coreManifest ''packId''), (''version'', getp coreManifest ''version''),
      (''packSha256'', JStr (sgosSha256 H coreManifest)),
      (''operationsPolicy'', getp coreManifest ''operationsPolicy'')]"

definition domainText :: "string \<Rightarrow> bool" where
  "domainText s \<longleftrightarrow> list_all (\<lambda>w. w \<noteq> [] \<and> list_all (\<lambda>c. isLower c \<or> isDigit c) w) (splitOn (CHR ''-'') s)"

definition packIdentifier :: "string \<Rightarrow> bool" where
  "packIdentifier s \<longleftrightarrow> 2 \<le> length s \<and> length s \<le> 128 \<and> (isLower (hd s) \<or> isDigit (hd s)) \<and>
     list_all (\<lambda>c. isLower c \<or> isDigit c \<or> c \<in> {CHR ''.'', CHR ''_'', CHR '':'', CHR ''-''}) (tl s)"

text \<open>\<open>/^\d+\.\d+\.\d+(?:-[a-z0-9.-]+)?$/\<close>.\<close>

definition versionText :: "string \<Rightarrow> bool" where
  "versionText s \<longleftrightarrow>
     (let r1 = dropWhile isDigit s; r2 = dropWhile isDigit (tl r1); r3 = dropWhile isDigit (tl r2) in
      takeWhile isDigit s \<noteq> [] \<and> r1 \<noteq> [] \<and> hd r1 = CHR ''.'' \<and>
      takeWhile isDigit (tl r1) \<noteq> [] \<and> r2 \<noteq> [] \<and> hd r2 = CHR ''.'' \<and>
      takeWhile isDigit (tl r2) \<noteq> [] \<and>
      (r3 = [] \<or> (hd r3 = CHR ''-'' \<and> tl r3 \<noteq> [] \<and>
         list_all (\<lambda>c. isLower c \<or> isDigit c \<or> c = CHR ''.'' \<or> c = CHR ''-'') (tl r3))))"

definition signedAuthorityFields :: "string list" where
  "signedAuthorityFields = [''format'', ''kind'', ''profile'', ''domain'', ''packId'', ''version'', ''packSha256'',
     ''operations'', ''authorityStoreId'', ''repositoryBindingSha256'', ''reviewSha256'',
     ''activationSha256'', ''publisherKeyId'', ''publisherKeySha256'']"

definition authorityKeys :: "jsval \<Rightarrow> string list \<Rightarrow> unit result" where
  "authorityKeys value names = checks
     [refuseIf (\<not> plainObject value) packInvalid,
      refuseIf (sortPoints (map fst (fieldsOf value)) \<noteq> sortPoints names) packInvalid]"

definition operationList :: "jsval \<Rightarrow> unit result" where
  "operationList value = checks
     [refuseIf (\<not> isArray value \<or> length (elements value) > 4096
        \<or> \<not> list_all (\<lambda>v. isString v \<and> stringOf v \<noteq> []) (elements value)) packInvalid,
      refuseIf (\<not> list_all (\<lambda>(a, b). stringOf a < stringOf b) (adjacentPairs (elements value))) packInvalid]"

definition validateSignedAuthority :: "jsval \<Rightarrow> unit result" where
  "validateSignedAuthority value =
     (let text = (\<lambda>k. jsString (getp value k)) in checks
       [authorityKeys value signedAuthorityFields,
        refuseIf (getp value ''format'' \<noteq> JStr authorityFormat \<or> getp value ''kind'' \<noteq> JStr ''signed-declarative''
          \<or> getp value ''profile'' \<noteq> JStr ''signed-declarative-local-v1'') packInvalid,
        refuseIf (\<not> domainText (text ''domain'') \<or> \<not> packIdentifier (text ''packId'') \<or> \<not> versionText (text ''version'')
          \<or> \<not> packIdentifier (text ''authorityStoreId'') \<or> \<not> packIdentifier (text ''publisherKeyId'')) packInvalid,
        refuseIf (\<not> list_all (\<lambda>k. sha256Pattern (text k))
          [''packSha256'', ''repositoryBindingSha256'', ''reviewSha256'', ''activationSha256'', ''publisherKeySha256''])
          packInvalid,
        operationList (getp value ''operations'')])"

definition validateSgosCapabilityPackAuthorities :: "hash_function \<Rightarrow> jsval \<Rightarrow> jsval result" where
  "validateSgosCapabilityPackAuthorities H value =
     (if \<not> isArray value \<or> length (elements value) \<noteq> 1 then fail ''SGOS_CAPABILITY_PACK_MULTI_DOMAIN_UNSUPPORTED''
      else
        let authority = elements value ! 0 in
        andThen (if getp authority ''kind'' = JStr ''built-in-core''
                 then refuseIf (canonicalJson authority \<noteq> canonicalJson (coreAuthority H))
                   ''SGOS_CAPABILITY_PACK_CORE_COUNTERFEIT''
                 else validateSignedAuthority authority) (\<lambda>_.
        andThen (refuseIf (getp authority ''kind'' = JStr ''legacy-core'') packInvalid) (\<lambda>_. Inr value)))"

definition sgosCapabilityPackAuthoritiesSha256 :: "hash_function \<Rightarrow> jsval \<Rightarrow> string result" where
  "sgosCapabilityPackAuthoritiesSha256 H authorities =
     andThen (validateSgosCapabilityPackAuthorities H authorities) (\<lambda>validated.
       let value = JObj [(''format'', JStr authorityFormat), (''authorities'', validated)] in
       if jsonSafe value then Inr (sgosSha256 H value) else fail ''SGOS_PLATFORM_CONTRACT_INVALID'')"

section \<open>Selection\<close>

record pack_selector =
  selectorBuiltIn :: bool
  selectorDomain :: string
  selectorSha256 :: jsval

definition workflowCapabilityPackSelector :: "hash_function \<Rightarrow> jsval \<Rightarrow> pack_selector result" where
  "workflowCapabilityPackSelector H workflow =
     (let metadata = getp workflow ''metadata'';
          name = trim (jsString (coalesce (getp metadata ''domainPack'') (JStr [])));
          sha = coalesce (getp metadata ''domainPackSha256'') JNull in
      if name = ''core'' \<or> name = ''core@1''
      then if sha \<noteq> JNull \<and> sha \<noteq> getp (coreAuthority H) ''packSha256''
           then fail ''SGOS_CAPABILITY_PACK_SELECTION_MISMATCH''
           else Inr \<lparr>selectorBuiltIn = True, selectorDomain = ''core'', selectorSha256 = JNull\<rparr>
      else if \<not> domainText name \<or> \<not> sha256Pattern (jsString (coalesce sha (JStr [])))
      then fail ''SGOS_CAPABILITY_PACK_SELECTION_REQUIRED''
      else Inr \<lparr>selectorBuiltIn = False, selectorDomain = name, selectorSha256 = sha\<rparr>)"

definition capabilityPackAuthoritiesForCompilation ::
    "hash_function \<Rightarrow> string option \<Rightarrow> jsval \<Rightarrow> jsval \<Rightarrow> jsval \<Rightarrow> jsval result" where
  "capabilityPackAuthoritiesForCompilation H proof workflow supplied binding =
     andThen (workflowCapabilityPackSelector H workflow) (\<lambda>selector.
       if selectorBuiltIn selector
       then if \<not> nullish supplied \<and> canonicalJson supplied \<noteq> canonicalJson (coreAuthority H)
            then fail ''SGOS_CAPABILITY_PACK_CORE_COUNTERFEIT'' else Inr (JArr [coreAuthority H])
       else case proof of None \<Rightarrow> fail ''SGOS_CAPABILITY_PACK_AUTHORITY_REQUIRED''
       | Some recorded \<Rightarrow>
           if nullish binding \<or> JStr recorded \<noteq> binding \<or> getp supplied ''repositoryBindingSha256'' \<noteq> binding
           then fail ''SGOS_CAPABILITY_PACK_REPOSITORY_MISMATCH''
           else if getp supplied ''domain'' \<noteq> JStr (selectorDomain selector)
             \<or> getp supplied ''packSha256'' \<noteq> selectorSha256 selector
           then fail ''SGOS_CAPABILITY_PACK_SELECTION_MISMATCH''
           else validateSgosCapabilityPackAuthorities H (JArr [supplied]))"

section \<open>Operations\<close>

definition referencedOperations :: "compiled_template \<Rightarrow> string list" where
  "referencedOperations t =
     (let verification = getp (JObj (compiledMetadata t)) ''verification''; operation = getp verification ''operation'';
          named = (if isString operation then operation
            else coalesceAll [getp operation ''id'', getp verification ''operationId'', JNull])
      in (case compiledOperation t of None \<Rightarrow> [] | Some k \<Rightarrow> [k])
         @ (if nullish named then [] else [jsString named]))"

definition referencedProgramOperations :: "compiled_template list \<Rightarrow> string list" where
  "referencedProgramOperations templates = sortPoints (dedupe (concat (map referencedOperations templates)))"

definition assertSgosCapabilityPackOperations ::
    "hash_function \<Rightarrow> compiled_template list \<Rightarrow> jsval \<Rightarrow> string list result" where
  "assertSgosCapabilityPackOperations H templates authorities =
     andThen (validateSgosCapabilityPackAuthorities H authorities) (\<lambda>validated.
       let authority = elements validated ! 0 in
       if getp authority ''kind'' = JStr ''built-in-core'' then Inr (referencedProgramOperations templates)
       else if list_ex (\<lambda>operation. JStr operation \<notin> set (elements (getp authority ''operations'')))
            (referencedProgramOperations templates)
       then fail ''SGOS_CAPABILITY_PACK_OPERATION_NOT_ALLOWED''
       else Inr (referencedProgramOperations templates))"

end
