(* ===== verification/SgosCompiler.thy ===== *)
theory SgosCompiler
  imports SgosCompilerGraph SgosCapabilityPack
begin

text \<open>
  The end of \<open>src/sgos/compiler.mjs\<close>: the coverage of intent clauses by tasks, and
  \<open>compileSgosProgramInternal\<close>, which runs every stage in order and creates the immutable Program.
\<close>

section \<open>Coverage\<close>

record mapping_entry =
  mappingKind :: string
  mappingTarget :: "string option"
  mappingValue :: jsval

definition optText :: "string option \<Rightarrow> jsval" where
  "optText t = (case t of None \<Rightarrow> JNull | Some s \<Rightarrow> JStr s)"

definition mappingTo :: "string \<Rightarrow> string option \<Rightarrow> fields \<Rightarrow> mapping_entry" where
  "mappingTo kind target raw = \<lparr>mappingKind = kind, mappingTarget = target,
     mappingValue = JObj ([(''kind'', JStr kind), (''targetId'', optText target)] @ raw)\<rparr>"

definition mappingFrom :: "string \<Rightarrow> string option \<Rightarrow> fields \<Rightarrow> mapping_entry" where
  "mappingFrom kind source raw = \<lparr>mappingKind = kind, mappingTarget = None,
     mappingValue = JObj ([(''kind'', JStr kind), (''sourceId'', optText source)] @ raw)\<rparr>"

text \<open>The mapping, and the \<open>raw\<close> field of an entry written as an object.\<close>

definition normalizeMappingEntry :: "string list \<Rightarrow> jsval \<Rightarrow> jsval \<Rightarrow> (string \<times> string option \<times> fields) option" where
  "normalizeMappingEntry taskIds fallbackKind value =
     (if isString value
      then if stringOf value \<in> set taskIds then Some (''task'', Some (stringOf value), [])
           else Some (jsString (coalesce fallbackKind value), None, [])
      else if \<not> plainObject value then None
      else
        let target = (if plainObject (getp value ''target'') then getp value ''target'' else value);
            targetId = firstValue [getp target ''targetId'', getp target ''taskId'', getp target ''workflowTaskId'',
              getp target ''id'', if isString (getp value ''target'') then getp value ''target'' else JNull];
            kind = firstValue [getp target ''targetKind'', getp target ''targetType'', getp target ''kind'',
              getp target ''type'', getp value ''mappingKind'', fallbackKind];
            kind' = (if \<not> truthy kind \<and> truthy targetId \<and> jsString targetId \<in> set taskIds then JStr ''task'' else kind)
        in Some (jsString (coalesce kind' (JStr ''unknown'')),
             if nullish targetId then None else Some (jsString targetId), [(''raw'', value)]))"

record coverage_maps =
  coverageByClause :: "(string \<times> mapping_entry list) list"
  coverageByTask :: "(string \<times> mapping_entry list) list"

definition appendTo :: "string \<Rightarrow> 'a list \<Rightarrow> (string \<times> 'a list) list \<Rightarrow> (string \<times> 'a list) list" where
  "appendTo k xs m = AList.update k (lookupList m k @ xs) m"

definition addClauseMapping :: "string list \<Rightarrow> string list \<Rightarrow> jsval \<Rightarrow> jsval \<Rightarrow> coverage_maps \<Rightarrow> coverage_maps" where
  "addClauseMapping clauseIds taskIds clause raw c =
     (let cid = jsString clause;
          mapped = List.map_filter (normalizeMappingEntry taskIds JNull) (flattened raw);
          tasks = List.map_filter (\<lambda>(kind, target, _). if kind = ''task'' then target else None) mapped
      in if cid \<notin> set clauseIds then c
         else c\<lparr>coverageByClause := appendTo cid (map (\<lambda>(k, t, raw). mappingTo k t raw) mapped) (coverageByClause c),
           coverageByTask := foldl (\<lambda>m t. if t \<noteq> [] \<and> t \<in> set taskIds
             then appendTo t [mappingFrom ''intent-clause'' (Some cid) []] m else m) (coverageByTask c) tasks\<rparr>)"

definition addTaskMapping :: "string list \<Rightarrow> string list \<Rightarrow> jsval \<Rightarrow> jsval \<Rightarrow> coverage_maps \<Rightarrow> coverage_maps" where
  "addTaskMapping clauseIds taskIds task raw c =
     (let tid = jsString task in
      if tid \<notin> set taskIds then c
      else foldl (\<lambda>c value.
        if isString value \<and> stringOf value \<in> set clauseIds
        then c\<lparr>coverageByTask := appendTo tid [mappingFrom ''intent-clause'' (Some (stringOf value)) []] (coverageByTask c),
          coverageByClause := appendTo (stringOf value) [mappingTo ''task'' (Some tid) []] (coverageByClause c)\<rparr>
        else case normalizeMappingEntry taskIds (JStr ''compiler-invariant'') value of None \<Rightarrow> c
        | Some (kind, target, raw) \<Rightarrow>
            c\<lparr>coverageByTask := appendTo tid [mappingFrom kind target raw] (coverageByTask c)\<rparr>) c (flattened raw))"

definition addLink :: "string list \<Rightarrow> string list \<Rightarrow> coverage_maps \<Rightarrow> jsval \<Rightarrow> coverage_maps" where
  "addLink clauseIds taskIds c mapping =
     (let clause = coalesceAll [getp mapping ''clauseId'', getp mapping ''intentClauseId'', getp mapping ''sourceId''];
          task = coalesce (getp mapping ''taskId'') (getp mapping ''targetTaskId'');
          c' = (if truthy clause then addClauseMapping clauseIds taskIds clause
                  (coalesceAll [getp mapping ''targets'', getp mapping ''target'', mapping]) c else c)
      in if truthy task \<and> truthy clause then addTaskMapping clauseIds taskIds task clause c' else c')"

definition addSource :: "string list \<Rightarrow> string list \<Rightarrow> coverage_maps \<Rightarrow> jsval \<Rightarrow> coverage_maps" where
  "addSource clauseIds taskIds c source =
     (let c1 = foldl (\<lambda>c (k, v). addClauseMapping clauseIds taskIds (JStr k) v c) c (fieldsOf (getp source ''clauses''));
          c2 = foldl (\<lambda>c (k, v). addTaskMapping clauseIds taskIds (JStr k) v c) c1 (fieldsOf (getp source ''tasks''))
      in foldl (addLink clauseIds taskIds) c2 (concat (map (\<lambda>k. elements (getp source k))
           [''mappings'', ''clauseMappings'', ''intentToWorkflow''])))"

text \<open>\<open>new Map(values.map((value) => [sha256(value), value]))\<close> in canonical order.\<close>

definition uniqueMappings :: "hash_function \<Rightarrow> mapping_entry list \<Rightarrow> mapping_entry list" where
  "uniqueMappings H ms =
     sortBy (\<lambda>a b. canonicalCompare (mappingValue a) (mappingValue b))
       (map snd (foldl (\<lambda>u m. AList.update (sgosSha256 H (mappingValue m)) m u) [] ms))"

definition collectCoverageMaps ::
    "hash_function \<Rightarrow> jsval \<Rightarrow> jsval \<Rightarrow> compiled_template list \<Rightarrow> intent_clause list \<Rightarrow> coverage_maps" where
  "collectCoverageMaps H workflow ratification templates clauses =
     (let taskIds = map compiledId templates; clauseIds = map clauseId clauses;
          start = \<lparr>coverageByClause = map (\<lambda>k. (k, [])) clauseIds, coverageByTask = map (\<lambda>k. (k, [])) taskIds\<rparr>;
          mapped = foldl (addSource clauseIds taskIds) start (coverageSources workflow ratification);
          own = foldl (\<lambda>c t. foldl (\<lambda>c k. addTaskMapping clauseIds taskIds (JStr (compiledId t)) (JStr k) c) c
            (compiledClauses t)) mapped templates
      in \<lparr>coverageByClause = map (\<lambda>(k, ms). (k, uniqueMappings H ms)) (coverageByClause own),
          coverageByTask = map (\<lambda>(k, ms). (k, uniqueMappings H ms)) (coverageByTask own)\<rparr>)"

definition allowedTargets :: "string list" where
  "allowedTargets = [''workflow-output'', ''output'', ''task'', ''gate'', ''human-decision'', ''human-request'',
     ''evidence-contract'', ''explicit-non-goal'', ''non-goal'', ''approved-deferment'', ''deferment'']"

definition allowedSources :: "string list" where
  "allowedSources = [''intent-clause'', ''policy'', ''domain-law'', ''domain'', ''verification'', ''recovery'',
     ''compiler-invariant'', ''explicit-non-goal'', ''approved-deferment'']"

definition validTarget :: "mapping_entry \<Rightarrow> bool" where
  "validTarget m \<longleftrightarrow> mappingKind m \<in> set allowedTargets \<and>
     (mappingKind m \<noteq> ''task'' \<or> (mappingTarget m \<noteq> None \<and> mappingTarget m \<noteq> Some []))"

definition assertCoverage :: "intent_clause list \<Rightarrow> compiled_template list \<Rightarrow> coverage_maps \<Rightarrow> unit result" where
  "assertCoverage clauses templates coverage = checks
     [eachOf (\<lambda>c. refuseIf (\<not> list_ex validTarget (lookupList (coverageByClause coverage) (clauseId c)))
        ''SGOS_INTENT_CLAUSE_UNMAPPED'') (filter clauseRequired clauses),
      eachOf (\<lambda>t. refuseIf (\<not> list_ex (\<lambda>m. mappingKind m \<in> set allowedSources)
          (lookupList (coverageByTask coverage) (compiledId t))) ''SGOS_ORPHAN_TASK'')
        (filter compiledMaterial templates)]"

section \<open>The Program\<close>

definition requestTemplates :: "hash_function \<Rightarrow> jsval \<Rightarrow> registry_catalog \<Rightarrow> compiled_template list result" where
  "requestTemplates H workflow catalog =
     andThen (expandedTaskEntries H workflow) (\<lambda>listed.
     andThen (foldResult (\<lambda>templates (rawId, task).
         let taskId = trim rawId in
         if taskId \<in> set (map compiledId templates) then fail ''SGOS_TASK_ID_DUPLICATE''
         else andThen (taskTemplate workflow taskId task catalog) (\<lambda>t. Inr (templates @ [t]))) [] listed) (\<lambda>templates.
       if templates = [] then fail ''SGOS_WORKFLOW_TASKS_INVALID''
       else Inr (sortBy (byKey compiledId) templates)))"

definition withPredecessors :: "edge_list \<Rightarrow> compiled_template \<Rightarrow> compiled_template" where
  "withPredecessors edges t =
     t\<lparr>compiledDependsOn := sortedTexts (map (\<lambda>e. JStr (fst e)) (filter (\<lambda>e. snd e = compiledId t) edges))\<rparr>"

definition manualAuthority :: "compiled_template list \<Rightarrow> join_contract \<Rightarrow> unit result" where
  "manualAuthority templates join =
     refuseIf (joinPolicy join = ManualReconcile \<and>
         \<not> (case find (\<lambda>t. compiledId t = joinTemplate join) templates of None \<Rightarrow> False
            | Some t \<Rightarrow> present (compiledAuthority t)))
       ''SGOS_HUMAN_AUTHORITY_REQUIRED''"

definition edgeValue :: "string \<times> string \<Rightarrow> jsval" where
  "edgeValue e = JObj [(''from'', JStr (fst e)), (''to'', JStr (snd e))]"

definition programSeed ::
    "pinned_digests \<Rightarrow> string \<Rightarrow> compiled_template list \<Rightarrow> edge_list \<Rightarrow> join_contract list \<Rightarrow> jsval \<Rightarrow> jsval list
     \<Rightarrow> string \<Rightarrow> jsval" where
  "programSeed pins ratificationSha templates edges joins workflow conditions sourceSha = JObj
     [(''kind'', JStr ''gvm-program''), (''intentIrSha256'', JStr (pinnedIntent pins)),
      (''workflowSha256'', JStr (pinnedWorkflow pins)), (''ratificationSha256'', JStr ratificationSha),
      (''policySnapshotSha256'', JStr (pinnedPolicy pins)), (''registrySnapshotSha256'', JStr (pinnedRegistry pins)),
      (''storageProfileSha256'', JStr (pinnedStorage pins)),
      (''taskTemplates'', JArr (map templateValue templates)), (''edges'', JArr (map edgeValue edges)),
      (''joins'', JArr (map joinValue joins)),
      (''budgets'', coalesce (getp (getp workflow ''spec'') ''budgets'') (JObj [])),
      (''recoveryPolicy'', coalesce (getp (getp workflow ''spec'') ''recovery'') (JObj [])),
      (''terminalConditions'', JArr (sortBy canonicalCompare conditions)),
      (''compiler'', JObj [(''id'', JStr ''sflow-gvm-compiler''), (''version'', JStr ''4''),
        (''sourceSha256'', JStr sourceSha)])]"

definition compilerExplanation :: "jsval \<Rightarrow> task_graph \<Rightarrow> jsval" where
  "compilerExplanation program graph =
     (let tasks = elements (getp program ''taskTemplates''); texts = (\<lambda>ids. JArr (map JStr ids)) in JObj
       [(''kind'', JStr ''gvm-program-explanation''), (''programId'', getp program ''programId''),
        (''programSha256'', getp program ''programSha256''), (''compiler'', getp program ''compiler''),
        (''deterministic'', JBool True),
        (''pinnedSnapshots'', JObj (map (\<lambda>k. (k, getp program k))
          [''policySnapshotSha256'', ''registrySnapshotSha256'', ''storageProfileSha256''])),
        (''graph'', JObj
          [(''taskCount'', JNum (int (length tasks))),
           (''edgeCount'', JNum (int (length (elements (getp program ''edges''))))),
           (''roots'', texts (graphRoots graph)),
           (''terminalTaskIds'', texts (sortPoints (map (\<lambda>t. stringOf (getp t ''taskTemplateId''))
              (filter (\<lambda>t. getp t ''opcode'' = JStr ''END'') tasks)))),
           (''topologicalOrder'', texts (graphOrder graph))]),
        (''tasks'', JArr (map (\<lambda>t. JObj (map (\<lambda>k. (k, getp t k))
            [''taskTemplateId'', ''opcode'', ''dependsOn'', ''intentClauseIds'', ''material'']
          @ [(''receiptRequired'', JBool True)])) tasks))])"

record compile_output =
  outputProgram :: jsval
  outputAuthorities :: jsval
  outputExplanation :: jsval

text \<open>What is bound to what: the workflow to the intent, the policy and the storage profile.\<close>

definition assertWorkflowBindings :: "jsval \<Rightarrow> pinned_digests \<Rightarrow> unit result" where
  "assertWorkflowBindings workflow pins = checks
     [refuseIf (truthy (getp workflow ''intentIrSha256'') \<and> getp workflow ''intentIrSha256'' \<noteq> JStr (pinnedIntent pins))
        ''SGOS_WORKFLOW_INTENT_MISMATCH'',
      refuseIf (truthy (getp workflow ''policySnapshotSha256'')
          \<and> getp workflow ''policySnapshotSha256'' \<noteq> JStr (pinnedPolicy pins))
        ''SGOS_WORKFLOW_POLICY_MISMATCH'',
      refuseIf (getp (getp (getp workflow ''spec'') ''storageRequirements'') ''profileSha256'' \<noteq> JStr (pinnedStorage pins))
        ''SGOS_WORKFLOW_STORAGE_MISMATCH'']"

text \<open>The graph of the templates, with every whole-graph check passed.\<close>

definition checkedGraph :: "jsval \<Rightarrow> compiled_template list \<Rightarrow> (edge_list \<times> task_graph \<times> string list) result" where
  "checkedGraph workflow templates =
     andThen (assertCompileCeilings workflow templates) (\<lambda>_.
     andThen (buildEdges workflow templates) (\<lambda>edges.
     andThen (graphFacts (map compiledId templates) edges) (\<lambda>graph.
     andThen (assertTerminalReachability templates graph) (\<lambda>ends.
     andThen (assertCopilotProposalGates templates graph) (\<lambda>_.
     andThen (assertParallelSafety templates graph) (\<lambda>_. Inr (edges, graph, ends)))))))"

definition terminalConditions :: "jsval \<Rightarrow> string list \<Rightarrow> jsval list result" where
  "terminalConditions workflow ends =
     (let conditions = coalesce (getp (getp workflow ''spec'') ''terminalConditions'')
        (JArr (map (\<lambda>t. JObj [(''taskTemplateId'', JStr t), (''state'', JStr ''succeeded'')]) ends)) in
      if \<not> isArray conditions \<or> elements conditions = [] then fail ''SGOS_TERMINAL_UNREACHABLE''
      else Inr (elements conditions))"

definition compileSgosProgramInternal ::
    "hash_function \<Rightarrow> string option \<Rightarrow> jsval \<Rightarrow> jsval \<Rightarrow> compile_output result" where
  "compileSgosProgramInternal H proof requestValue binding =
     andThen (normalizeRequest requestValue) (\<lambda>request.
     andThen (validateCompileContract (requestIntent request) (validateIntentIr H) ''SGOS_INTENT_CONTRACT_INVALID'') (\<lambda>intent.
     andThen (validateCompileContract (requestWorkflow request) (validateWorkflowIr H)
       ''SGOS_WORKFLOW_CONTRACT_INVALID'') (\<lambda>workflow.
     andThen (validateCompileContract (requestRatification request) (validateWorkflowRatification H)
       ''SGOS_RATIFICATION_CONTRACT_INVALID'') (\<lambda>ratification.
     andThen (capabilityPackAuthoritiesForCompilation H proof workflow (requestPackAuthority request) binding) (\<lambda>authorities.
     andThen (requireDigest (requestPolicySha256 request)) (\<lambda>policySha.
     andThen (requireDigest (requestRegistrySha256 request)) (\<lambda>registrySha.
     andThen (requireDigest (requestStorageSha256 request)) (\<lambda>storageSha.
     andThen (validateRegistrySnapshot H (requestRegistry request) registrySha) (\<lambda>catalog.
     andThen (recordDigest H intent ''intentIrSha256'') (\<lambda>intentSha.
     andThen (recordDigest H workflow ''workflowSha256'') (\<lambda>workflowSha.
     let pins = \<lparr>pinnedIntent = intentSha, pinnedWorkflow = workflowSha, pinnedPolicy = policySha,
       pinnedRegistry = registrySha, pinnedStorage = storageSha\<rparr> in
     andThen (assertWorkflowBindings workflow pins) (\<lambda>_.
     andThen (assertRatificationBindings ratification pins) (\<lambda>_.
     andThen (assertRequestCoverageWasRatified (requestCoverage request) workflow ratification) (\<lambda>_.
     andThen (recordDigest H ratification ''ratificationSha256'') (\<lambda>ratificationSha.
     andThen (extractConfirmedClauses intent) (\<lambda>clauses.
     andThen (requestTemplates H workflow catalog) (\<lambda>initial.
     andThen (checkedGraph workflow initial) (\<lambda>(edges, graph, ends).
     let templates = map (withPredecessors edges) initial in
     andThen (assertCoverage clauses templates (collectCoverageMaps H workflow ratification templates clauses)) (\<lambda>_.
     andThen (joinsForProgram workflow templates) (\<lambda>joins.
     andThen (eachOf (manualAuthority templates) joins) (\<lambda>_.
     andThen (terminalConditions workflow ends) (\<lambda>conditions.
     andThen (assertSgosCapabilityPackOperations H templates authorities) (\<lambda>_.
     andThen (sgosCapabilityPackAuthoritiesSha256 H authorities) (\<lambda>sourceSha.
     andThen (createGvmProgram H (programSeed pins ratificationSha templates edges joins workflow conditions sourceSha)) (\<lambda>program.
       Inr \<lparr>outputProgram = program, outputAuthorities = authorities,
         outputExplanation = compilerExplanation program graph\<rparr>)))))))))))))))))))))))))"

definition compileSgosProgram :: "hash_function \<Rightarrow> string option \<Rightarrow> jsval \<Rightarrow> compile_output result" where
  "compileSgosProgram H proof requestValue = compileSgosProgramInternal H proof requestValue JNull"

section \<open>The compiled Program\<close>

lemma safeId_trimmed: "safeId s \<Longrightarrow> trim s = s \<and> s \<noteq> []"
proof -
  assume "safeId s"
  then have s: "s \<noteq> []" "isAlnum (hd s)"
      "list_all (\<lambda>c. isAlnum c \<or> c \<in> {CHR ''.'', CHR ''_'', CHR '':'', CHR ''-''}) (tl s)"
    by (auto simp: safeId_def)
  then have "isAlnum (last s) \<or> last s \<in> {CHR ''.'', CHR ''_'', CHR '':'', CHR ''-''}"
    by (cases s) (auto simp: list_all_iff)
  moreover have "\<not> isSpace c" if "isAlnum c \<or> c \<in> {CHR ''.'', CHR ''_'', CHR '':'', CHR ''-''}" for c
    using that by (auto simp: isSpace_def isAlnum_def isDigit_def isLower_def isUpper_def codePoint_def)
  ultimately show ?thesis using s by (intro conjI trim_fixpoint) blast+
qed

lemma requestTemplates_Inr:
  assumes "requestTemplates H workflow catalog = Inr templates"
  shows "sorted_wrt (<) (map compiledId templates)" "list_all (\<lambda>t. safeId (compiledId t)) templates" "templates \<noteq> []"
proof -
  let ?step = "\<lambda>templates (rawId, task). let taskId = trim rawId in
         if taskId \<in> set (map compiledId templates) then fail ''SGOS_TASK_ID_DUPLICATE''
         else andThen (taskTemplate workflow taskId task catalog) (\<lambda>t. Inr (templates @ [t]))"
  from assms obtain listed ts where loop: "foldResult ?step [] listed = Inr ts"
      and ts: "ts \<noteq> []" "templates = sortBy (byKey compiledId) ts"
    by (auto simp: requestTemplates_def andThen_Inr Let_def split: if_splits)
  have "distinct (map compiledId ts) \<and> list_all (\<lambda>t. safeId (compiledId t)) ts"
  proof (rule foldResult_keeps [OF loop])
    fix u x v assume step: "?step u x = Inr v" and u: "distinct (map compiledId u) \<and> list_all (\<lambda>t. safeId (compiledId t)) u"
    obtain rawId task where x: "x = (rawId, task)" by (cases x)
    from step obtain t where t: "trim rawId \<notin> set (map compiledId u)" "taskTemplate workflow (trim rawId) task catalog = Inr t"
        "v = u @ [t]"
      by (auto simp: x Let_def andThen_Inr split: if_splits)
    have "safeId (trim rawId)" "compiledId t = trim rawId" by (rule taskTemplate_steps [OF t(2)], assumption)+
    with t u show "distinct (map compiledId v) \<and> list_all (\<lambda>t. safeId (compiledId t)) v" by simp
  qed simp
  then show "sorted_wrt (<) (map compiledId templates)" "list_all (\<lambda>t. safeId (compiledId t)) templates" "templates \<noteq> []"
    using ts by (simp_all add: sortBy_byKey_keys sortPoints_sort strict_sorted_iff list_all_iff)
qed

lemma withPredecessors_same [simp]:
  "compiledId (withPredecessors edges t) = compiledId t" "compiledOpcode (withPredecessors edges t) = compiledOpcode t"
  "compiledResources (withPredecessors edges t) = compiledResources t"
  by (simp_all add: withPredecessors_def)

lemma withPredecessors_depends:
  assumes "list_all (knownEdge ids) edges" "list_all safeId ids"
  shows "sorted_wrt (<) (compiledDependsOn (withPredecessors edges t))"
    "set (compiledDependsOn (withPredecessors edges t)) = {a. (a, compiledId t) \<in> set edges}"
proof -
  show "sorted_wrt (<) (compiledDependsOn (withPredecessors edges t))"
    by (simp add: withPredecessors_def sortedTexts_sorted)
  have "trim a = a \<and> a \<noteq> []" if "(a, b) \<in> set edges" for a b
    using assms that safeId_trimmed [of a] by (auto simp: list_all_iff knownEdge_def)
  then show "set (compiledDependsOn (withPredecessors edges t)) = {a. (a, compiledId t) \<in> set edges}"
    by (force simp: withPredecessors_def sortedTexts_set)
qed

lemma checkedGraph_Inr:
  assumes "checkedGraph workflow templates = Inr (edges, graph, ends)"
  shows "assertCompileCeilings workflow templates = Inr ()" "buildEdges workflow templates = Inr edges"
    "graphFacts (map compiledId templates) edges = Inr graph" "assertTerminalReachability templates graph = Inr ends"
    "assertCopilotProposalGates templates graph = Inr ()" "assertParallelSafety templates graph = Inr ()"
  using assms by (auto simp: checkedGraph_def andThen_Inr)

text \<open>The stages of a successful compilation.\<close>

lemma compile_stages:
  assumes "compileSgosProgramInternal H proof requestValue binding = Inr out"
  obtains request intent workflow ratification catalog pins ratificationSha clauses initial edges graph ends joins conditions sourceSha
  where "normalizeRequest requestValue = Inr request"
    "validateIntentIr H (requestIntent request) = Inr intent" "validateWorkflowIr H (requestWorkflow request) = Inr workflow"
    "validateWorkflowRatification H (requestRatification request) = Inr ratification"
    "validateRegistrySnapshot H (requestRegistry request) (pinnedRegistry pins) = Inr catalog"
    "assertWorkflowBindings workflow pins = Inr ()" "assertRatificationBindings ratification pins = Inr ()"
    "extractConfirmedClauses intent = Inr clauses" "requestTemplates H workflow catalog = Inr initial"
    "checkedGraph workflow initial = Inr (edges, graph, ends)"
    "assertCoverage clauses (map (withPredecessors edges) initial)
       (collectCoverageMaps H workflow ratification (map (withPredecessors edges) initial) clauses) = Inr ()"
    "joinsForProgram workflow (map (withPredecessors edges) initial) = Inr joins"
    "createGvmProgram H (programSeed pins ratificationSha (map (withPredecessors edges) initial) edges joins workflow
       conditions sourceSha) = Inr (outputProgram out)"
    "outputExplanation out = compilerExplanation (outputProgram out) graph"
proof -
  from assms obtain request intent workflow ratification authorities policySha registrySha storageSha catalog intentSha
      workflowSha ratificationSha clauses initial checked joins conditions sourceSha program operations where steps:
    "normalizeRequest requestValue = Inr request"
    "validateIntentIr H (requestIntent request) = Inr intent" "validateWorkflowIr H (requestWorkflow request) = Inr workflow"
    "validateWorkflowRatification H (requestRatification request) = Inr ratification"
    "validateRegistrySnapshot H (requestRegistry request) registrySha = Inr catalog"
    "assertWorkflowBindings workflow \<lparr>pinnedIntent = intentSha, pinnedWorkflow = workflowSha, pinnedPolicy = policySha,
       pinnedRegistry = registrySha, pinnedStorage = storageSha\<rparr> = Inr ()"
    "assertRatificationBindings ratification \<lparr>pinnedIntent = intentSha, pinnedWorkflow = workflowSha,
       pinnedPolicy = policySha, pinnedRegistry = registrySha, pinnedStorage = storageSha\<rparr> = Inr ()"
    "extractConfirmedClauses intent = Inr clauses" "requestTemplates H workflow catalog = Inr initial"
    "checkedGraph workflow initial = Inr checked"
    "assertCoverage clauses (map (withPredecessors (fst checked)) initial)
       (collectCoverageMaps H workflow ratification (map (withPredecessors (fst checked)) initial) clauses) = Inr ()"
    "joinsForProgram workflow (map (withPredecessors (fst checked)) initial) = Inr joins"
    "createGvmProgram H (programSeed \<lparr>pinnedIntent = intentSha, pinnedWorkflow = workflowSha, pinnedPolicy = policySha,
       pinnedRegistry = registrySha, pinnedStorage = storageSha\<rparr> ratificationSha
       (map (withPredecessors (fst checked)) initial) (fst checked) joins workflow conditions sourceSha) = Inr program"
    "\<lparr>outputProgram = program, outputAuthorities = authorities,
       outputExplanation = compilerExplanation program (fst (snd checked))\<rparr> = out"
    unfolding compileSgosProgramInternal_def Let_def andThen_Inr case_prod_beta validateCompileContract_def recode_Inr sum.inject
    by (elim exE conjE) simp
  obtain edges graph ends where "checked = (edges, graph, ends)" by (cases checked) auto
  with steps show thesis
    by (intro that [of request intent workflow ratification "\<lparr>pinnedIntent = intentSha, pinnedWorkflow = workflowSha,
      pinnedPolicy = policySha, pinnedRegistry = registrySha, pinnedStorage = storageSha\<rparr>" catalog clauses initial edges
      graph ends joins ratificationSha conditions sourceSha]) auto
qed

lemma created_program:
  assumes "createGvmProgram H seed = Inr program" "plainObject seed"
  shows "validateGvmProgram H program = Inr program"
    "k \<notin> {''schemaVersion'', ''kind'', ''programSha256'', ''programId'', ''joins''} \<Longrightarrow> getp program k = getp seed k"
proof -
  from assms(1) have created: "createContract H ''gvm-program'' (validateGvmProgramRecord H) prepareGvmProgram
      (allBut [''programId'', ''schemaVersion'', ''kind'']) seed = Inr program"
    by (simp add: createGvmProgram_def)
  show "validateGvmProgram H program = Inr program"
    unfolding validateGvmProgram_def by (rule programRecords.created_read_back [OF created])
  assume k: "k \<notin> {''schemaVersion'', ''kind'', ''programSha256'', ''programId'', ''joins''}"
  have contract: "descriptorHash (contractOf ''gvm-program'') = ''programSha256''"
      "descriptorId (contractOf ''gvm-program'') = Some ''programId''"
    by code_simp+
  obtain p where p: "prepareGvmProgram (stampedRecord ''gvm-program'' (fieldsOf seed)) = Inr p"
      and same: "plainObject p \<longrightarrow> (\<forall>k. k \<noteq> descriptorHash (contractOf ''gvm-program'') \<and>
        descriptorId (contractOf ''gvm-program'') \<noteq> Some k \<longrightarrow> getp program k = getp p k)"
    using createContract_Inr [OF created] by blast
  from p obtain joins where joins: "p = overwrite (stampedRecord ''gvm-program'' (fieldsOf seed)) [(''joins'', joins)]"
    by (auto simp: prepareGvmProgram_def andThen_Inr)
  obtain fs where fs: "seed = JObj fs" using assms(2) by (auto simp: plainObject_iff)
  have "getp p k = getp (stampedRecord ''gvm-program'' (fieldsOf seed)) k"
    using k by (simp add: joins overwrite_def spread_fields getp_setField stampedRecord_def del: getp.simps)
  also have "\<dots> = getp seed k"
    using k stamped_field [of k "''gvm-program''" fs] by (simp add: contract fs del: getp.simps)
  finally have "getp p k = getp seed k" .
  moreover have "plainObject p" by (simp add: joins overwrite_def)
  moreover have "k \<noteq> descriptorHash (contractOf ''gvm-program'') \<and> descriptorId (contractOf ''gvm-program'') \<noteq> Some k"
    unfolding contract using k by blast
  ultimately show "getp program k = getp seed k" using same by simp
qed

lemma programSeed_fields:
  "plainObject (programSeed pins r templates edges joins w c s)"
  "getp (programSeed pins r templates edges joins w c s) ''taskTemplates'' = JArr (map templateValue templates)"
  "getp (programSeed pins r templates edges joins w c s) ''edges'' = JArr (map edgeValue edges)"
  "getp (programSeed pins r templates edges joins w c s) ''intentIrSha256'' = JStr (pinnedIntent pins)"
  "getp (programSeed pins r templates edges joins w c s) ''workflowSha256'' = JStr (pinnedWorkflow pins)"
  by (simp_all add: programSeed_def)

definition wellConnected :: "compiled_template list \<Rightarrow> edge_list \<Rightarrow> bool" where
  "wellConnected templates edges \<longleftrightarrow>
     sorted_wrt (<) (map compiledId templates) \<and> acyclic (set edges) \<and>
     (\<forall>t \<in> set templates. sorted_wrt (<) (compiledDependsOn t) \<and>
        set (compiledDependsOn t) = {a. (a, compiledId t) \<in> set edges} \<and>
        (\<exists>e \<in> set templates. compiledOpcode e = END \<and> (compiledId t, compiledId e) \<in> (set edges)\<^sup>*)) \<and>
     (\<forall>i j. i < j \<and> j < length templates \<longrightarrow>
        (compiledId (templates ! i), compiledId (templates ! j)) \<in> (set edges)\<^sup>* \<or>
        (compiledId (templates ! j), compiledId (templates ! i)) \<in> (set edges)\<^sup>* \<or>
        conflictKeys (compiledResources (templates ! i)) (compiledResources (templates ! j)) = [])"

lemma checked_wellConnected:
  assumes "checkedGraph workflow initial = Inr (edges, graph, ends)"
    and "sorted_wrt (<) (map compiledId initial)" "list_all (\<lambda>t. safeId (compiledId t)) initial"
  shows "wellConnected (map (withPredecessors edges) initial) edges"
proof -
  note stages = checkedGraph_Inr [OF assms(1)]
  note g = graphFacts_maps [OF stages(3)]
  have "distinct (map compiledId initial)" using assms(2) by (simp add: strict_sorted_iff)
  then have acyclic: "acyclic (set edges)" using graphFacts_correct [of "map compiledId initial" edges] stages(3) by blast
  have ids: "list_all safeId (map compiledId initial)" using assms(3) by (simp add: list_all_iff)
  have depends: "sorted_wrt (<) (compiledDependsOn (withPredecessors edges t))"
      "set (compiledDependsOn (withPredecessors edges t)) = {a. (a, compiledId t) \<in> set edges}" for t
    using withPredecessors_depends [OF g(4) ids] by blast+
  have ends: "\<exists>e \<in> set initial. compiledOpcode e = END \<and> (compiledId t, compiledId e) \<in> (set edges)\<^sup>*" if "t \<in> set initial" for t
    using terminals_Inr(1,4) [OF stages(4,3)] that by (auto simp: endTasks_def)
  have pairs: "(compiledId (initial ! i), compiledId (initial ! j)) \<in> (set edges)\<^sup>* \<or>
      (compiledId (initial ! j), compiledId (initial ! i)) \<in> (set edges)\<^sup>* \<or>
      conflictKeys (compiledResources (initial ! i)) (compiledResources (initial ! j)) = []"
    if "i < j" "j < length initial" for i j
  proof -
    have "pairCheck graph (initial ! i, initial ! j) = Inr ()"
      using stages(6) laterPairs_nth [OF that] by (simp add: assertParallelSafety_def eachOf_Inr)
    then show ?thesis unfolding pairCheck_Inr g(5) .
  qed
  show ?thesis
    unfolding wellConnected_def using assms(2) acyclic depends ends pairs by (simp add: comp_def)
qed

section \<open>A request, evaluated\<close>

text \<open>
  A workflow of one registered operation and the terminal task behind it, with every record sealed
  under the constant hash: the compiler accepts it.
\<close>

definition sampleIntentCore :: fields where
  "sampleIntentCore =
     [(''intentId'', JStr ''INT-ABCDEF''), (''generation'', JNum 1),
      (''objective'', JObj [(''statement'', JStr ''build it''), (''provenance'', JStr ''explicit'')])]
     @ map (\<lambda>k. (k, JArr [])) intentArrays
     @ [(''subjects'', JArr []), (''schemaVersion'', JNum 1), (''kind'', JStr ''intent-ir'')]"

definition sealed :: "string \<Rightarrow> fields \<Rightarrow> jsval" where
  "sealed h core = JObj (core @ [(h, JStr (sgosSha256 sampleHash (JObj core)))])"

definition sampleIntent :: jsval where "sampleIntent = sealed ''intentIrSha256'' sampleIntentCore"

definition sampleTasks :: jsval where
  "sampleTasks = JObj
     [(''done'', JObj [(''kind'', JStr ''end''), (''dependsOn'', JArr [JStr ''build''])]),
      (''build'', JObj [(''kind'', JStr ''task''), (''operation'', JStr ''build.run''),
        (''evidence'', JObj [(''report'', JStr ''log'')]),
        (''intentClauseIds'', JArr [JStr ''INT-ABCDEF:objective''])])]"

definition sampleWorkflowCore :: fields where
  "sampleWorkflowCore =
     [(''apiVersion'', JStr ''sflow/v1''), (''workflowId'', JStr ''WFL-ABCDEF''), (''version'', JStr ''1''),
      (''intentIrSha256'', JStr sampleDigest), (''policySnapshotSha256'', JStr sampleDigest),
      (''metadata'', JObj [(''id'', JStr ''w''), (''version'', JStr ''1''), (''domainPack'', JStr ''core'')]),
      (''spec'', JObj
        [(''inputs'', JObj []), (''tasks'', sampleTasks), (''joins'', JObj []),
         (''terminalConditions'', JArr [JStr ''done'']),
         (''budgets'', JObj [(''maximumTasks'', JNum 10), (''maximumAttempts'', JNum 1)]),
         (''recovery'', JObj []), (''evidence'', JObj []), (''authority'', JObj []),
         (''storageRequirements'', JObj [(''profileSha256'', JStr sampleDigest)])]),
      (''schemaVersion'', JNum 1), (''kind'', JStr ''workflow-ir'')]"

definition sampleWorkflowIr :: jsval where "sampleWorkflowIr = sealed ''workflowSha256'' sampleWorkflowCore"

definition sampleRatificationCore :: fields where
  "sampleRatificationCore =
     [(''ratificationId'', JStr ''RAT-ABCDEF''), (''decision'', JStr ''approved''),
      (''principal'', JObj [(''id'', JStr ''u''), (''kind'', JStr ''human'')]),
      (''decidedAt'', JStr ''2024-01-01T00:00:00Z''), (''schemaVersion'', JNum 1), (''kind'', JStr ''workflow-ratification'')]
     @ map (\<lambda>k. (k, JStr sampleDigest)) ratifiedDigests"

definition sampleRatification :: jsval where
  "sampleRatification = sealed ''ratificationSha256'' sampleRatificationCore"

definition sampleRegistry :: jsval where
  "sampleRegistry = JObj [(''kind'', JStr ''registry-snapshot''), (''operations'', JObj [(''build.run'', sampleEntry)]),
     (''taskKinds'', JArr []), (''devices'', JArr []), (''registrySnapshotSha256'', JStr sampleDigest)]"

definition sampleRequest :: jsval where
  "sampleRequest = JObj [(''storageProfileSha256'', JStr sampleDigest), (''intentIr'', sampleIntent), (''workflowIr'', sampleWorkflowIr), (''ratification'', sampleRatification),
    (''registrySnapshot'', sampleRegistry)]"
lemma sampleRequest_compiles: "\<not> isl (compileSgosProgram sampleHash None sampleRequest)"
  by code_simp

text \<open>
  C2: What a compiled Program is. The output of a successful compilation is a Program its own
  contract reads back unchanged; its templates are those of the workflow, strictly sorted, its
  edges form an acyclic graph, every template lists exactly its predecessors, every task reaches
  an END task, and two tasks that no path orders have no conflicting resources.
\<close>
theorem compiled_program_sound:
  assumes "compileSgosProgram H proof requestValue = Inr out"
  shows "validateGvmProgram H (outputProgram out) = Inr (outputProgram out) \<and>
    (\<exists>templates edges. getp (outputProgram out) ''taskTemplates'' = JArr (map templateValue templates) \<and>
       getp (outputProgram out) ''edges'' = JArr (map edgeValue edges) \<and>
       wellConnected templates edges)"
proof -
  obtain request intent workflow ratification catalog pins ratificationSha clauses initial edges graph ends joins conditions sourceSha
    where templates: "requestTemplates H workflow catalog = Inr initial"
      and checked: "checkedGraph workflow initial = Inr (edges, graph, ends)"
      and program: "createGvmProgram H (programSeed pins ratificationSha (map (withPredecessors edges) initial) edges joins
        workflow conditions sourceSha) = Inr (outputProgram out)"
    using compile_stages [OF assms [unfolded compileSgosProgram_def]] by metis
  note fields = created_program [OF program programSeed_fields(1)]
  have "wellConnected (map (withPredecessors edges) initial) edges"
    using checked_wellConnected [OF checked] requestTemplates_Inr [OF templates] by blast
  moreover have "getp (outputProgram out) ''taskTemplates'' = JArr (map templateValue (map (withPredecessors edges) initial))"
      "getp (outputProgram out) ''edges'' = JArr (map edgeValue edges)"
    using fields(2) [of "''taskTemplates''"] fields(2) [of "''edges''"] by (simp_all add: programSeed_fields)
  ultimately show ?thesis using fields(1) by blast
qed

theorem compiled_program_sound_witness:
  "\<exists>out. compileSgosProgram sampleHash None sampleRequest = Inr out \<and>
     validateGvmProgram sampleHash (outputProgram out) = Inr (outputProgram out) \<and>
     (\<exists>templates edges. getp (outputProgram out) ''taskTemplates'' = JArr (map templateValue templates) \<and>
        getp (outputProgram out) ''edges'' = JArr (map edgeValue edges) \<and>
        wellConnected templates edges)"
proof -
  obtain out where "compileSgosProgram sampleHash None sampleRequest = Inr out"
    using sampleRequest_compiles by (cases "compileSgosProgram sampleHash None sampleRequest") auto
  with compiled_program_sound [OF this] show ?thesis by blast
qed

end
