(* ===== verification/SgosProgramRead.thy ===== *)
theory SgosProgramRead
  imports SgosSimulation SgosCompiler
begin

text \<open>
  The read side of \<open>src/sgos/compiler.mjs\<close>: \<open>validateProgramForRead\<close>, \<open>explainSgosProgram\<close>,
  \<open>simulateSgosProgram\<close> and the recompilation from a verified receipt; and what they make of a Program
  the compiler has just produced.
\<close>

section \<open>Reading a Program back\<close>

definition templateIds :: "jsval \<Rightarrow> string list" where
  "templateIds program = map taskKey (templatesOf program)"

definition endReachability :: "jsval list \<Rightarrow> task_graph \<Rightarrow> string list result" where
  "endReachability templates graph =
     (let ends = endKeys templates; reach = reachableFrom ends (graphReverse graph) in
      andThen (checks
        [refuseIf (ends = []) ''SGOS_TERMINAL_UNREACHABLE'',
         refuseIf (list_ex (\<lambda>i. lookupList (graphForward graph) i \<noteq> []) ends) ''SGOS_TERMINAL_UNREACHABLE'',
         refuseIf (list_ex (\<lambda>t. getp t ''opcode'' \<noteq> JStr ''END'' \<and> taskKey t \<notin> set reach) templates)
           ''SGOS_TERMINAL_UNREACHABLE'']) (\<lambda>_. Inr ends))"

definition validateProgramForRead :: "hash_function \<Rightarrow> jsval \<Rightarrow> (jsval \<times> task_graph) result" where
  "validateProgramForRead H value =
     (let program = programInput value in
      if \<not> plainObject program \<or> getp program ''kind'' \<noteq> JStr ''gvm-program'' then fail ''SGOS_PROGRAM_INVALID''
      else if \<not> isArray (getp program ''taskTemplates'') \<or> \<not> isArray (getp program ''edges'') then fail ''SGOS_PROGRAM_INVALID''
      else andThen (recode ''SGOS_PROGRAM_INVALID'' (validateGvmProgram H program)) (\<lambda>_.
        andThen (checks
          [refuseIf (list_ex (\<lambda>t. getp t ''opcode'' \<notin> JStr ` set (map opcodeName gvmOpcodes)) (templatesOf program))
             ''SGOS_OPCODE_UNKNOWN'',
           refuseIf (getp program ''programSha256'' \<noteq> JStr (sgosSha256 H (hashableRecord program [''programSha256''])))
             ''SGOS_CONTENT_HASH_MISMATCH'']) (\<lambda>_.
        andThen (graphFacts (templateIds program) (programEdgesOf program)) (\<lambda>graph.
        andThen (endReachability (templatesOf program) graph) (\<lambda>_. Inr (program, graph))))))"

text \<open>\<open>[...task.dependsOn]\<close> and \<open>[...task.intentClauseIds]\<close> raise where the optional field is missing.\<close>

definition explainable :: "jsval \<Rightarrow> unit result" where
  "explainable task =
     (if nullish (getp task ''dependsOn'') \<or> nullish (getp task ''intentClauseIds'') then Inl NativeError else Inr ())"

definition explainSgosProgram :: "hash_function \<Rightarrow> string option \<Rightarrow> jsval \<Rightarrow> jsval result" where
  "explainSgosProgram H proof value =
     (if plainObject value \<and> (truthy (getp value ''intentIr'') \<or> truthy (getp value ''intent''))
         \<and> (truthy (getp value ''workflow'') \<or> truthy (getp value ''workflowIr''))
      then andThen (compileSgosProgram H proof value) (\<lambda>out. Inr (outputExplanation out))
      else andThen (validateProgramForRead H value) (\<lambda>pg.
        andThen (eachOf explainable (templatesOf (fst pg))) (\<lambda>_. Inr (compilerExplanation (fst pg) (snd pg)))))"

definition simulateSgosProgram :: "hash_function \<Rightarrow> jsval \<Rightarrow> jsval result" where
  "simulateSgosProgram H value =
     andThen (validateProgramForRead H value) (\<lambda>pg. simulateSgosProgramAssurance H (fst pg))"

text \<open>Recompilation from a freshly revalidated Capability Pack selection.\<close>

definition recompileSgosProgramWithVerifiedCapabilityPack ::
    "hash_function \<Rightarrow> string option \<Rightarrow> jsval \<Rightarrow> jsval \<Rightarrow> compile_output result" where
  "recompileSgosProgramWithVerifiedCapabilityPack H proof requestValue receipt =
     (if \<not> truthy receipt \<or> \<not> typeofObject receipt then fail ''SGOS_CAPABILITY_PACK_AUTHORITY_REQUIRED''
      else compileSgosProgramInternal H proof
        (JObj (setField ''capabilityPackAuthority'' (getp receipt ''capabilityPackAuthority'') (entries requestValue)))
        (coalesce (getp receipt ''repositoryBindingSha256'') JNull))"

section \<open>The record of a compiled Program\<close>

lemma taskKey_template [simp]: "taskKey (templateValue t) = compiledId t"
  by (simp add: taskKey_def templateValue_def)

lemma programEdge_value [simp]: "programEdge (edgeValue e) = e"
  by (simp add: programEdge_def edgeValue_def)

lemma opcode_template [simp]: "getp (templateValue t) ''opcode'' = JStr (opcodeName (compiledOpcode t))"
  by (simp add: templateValue_def)

lemma resources_template [simp]: "getp (templateValue t) ''resources'' = resourcesValue (compiledResources t)"
  by (simp add: templateValue_def)

lemma dependsOn_template [simp]: "getp (templateValue t) ''dependsOn'' = JArr (map JStr (compiledDependsOn t))"
  by (simp add: templateValue_def)

lemma opcodeName_END [simp]: "opcodeName c = ''END'' \<longleftrightarrow> c = END"
  by (cases c) simp_all

lemma endKeys_templates: "endKeys (map templateValue ts) = endTasks ts"
  by (simp add: endKeys_def endTasks_def filter_map comp_def)

text \<open>The stages of the compilation, over the record it produces.\<close>

definition compiledInto :: "jsval \<Rightarrow> compiled_template list \<Rightarrow> edge_list \<Rightarrow> task_graph \<Rightarrow> bool" where
  "compiledInto program templates edges graph \<longleftrightarrow>
     templatesOf program = map templateValue templates \<and> elements (getp program ''edges'') = map edgeValue edges \<and>
     isArray (getp program ''taskTemplates'') \<and> isArray (getp program ''edges'') \<and>
     graphFacts (map compiledId templates) edges = Inr graph \<and>
     (\<exists>ends. assertTerminalReachability templates graph = Inr ends) \<and>
     (\<forall>t \<in> set templates. \<exists>es. canonicalSgosResourceEntries (resourcesValue (compiledResources t)) = Inr es) \<and>
     wellConnected templates edges"

lemma reachability_predecessors:
  "assertTerminalReachability (map (withPredecessors edges) templates) graph = assertTerminalReachability templates graph"
  unfolding assertTerminalReachability_def endTasks_def list_ex_iff Let_def by (simp add: filter_map comp_def cong: if_cong)

lemma compiled_into:
  assumes "compileSgosProgram H proof requestValue = Inr out"
  shows "\<exists>templates edges graph. compiledInto (outputProgram out) templates edges graph \<and>
    validateGvmProgram H (outputProgram out) = Inr (outputProgram out) \<and>
    outputExplanation out = compilerExplanation (outputProgram out) graph"
proof -
  obtain request intent workflow ratification catalog pins ratificationSha clauses initial edges graph ends joins conditions sourceSha
    where templates: "requestTemplates H workflow catalog = Inr initial"
      and checked: "checkedGraph workflow initial = Inr (edges, graph, ends)"
      and program: "createGvmProgram H (programSeed pins ratificationSha (map (withPredecessors edges) initial) edges joins
        workflow conditions sourceSha) = Inr (outputProgram out)"
      and explanation: "outputExplanation out = compilerExplanation (outputProgram out) graph"
    using compile_stages [OF assms [unfolded compileSgosProgram_def]] by metis
  let ?ts = "map (withPredecessors edges) initial"
  note fields = created_program [OF program programSeed_fields(1)]
  note stages = checkedGraph_Inr [OF checked]
  have arrays: "getp (outputProgram out) ''taskTemplates'' = JArr (map templateValue ?ts)"
      "getp (outputProgram out) ''edges'' = JArr (map edgeValue edges)"
    using fields(2) [of "''taskTemplates''"] fields(2) [of "''edges''"] by (simp_all add: programSeed_fields)
  have "wellConnected ?ts edges"
    using checked_wellConnected [OF checked] requestTemplates_Inr [OF templates] by blast
  moreover have "graphFacts (map compiledId ?ts) edges = Inr graph" using stages(3) by (simp add: comp_def)
  moreover have "\<forall>t \<in> set ?ts. \<exists>es. canonicalSgosResourceEntries (resourcesValue (compiledResources t)) = Inr es"
    using ceilings_Inr(3) [OF stages(1)] by simp
  ultimately have "compiledInto (outputProgram out) ?ts edges graph"
    using arrays stages(4) unfolding compiledInto_def reachability_predecessors templatesOf_def by simp
  with fields(1) explanation show ?thesis by blast
qed

text \<open>Fields the contract does not list are absent.\<close>

lemma validProgram:
  assumes "validateGvmProgram H program = Inr program"
  shows "plainObject program" "getp program ''kind'' = JStr ''gvm-program''"
    "k \<notin> set (programFields @ [''schemaVersion'', ''kind'', ''programSha256'']) \<Longrightarrow> getp program k = JUndef"
    "getp program ''programSha256'' = JStr (sgosSha256 H (hashableRecord program [''programSha256'']))"
proof -
  have valid: "validateGvmProgramRecord H program True = Inr ()"
    using programRecords.read_same [OF assms [unfolded validateGvmProgram_def]] by blast
  have contract: "descriptorHash (contractOf ''gvm-program'') = ''programSha256''" by code_simp
  show "plainObject program" "getp program ''kind'' = JStr ''gvm-program''"
    using programRecords.based [OF valid] by blast+
  have "fullBase H ''gvm-program'' programFields program True = Inr ()"
    using valid unfolding validateGvmProgramRecord_def Let_def checks_Inr by simp
  then have keys: "exactKeys program (''schemaVersion'' # ''kind'' # programFields @ [''programSha256'']) = Inr ()"
    unfolding fullBase_def validateBase_def Let_def checks_Inr by (simp add: contract)
  show listed: "k \<notin> set (programFields @ [''schemaVersion'', ''kind'', ''programSha256'']) \<Longrightarrow> getp program k = JUndef" for k
    by (rule unlisted_undefined [OF keys]) auto
  show "getp program ''programSha256'' = JStr (sgosSha256 H (hashableRecord program [''programSha256'']))"
  proof -
    have "fst f \<noteq> ''recordSha256''" if "f \<in> set (fieldsOf program)" for f
      using keys that unfolding exactKeys_def checks_Inr
      by (auto simp: must_def list_all_iff programFields_def programDigests_def)
    then have "hashableRecord program [''programSha256''] = JObj (deleteField ''programSha256'' (fieldsOf program))"
      by (auto simp: hashableRecord_def deleteField_def intro!: filter_cong)
    then show ?thesis using programRecords.self_hash [OF valid] by (simp add: contract)
  qed
qed

section \<open>Reading a compiled Program\<close>

lemma compiledInto_record:
  assumes "compiledInto program templates edges graph"
  shows "templateIds program = map compiledId templates" "programEdgesOf program = edges"
    "endKeys (templatesOf program) = endTasks templates"
  using assms by (simp_all add: compiledInto_def templateIds_def programEdgesOf_def endKeys_templates comp_def)

lemma endReachability_compiled:
  assumes "assertTerminalReachability templates graph = Inr ends"
  shows "endReachability (map templateValue templates) graph = Inr ends"
proof -
  have parts: "ends = endTasks templates" "ends \<noteq> []" "\<not> list_ex (\<lambda>i. lookupList (graphForward graph) i \<noteq> []) ends"
      "\<not> list_ex (\<lambda>t. compiledOpcode t \<noteq> END \<and> compiledId t \<notin> set (reachableFrom ends (graphReverse graph))) templates"
    using assms by (auto simp: assertTerminalReachability_def Let_def split: if_splits)
  then show ?thesis
    unfolding endReachability_def endKeys_templates Let_def parts(1) [symmetric] list_ex_iff by (simp add: refuseIf_def)
qed

lemma compiled_read:
  assumes "compiledInto program templates edges graph" "validateGvmProgram H program = Inr program"
  shows "validateProgramForRead H program = Inr (program, graph)"
proof -
  note into = assms(1) [unfolded compiledInto_def]
  note valid = validProgram [OF assms(2)]
  obtain ends where "assertTerminalReachability templates graph = Inr ends" using into by blast
  then have ends: "endReachability (templatesOf program) graph = Inr ends"
    using into endReachability_compiled by simp
  have input: "programInput program = program"
    using valid(3) [of "''program''"] by (simp add: programInput_def programFields_def programDigests_def)
  have "opcodeName c \<in> set (map opcodeName gvmOpcodes)" for c by (cases c) (simp_all add: gvmOpcodes_def)
  then have opcodes: "\<not> list_ex (\<lambda>t. getp t ''opcode'' \<notin> JStr ` set (map opcodeName gvmOpcodes)) (templatesOf program)"
    using into by (auto simp: list_ex_iff)
  have facts: "graphFacts (templateIds program) (programEdgesOf program) = Inr graph"
    using into compiledInto_record [OF assms(1)] by simp
  show ?thesis
    unfolding validateProgramForRead_def input Let_def
    using valid(1,2,4) into opcodes ends facts assms(2) by (simp add: refuseIf_def recode_def)
qed

text \<open>
  C23: The explanation the compiler returns beside a Program is the explanation of the Program alone:
  read back from its record, without the request, the Program explains itself the same way. Its hash,
  its graph and the reachability of END are checked again and hold.
\<close>
theorem explanation_roundtrip:
  assumes "compileSgosProgram H proof requestValue = Inr out"
  shows "(\<exists>graph. validateProgramForRead H (outputProgram out) = Inr (outputProgram out, graph)) \<and>
    explainSgosProgram H proof' (outputProgram out) = Inr (outputExplanation out)"
proof -
  obtain templates edges graph where into: "compiledInto (outputProgram out) templates edges graph"
      and valid: "validateGvmProgram H (outputProgram out) = Inr (outputProgram out)"
      and explanation: "outputExplanation out = compilerExplanation (outputProgram out) graph"
    using compiled_into [OF assms] by blast
  note read = compiled_read [OF into valid]
  have "explainable (templateValue t) = Inr ()" for t by (simp add: explainable_def templateValue_def)
  then have explainable: "eachOf explainable (templatesOf (outputProgram out)) = Inr ()"
    using into by (auto simp: compiledInto_def eachOf_Inr)
  have "getp (outputProgram out) ''intentIr'' = JUndef" "getp (outputProgram out) ''intent'' = JUndef"
    by (rule validProgram(3) [OF valid], simp add: programFields_def programDigests_def)+
  then show ?thesis by (simp add: explainSgosProgram_def read explainable explanation)
qed

theorem explanation_roundtrip_witness:
  "\<exists>out. compileSgosProgram sampleHash None sampleRequest = Inr out \<and>
     explainSgosProgram sampleHash None (outputProgram out) = Inr (outputExplanation out)"
proof -
  obtain out where "compileSgosProgram sampleHash None sampleRequest = Inr out"
    using sampleRequest_compiles by (cases "compileSgosProgram sampleHash None sampleRequest") auto
  with explanation_roundtrip [OF this, of None] show ?thesis by blast
qed

section \<open>Simulating a compiled Program\<close>

lemma addSimulated_total:
  assumes "list_all (\<lambda>t. list_all namedDevice (elements (coalesce (getp (getp t ''resources'') ''devices'') (JArr [])))) ts"
    and "distinct (map fst acc @ map taskKey ts)"
  shows "\<exists>r. foldResult addSimulated acc ts = Inr r"
  using assms
proof (induction ts arbitrary: acc)
  case (Cons t ts)
  then have "addSimulated acc t = Inr (acc @ [(taskKey t, t)])"
    by (auto simp: addSimulated_def list_ex_iff list_all_iff namedDevice_def refuseIf_def)
  with Cons.IH [of "acc @ [(taskKey t, t)]"] Cons.prems show ?case by simp
qed simp

lemma edgeText_inj:
  "\<lbrakk>CHR 0x00 \<notin> set (fst e); CHR 0x00 \<notin> set (fst f); edgeText e = edgeText f\<rbrakk> \<Longrightarrow> e = f"
  by (cases e; cases f) (auto simp: edgeText_def append_eq_append_conv2 append_eq_Cons_conv Cons_eq_append_conv)

lemma safeId_no_nul: "safeId s \<Longrightarrow> CHR 0x00 \<notin> set s"
  by (cases s) (auto simp: safeId_def isAlnum_def isDigit_def isLower_def isUpper_def codePoint_def list_all_iff)

lemma addSimulatedEdge_total:
  assumes "list_all (knownEdge ids) es" "distinct (acc @ es)" "\<forall>e \<in> set (acc @ es). CHR 0x00 \<notin> set (fst e)"
  shows "foldResult (addSimulatedEdge ids) acc (map edgeValue es) = Inr (acc @ es)"
  using assms
proof (induction es arbitrary: acc)
  case (Cons e es)
  have "edgeText e \<notin> set (map edgeText acc)"
  proof
    assume "edgeText e \<in> set (map edgeText acc)"
    then obtain f where "f \<in> set acc" "edgeText e = edgeText f" by auto
    then have "e = f" using Cons.prems(3) by (intro edgeText_inj) auto
    with Cons.prems(2) \<open>f \<in> set acc\<close> show False by auto
  qed
  moreover have "programEdge (edgeValue e) = e" "getp (edgeValue e) ''condition'' = JUndef" by (simp, simp add: edgeValue_def)
  ultimately have "addSimulatedEdge ids acc (edgeValue e) = Inr (acc @ [e])"
    using Cons.prems(1) unfolding addSimulatedEdge_def Let_def programEdge_def [symmetric] by (simp add: refuseIf_def)
  with Cons.IH [of "acc @ [e]"] Cons.prems show ?case by simp
qed simp

lemma distinct_concat_nth:
  "\<lbrakk>distinct (concat ws); k < length ws; l < length ws; k \<noteq> l\<rbrakk> \<Longrightarrow> set (ws ! k) \<inter> set (ws ! l) = {}"
proof (induction ws arbitrary: k l)
  case (Cons w ws)
  have apart: "set w \<inter> set (ws ! i) = {}" if "i < length ws" for i
    using Cons.prems(1) that nth_mem [OF that] by fastforce
  show ?case
  proof (cases k)
    case 0
    with Cons.prems apart show ?thesis by (cases l) auto
  next
    case k: (Suc k')
    show ?thesis
    proof (cases l)
      case 0
      with Cons.prems k apart [of k'] show ?thesis by auto
    next
      case (Suc l')
      with Cons.IH [of k' l'] Cons.prems k show ?thesis by auto
    qed
  qed
qed simp

text \<open>Along a path the wave number rises, so two tasks of one wave are unordered.\<close>

lemma waves_rise:
  assumes "distinct (concat waves)"
    and "\<forall>i < length waves. \<forall>b \<in> set (waves ! i). \<forall>a. (a, b) \<in> E \<longrightarrow> a \<in> set (concat (take i waves))"
    and "(x, y) \<in> E\<^sup>+" "i < length waves" "x \<in> set (waves ! i)" "j < length waves" "y \<in> set (waves ! j)"
  shows "i < j"
proof -
  have unique: "k = l" if k: "k < length waves" "z \<in> set (waves ! k)" and l: "l < length waves" "z \<in> set (waves ! l)" for k l z
  proof (rule ccontr)
    assume "k \<noteq> l"
    with distinct_concat_nth [OF assms(1) k(1) l(1)] have "set (waves ! k) \<inter> set (waves ! l) = {}" by simp
    with k l show False by blast
  qed
  have earlier: "\<exists>k < l. z \<in> set (waves ! k)" if z: "z \<in> set (concat (take l waves))" for z l
  proof -
    obtain w where "w \<in> set (take l waves)" "z \<in> set w" using z unfolding set_concat by blast
    then show ?thesis by (metis in_set_conv_nth length_take min_less_iff_conj nth_take)
  qed
  show ?thesis
    using assms(3,6,7)
  proof (induction arbitrary: j rule: trancl_induct)
    case (base b)
    with assms(2) have "x \<in> set (concat (take j waves))" by blast
    then obtain k where "k < j" "x \<in> set (waves ! k)" using earlier by blast
    then show ?case using unique [of k x i] assms(4,5) base(2) by simp
  next
    case (step b c)
    with assms(2) have "b \<in> set (concat (take j waves))" by blast
    then obtain k where k: "k < j" "b \<in> set (waves ! k)" using earlier by blast
    then have "i < k" using step.IH step.prems(1) by simp
    with k show ?case by simp
  qed
qed

end
