(* ===== verification/CanonicalText.thy ===== *)
theory CanonicalText
  imports CanonicalJson
begin

text \<open>
  The canonical text of \<open>src/records.mjs\<close> identifies a JSON value: two values have the same text
  exactly when they differ only in the order of object keys.
\<close>

section \<open>Numerals\<close>

definition numeralChar :: "char \<Rightarrow> bool" where
  "numeralChar c \<longleftrightarrow> isDigit c \<or> c \<in> {CHR ''-'', CHR ''+'', CHR ''.'', CHR ''e''}"

definition endsNumeral :: "string \<Rightarrow> bool" where
  "endsNumeral x \<longleftrightarrow> x = [] \<or> \<not> numeralChar (hd x)"

text \<open>JSON values: no \<open>undefined\<close>, and every other number prints with a point or an exponent.\<close>

fun jsonValue :: "jsval \<Rightarrow> bool" where
  "jsonValue JUndef = False"
| "jsonValue (JFrac t) = (list_all numeralChar t \<and> (CHR ''.'' \<in> set t \<or> CHR ''e'' \<in> set t))"
| "jsonValue (JArr xs) = list_all jsonValue xs"
| "jsonValue (JObj fs) = (distinct (map fst fs) \<and> list_all (\<lambda>f. jsonValue (snd f)) fs)"
| "jsonValue v = True"

lemma decimal_append: "decimalValue (s @ [c]) = 10 * decimalValue s + (codePoint c - 48)"
  by (simp add: decimalValue_def)

lemma decimal_showNat: "decimalValue (showNat n) = n"
proof (induction n rule: showNat.induct)
  case (1 n)
  show ?case
  proof (cases "n < 10")
    case True
    then show ?thesis by (subst showNat.simps) (simp add: decimalValue_def)
  next
    case False
    with 1 show ?thesis by (subst showNat.simps) (simp add: decimal_append)
  qed
qed

lemma showNat_inj: "showNat m = showNat n \<Longrightarrow> m = n"
  by (metis decimal_showNat)

lemma showNat_Nil [simp]: "showNat n \<noteq> []"
  by (subst showNat.simps) simp

lemma showInt_inj: "showInt i = showInt j \<Longrightarrow> i = j"
proof -
  have minus: "showNat n \<noteq> CHR ''-'' # cs" for n cs
    using showNat_digits [of n] by (auto simp: isDigit_def codePoint_def)
  assume "showInt i = showInt j"
  then show ?thesis
    using minus minus [symmetric] by (auto simp: showInt_def dest!: showNat_inj split: if_splits)
qed

lemma showInt_numeral: "list_all numeralChar (showInt i)" "CHR ''.'' \<notin> set (showInt i)" "CHR ''e'' \<notin> set (showInt i)"
    "showInt i \<noteq> []"
proof -
  have digits: "\<forall>c \<in> set (showNat n). isDigit c" for n using showNat_digits [of n] by (simp add: list_all_iff)
  then show "list_all numeralChar (showInt i)" by (auto simp: showInt_def list_all_iff numeralChar_def)
  have "c \<notin> set (showInt i)" if "\<not> isDigit c" "c \<noteq> CHR ''-''" for c
    using digits [of "nat i"] digits [of "nat (- i)"] that by (auto simp: showInt_def)
  then show "CHR ''.'' \<notin> set (showInt i)" "CHR ''e'' \<notin> set (showInt i)" by (simp_all add: isDigit_def codePoint_def)
  show "showInt i \<noteq> []" by (simp add: showInt_def)
qed

lemma numeral_prefix:
  assumes "list_all numeralChar s" "list_all numeralChar t" "endsNumeral x" "endsNumeral y" "s @ x = t @ y"
  shows "s = t \<and> x = y"
proof -
  have whole: "takeWhile numeralChar (u @ z) = u" if "list_all numeralChar u" "endsNumeral z" for u z
    using that by (induction u) (cases z; auto simp: endsNumeral_def)+
  have "s = t" using whole [OF assms(1,3)] whole [OF assms(2,4)] assms(5) by simp
  with assms(5) show ?thesis by simp
qed

section \<open>Texts are unambiguous\<close>

definition seqTail :: "nat \<Rightarrow> char \<Rightarrow> string list \<Rightarrow> string" where
  "seqTail n closing items = concat (map (\<lambda>i. CHR '','' # newline (Suc n) @ i) items) @ newline n @ [closing]"

lemma block_Cons: "block n opening closing (i # items) = opening # newline (Suc n) @ i @ seqTail n closing items"
  by (simp add: block_def joinWith_Cons seqTail_def)

lemma seqTail_Cons: "seqTail n c (i # items) = CHR '','' # newline (Suc n) @ i @ seqTail n c items"
  by (simp add: seqTail_def)

lemma seqTail_endsNumeral: "endsNumeral (seqTail n c items @ x)"
  by (cases items) (auto simp: seqTail_def newline_def endsNumeral_def numeralChar_def isDigit_def codePoint_def)

text \<open>A list of texts, each of which is unambiguous before whatever may follow it, is unambiguous.\<close>

lemma seqTail_prefix_free:
  assumes "\<And>a b x y. a \<in> set as \<Longrightarrow> b \<in> set bs \<Longrightarrow> endsNumeral x \<Longrightarrow> endsNumeral y \<Longrightarrow> f a @ x = g b @ y \<Longrightarrow>
      R a b \<and> x = y"
    and "c \<noteq> CHR '',''" "seqTail n c (map f as) @ x = seqTail n c (map g bs) @ y"
  shows "list_all2 R as bs \<and> x = y"
  using assms(1,3)
proof (induction as arbitrary: bs)
  case Nil
  then show ?case by (cases bs) (auto simp: seqTail_def newline_def)
next
  case (Cons a as)
  then obtain b bs' where bs: "bs = b # bs'" by (cases bs) (auto simp: seqTail_def newline_def)
  with Cons.prems(2) have "f a @ seqTail n c (map f as) @ x = g b @ seqTail n c (map g bs') @ y"
    by (simp add: seqTail_Cons)
  from Cons.prems(1) [OF _ _ seqTail_endsNumeral seqTail_endsNumeral this] bs
  have "R a b" "seqTail n c (map f as) @ x = seqTail n c (map g bs') @ y" by auto
  with Cons.IH [of bs'] Cons.prems(1) bs show ?case by auto
qed

lemma block_prefix_free:
  assumes "\<And>a b x y. a \<in> set as \<Longrightarrow> b \<in> set bs \<Longrightarrow> endsNumeral x \<Longrightarrow> endsNumeral y \<Longrightarrow> f a @ x = g b @ y \<Longrightarrow>
      R a b \<and> x = y"
    and "c \<noteq> CHR '',''" "c \<noteq> CHR 0x0A" "block n d c (map f as) @ x = block n d c (map g bs) @ y"
  shows "list_all2 R as bs \<and> x = y"
proof (cases as; cases bs)
  fix a as' b bs'
  assume l: "as = a # as'" "bs = b # bs'"
  with assms(4) have "f a @ seqTail n c (map f as') @ x = g b @ seqTail n c (map g bs') @ y"
    by (simp add: block_Cons)
  from assms(1) [OF _ _ seqTail_endsNumeral seqTail_endsNumeral this] l
  have "R a b" "seqTail n c (map f as') @ x = seqTail n c (map g bs') @ y" by auto
  moreover from this have "list_all2 R as' bs' \<and> x = y"
    using assms(1) l by (intro seqTail_prefix_free [OF _ assms(2)]) auto
  ultimately show ?thesis using l by simp
qed (use assms(3,4) in \<open>auto simp: block_def newline_def\<close>)

lemma objText_defined: "list_all (\<lambda>f. jsonValue (snd f)) fs \<Longrightarrow> filter (\<lambda>f. snd f \<noteq> JUndef) fs = fs"
  by (auto simp: filter_id_conv list_all_iff)

text \<open>The first character tells the kind of a value.\<close>

fun kindOf :: "jsval \<Rightarrow> nat" where
  "kindOf JUndef = 0"
| "kindOf JNull = 1"
| "kindOf (JBool b) = (if b then 2 else 3)"
| "kindOf (JNum i) = 4"
| "kindOf (JFrac t) = 4"
| "kindOf (JStr s) = 5"
| "kindOf (JArr xs) = 6"
| "kindOf (JObj fs) = 7"

definition kindChar :: "char \<Rightarrow> nat" where
  "kindChar c = (if numeralChar c then 4 else if c = CHR ''n'' then 1 else if c = CHR ''t'' then 2
     else if c = CHR ''f'' then 3 else if c = CHR 0x22 then 5 else if c = CHR ''['' then 6 else 7)"

lemma numeralChar_simps [simp]:
  "\<not> numeralChar (CHR ''n'')" "\<not> numeralChar (CHR ''t'')" "\<not> numeralChar (CHR ''f'')" "\<not> numeralChar (CHR 0x22)"
  "\<not> numeralChar (CHR ''['')" "\<not> numeralChar (CHR ''{'')"
  by (simp_all add: numeralChar_def isDigit_def codePoint_def)

lemma number_text:
  assumes "jsonValue v" "kindOf v = 4"
  shows "list_all numeralChar (stringify n v)" "stringify n v \<noteq> []"
    "v = JNum i \<Longrightarrow> stringify n v = showInt i" "v = JFrac t \<Longrightarrow> stringify n v = t"
proof -
  show "v = JFrac t \<Longrightarrow> stringify n v = t" using assms(1) by (auto simp: numeralChar_def isDigit_def codePoint_def)
  then show "list_all numeralChar (stringify n v)" "stringify n v \<noteq> []"
    using assms showInt_numeral(1,4) by (cases v; force split: if_splits)+
qed simp

lemma stringify_first: "jsonValue v \<Longrightarrow> \<exists>c cs. stringify n v = c # cs \<and> kindChar c = kindOf v"
proof (cases "kindOf v = 4")
  case True
  moreover assume "jsonValue v"
  ultimately show ?thesis using number_text(1,2) [of v n] by (cases "stringify n v") (auto simp: kindChar_def)
next
  case False
  moreover assume "jsonValue v"
  ultimately show ?thesis by (cases v) (auto simp: kindChar_def quoteJson_def block_def)
qed

lemma stringify_kind:
  assumes "jsonValue v" "jsonValue w" "stringify n v @ x = stringify n w @ y"
  shows "kindOf v = kindOf w"
  using stringify_first [OF assms(1), of n] stringify_first [OF assms(2), of n] assms(3) by auto

lemma stringify_number:
  assumes "jsonValue v" "jsonValue w" "kindOf v = 4" "kindOf w = 4" "endsNumeral x" "endsNumeral y"
    and "stringify n v @ x = stringify n w @ y"
  shows "v = w \<and> x = y"
proof -
  note v = number_text [OF assms(1,3), where n = n] and w = number_text [OF assms(2,4), where n = n]
  have same: "stringify n v = stringify n w \<and> x = y"
    by (rule numeral_prefix [OF v(1) w(1) assms(5-7)])
  consider i j where "v = JNum i" "w = JNum j" | s t where "v = JFrac s" "w = JFrac t"
    | i t where "v = JNum i" "w = JFrac t" | i t where "v = JFrac t" "w = JNum i"
    using assms(3,4) by (cases v; cases w) (auto split: if_splits)
  then show ?thesis
  proof cases
    case 1
    with same v(3) w(3) show ?thesis by (auto dest: showInt_inj)
  next
    case 2
    with same v(4) w(4) show ?thesis by auto
  next
    case 3
    with same v(3) w(4) have "t = showInt i" by auto
    with 3 assms(2) showInt_numeral(2,3) show ?thesis by auto
  next
    case 4
    with same v(4) w(3) have "t = showInt i" by auto
    with 4 assms(1) showInt_numeral(2,3) show ?thesis by auto
  qed
qed

lemma kindOf_cases:
  "kindOf v = 1 \<Longrightarrow> v = JNull" "kindOf v = 2 \<Longrightarrow> v = JBool True" "kindOf v = 3 \<Longrightarrow> v = JBool False"
  "kindOf v = 5 \<Longrightarrow> \<exists>s. v = JStr s" "kindOf v = 6 \<Longrightarrow> \<exists>xs. v = JArr xs" "kindOf v = 7 \<Longrightarrow> \<exists>fs. v = JObj fs"
  by (cases v; simp split: if_splits)+

lemma stringify_prefix_free:
  "\<lbrakk>jsonValue v; jsonValue w; endsNumeral x; endsNumeral y; stringify n v @ x = stringify n w @ y\<rbrakk> \<Longrightarrow> v = w \<and> x = y"
proof (induction v arbitrary: w x y n)
  case JUndef
  then show ?case by simp
next
  case JNull
  then have "w = JNull" using stringify_kind [OF JNull.prems(1,2,5)] kindOf_cases(1) by simp
  with JNull show ?case by simp
next
  case (JBool b)
  then have "w = JBool b" using stringify_kind [OF JBool.prems(1,2,5)] kindOf_cases(2,3) [of w] by (cases b) simp_all
  with JBool show ?case by simp
next
  case (JNum i)
  then show ?case using stringify_kind [OF JNum.prems(1,2,5)] stringify_number [OF JNum.prems(1,2) _ _ JNum.prems(3-5)] by simp
next
  case (JFrac t)
  then show ?case using stringify_kind [OF JFrac.prems(1,2,5)] stringify_number [OF JFrac.prems(1,2) _ _ JFrac.prems(3-5)] by simp
next
  case (JStr s)
  obtain t where "w = JStr t" using stringify_kind [OF JStr.prems(1,2,5)] kindOf_cases(4) [of w] by auto
  with JStr.prems(5) quoteJson_prefix_free [of s x t y] show ?case by simp
next
  case (JArr xs)
  obtain ys where w: "w = JArr ys" using stringify_kind [OF JArr.prems(1,2,5)] kindOf_cases(5) [of w] by auto
  have "list_all2 (=) xs ys \<and> x = y"
  proof (rule block_prefix_free)
    show "block n (CHR ''['') (CHR '']'') (map (stringify (Suc n)) xs) @ x
        = block n (CHR ''['') (CHR '']'') (map (stringify (Suc n)) ys) @ y"
      using JArr.prems(5) w by simp
    show "a = b \<and> u = v" if "a \<in> set xs" "b \<in> set ys" "endsNumeral u" "endsNumeral v"
        "stringify (Suc n) a @ u = stringify (Suc n) b @ v" for a b u v
      using JArr.IH [OF that(1) _ _ that(3,4,5)] JArr.prems(1,2) that(1,2) w by (simp add: list_all_iff)
  qed simp_all
  then show ?case using w by (simp add: list.rel_eq)
next
  case (JObj fs)
  obtain gs where w: "w = JObj gs" using stringify_kind [OF JObj.prems(1,2,5)] kindOf_cases(6) [of w] by auto
  let ?t = "\<lambda>f. quoteJson (fst f) @ '': '' @ stringify (Suc n) (snd f)"
  have "list_all2 (=) fs gs \<and> x = y"
  proof (rule block_prefix_free [where f = ?t and g = ?t])
    show "block n (CHR ''{'') (CHR ''}'') (map ?t fs) @ x = block n (CHR ''{'') (CHR ''}'') (map ?t gs) @ y"
      using JObj.prems w by (simp add: objText_defined)
    show "a = b \<and> u = v" if ab: "a \<in> set fs" "b \<in> set gs" "endsNumeral u" "endsNumeral v" "?t a @ u = ?t b @ v" for a b u v
    proof -
      have "quoteJson (fst a) @ ('': '' @ stringify (Suc n) (snd a) @ u) = quoteJson (fst b) @ ('': '' @ stringify (Suc n) (snd b) @ v)"
        using ab(5) by simp
      from quoteJson_prefix_free [OF this]
      have parts: "fst a = fst b" "stringify (Suc n) (snd a) @ u = stringify (Suc n) (snd b) @ v" by simp_all
      have "snd a \<in> Basic_BNFs.snds a" by (cases a) simp
      moreover have "jsonValue (snd a)" "jsonValue (snd b)"
        using JObj.prems(1,2) w ab(1,2) by (simp_all add: list_all_iff)
      ultimately have "snd a = snd b \<and> u = v" using JObj.IH [OF ab(1) _ _ _ ab(3,4) parts(2)] by blast
      with parts(1) show ?thesis by (simp add: prod_eq_iff)
    qed
  qed simp_all
  then show ?case using w by (simp add: list.rel_eq)
qed

section \<open>Equal texts, equal values\<close>

lemma canonical_entries:
  assumes "distinct (map fst es)"
  shows "mset (fromEntries (sortBy (byKey fst) es)) = mset es"
proof -
  have spread: "spread base more = base @ more" if "distinct (map fst (base @ more))" for base more :: fields
    using that
  proof (induction more arbitrary: base)
    case (Cons m more)
    then have "fst m \<notin> fst ` set base" by auto
    then have "setField (fst m) (snd m) base = base @ [m]"
      unfolding setField_def by (induction base) auto
    with Cons.IH [of "base @ [m]"] Cons.prems show ?case by (simp add: spread_def case_prod_beta)
  qed (simp add: spread_def)
  have insertIndexed: "mset (insertIndexed e fs) = add_mset e (mset fs)" for e fs by (induction fs) auto
  have enumeration: "mset (enumerationOrder fs) = mset fs" for fs
  proof -
    let ?key = "\<lambda>f :: string \<times> jsval. map_option (\<lambda>i. (i, f)) (arrayIndex (fst f))"
    have "mset (foldr insertIndexed es' []) = mset es'" for es' by (induction es') (simp_all add: insertIndexed)
    moreover have "mset (map snd (List.map_filter ?key fs)) = mset (filter (\<lambda>f. arrayIndex (fst f) \<noteq> None) fs)" for fs
      by (induction fs) (auto simp: map_filter_simps split: option.splits)
    ultimately show ?thesis
      unfolding enumerationOrder_def mset_append mset_map by (simp add: mset_map [symmetric] del: mset_map)
  qed
  have "distinct (map fst (sortBy (byKey fst) es))" using assms by (simp add: distinct_map_sortBy)
  then show ?thesis using spread [of "[]" "sortBy (byKey fst) es"] by (simp add: fromEntries_def enumeration)
qed

lemma canonicalize_fields:
  assumes "jsonValue (JObj fs)" "canonicalize (JObj fs) = JObj gs"
  shows "mset gs = mset (map (\<lambda>f. (fst f, canonicalize (snd f))) fs)"
  using assms canonical_entries [of "map (\<lambda>f. (fst f, canonicalize (snd f))) fs"] by (auto simp: comp_def)

lemma canonicalize_jsonValue: "jsonValue v \<Longrightarrow> jsonValue (canonicalize v)"
proof (induction v)
  case (JObj fs)
  let ?gs = "fromEntries (sortBy (byKey fst) (map (\<lambda>f. (fst f, canonicalize (snd f))) fs))"
  have perm: "mset ?gs = mset (map (\<lambda>f. (fst f, canonicalize (snd f))) fs)"
    using canonicalize_fields [OF JObj.prems] by simp
  have "jsonValue (canonicalize (snd f))" if "f \<in> set fs" for f
    using JObj.IH [OF that, of "snd f"] JObj.prems that by (cases f) (auto simp: list_all_iff)
  then have "list_all (\<lambda>f. jsonValue (snd f)) ?gs"
    unfolding list_all_iff mset_eq_setD [OF perm] by auto
  moreover have "mset (map fst ?gs) = mset (map fst fs)"
    unfolding mset_map perm by (simp add: multiset.map_comp comp_def)
  then have "distinct (map fst ?gs)" using JObj.prems mset_eq_imp_distinct_iff by (metis jsonValue.simps(4))
  ultimately show ?case by simp
qed (auto simp: list_all_iff)

lemma canonicalJson_inj:
  assumes "jsonValue v" "jsonValue w" "canonicalJson v = canonicalJson w"
  shows "canonicalize v = canonicalize w"
proof -
  note cv = canonicalize_jsonValue [OF assms(1)] and cw = canonicalize_jsonValue [OF assms(2)]
  have "canonicalize v \<noteq> JUndef" "canonicalize w \<noteq> JUndef" using cv cw by auto
  then have "stringify 0 (canonicalize v) @ [CHR 0x0A] = stringify 0 (canonicalize w) @ [CHR 0x0A]"
    using assms(3) by (simp add: canonicalJson_def)
  moreover have "endsNumeral [CHR 0x0A]" by (simp add: endsNumeral_def numeralChar_def isDigit_def codePoint_def)
  ultimately show ?thesis using stringify_prefix_free [OF cv cw] by blast
qed

lemma rearranged:
  "mset (map f ys) = mset zs \<Longrightarrow> \<exists>xs. mset xs = mset ys \<and> map f xs = zs"
proof (induction zs arbitrary: ys)
  case (Cons z zs)
  then have "z \<in> set (map f ys)" by (metis list.set_intros(1) mset_eq_setD)
  then obtain y where y: "y \<in> set ys" "z = f y" by auto
  then have "mset (map f (remove1 y ys)) = mset zs"
    using Cons.prems by (simp add: image_mset_Diff)
  from Cons.IH [OF this] obtain xs where "mset xs = mset (remove1 y ys)" "map f xs = zs" by blast
  moreover have "add_mset y (mset ys - {#y#}) = mset ys" using y(1) by (simp add: insert_DiffM)
  ultimately show ?case unfolding y(2) by (intro exI [of _ "y # xs"]) simp
qed simp

lemma canonicalize_object: "canonicalize w = JObj gs \<Longrightarrow> \<exists>gs'. w = JObj gs'"
  by (cases w) simp_all

lemma canonicalize_leaf:
  "JUndef = canonicalize w \<Longrightarrow> w = JUndef"
  "JNull = canonicalize w \<Longrightarrow> w = JNull"
  "JBool b = canonicalize w \<Longrightarrow> w = JBool b"
  "JNum i = canonicalize w \<Longrightarrow> w = JNum i"
  "JFrac s = canonicalize w \<Longrightarrow> w = JFrac s"
  "JStr s = canonicalize w \<Longrightarrow> w = JStr s"
  by (cases w; simp)+

lemma canonicalize_same:
  "\<lbrakk>jsonValue v; jsonValue w; canonicalize v = canonicalize w\<rbrakk> \<Longrightarrow> sameUpToKeyOrder v w"
proof (induction v arbitrary: w)
  case (JArr xs)
  obtain ys where w: "w = JArr ys" "map canonicalize xs = map canonicalize ys" using JArr.prems(3) by (cases w) auto
  then have len: "length xs = length ys" by (metis length_map)
  have "sameUpToKeyOrder (xs ! i) (ys ! i)" if "i < length xs" for i
  proof -
    have "canonicalize (xs ! i) = canonicalize (ys ! i)" using w(2) that len by (metis nth_map)
    then show ?thesis using JArr.IH [of "xs ! i" "ys ! i"] JArr.prems(1,2) w(1) that len by (simp add: list_all_length)
  qed
  then show ?case unfolding w(1) by (intro array) (simp add: list_all2_conv_all_nth len)
next
  case (JObj fs)
  let ?c = "\<lambda>f. (fst f, canonicalize (snd f))"
  obtain gs' where w: "w = JObj gs'"
    using JObj.prems(3) by (metis canonicalize.simps(2) canonicalize_object)
  obtain g where g: "canonicalize (JObj fs) = JObj g" using canonicalize.simps(2) by blast
  have g': "canonicalize (JObj gs') = JObj g" using g unfolding JObj.prems(3) w .
  have "mset (map ?c gs') = mset (map ?c fs)"
    by (rule trans [OF canonicalize_fields [OF JObj.prems(2) [unfolded w] g', symmetric] canonicalize_fields [OF JObj.prems(1) g]])
  from rearranged [OF this] obtain gs where gs: "mset gs = mset gs'" "map ?c gs = map ?c fs" by blast
  then have len: "length gs = length fs" by (metis length_map)
  have "fst (fs ! i) = fst (gs ! i) \<and> sameUpToKeyOrder (snd (fs ! i)) (snd (gs ! i))" if "i < length fs" for i
  proof -
    have f: "fs ! i \<in> set fs" and g: "gs ! i \<in> set gs'"
      using that len gs(1) nth_mem by (auto simp: mset_eq_setD [OF gs(1), symmetric])
    have same: "?c (gs ! i) = ?c (fs ! i)" using gs(2) that len by (metis (no_types, lifting) nth_map)
    have "snd (fs ! i) \<in> Basic_BNFs.snds (fs ! i)" by (cases "fs ! i") simp
    from JObj.IH [OF f this, of "snd (gs ! i)"] same f g JObj.prems(1,2) w
    show ?thesis by (auto simp: list_all_iff)
  qed
  then have "list_all2 (\<lambda>f g. fst f = fst g \<and> sameUpToKeyOrder (snd f) (snd g)) fs gs"
    by (simp add: list_all2_conv_all_nth len)
  moreover have "distinct (map fst gs)"
    using JObj.prems(2) w gs(1) by (metis jsonValue.simps(4) mset_eq_imp_distinct_iff mset_map)
  ultimately show ?case unfolding w using gs(1) by (intro object) auto
qed (auto dest!: canonicalize_leaf intro: leaf)

section \<open>Properties\<close>

text \<open>
  C38: the canonical text identifies a JSON value: two values have the same text exactly when they
  differ at most in the order of object keys, at any depth. The content addresses of two values agree
  exactly then, or when the hash function maps two different texts to one digest.
\<close>

theorem canonical_text_identifies_value:
  assumes "jsonValue v" and "jsonValue w"
  shows "(canonicalJson v = canonicalJson w) = sameUpToKeyOrder v w \<and>
    (recordSha256 H v = recordSha256 H w) =
      (sameUpToKeyOrder v w \<or> canonicalJson v \<noteq> canonicalJson w \<and> H (canonicalJson v) = H (canonicalJson w))"
proof -
  have same: "(canonicalJson v = canonicalJson w) = sameUpToKeyOrder v w"
    using canonicalJson_inj [OF assms] canonicalize_same [OF assms] canonicalize_sameUpToKeyOrder
    by (auto simp: canonicalJson_def)
  then show ?thesis by (auto simp: recordSha256_def)
qed

theorem canonical_text_identifies_value_witness:
  "recordSha256 (\<lambda>s. s) (JArr [JObj [(''b'', JNum 1), (''a'', JNull)]]) =
     recordSha256 (\<lambda>s. s) (JArr [JObj [(''a'', JNull), (''b'', JNum 1)]]) \<and>
   \<not> sameUpToKeyOrder (JObj [(''a'', JNum 12)]) (JObj [(''a'', JStr ''12'')])"
proof -
  have "sameUpToKeyOrder (JObj [(''b'', JNum 1), (''a'', JNull)]) (JObj [(''a'', JNull), (''b'', JNum 1)])"
    by (rule object [where gs = "[(''b'', JNum 1), (''a'', JNull)]"]) (auto intro: leaf)
  then have "sameUpToKeyOrder (JArr [JObj [(''b'', JNum 1), (''a'', JNull)]])
      (JArr [JObj [(''a'', JNull), (''b'', JNum 1)]])"
    by (auto intro: array)
  moreover have "canonicalJson (JObj [(''a'', JNum 12)]) \<noteq> canonicalJson (JObj [(''a'', JStr ''12'')])"
    by code_simp
  ultimately show ?thesis
    using canonical_text_identifies_value
      [of "JArr [JObj [(''b'', JNum 1), (''a'', JNull)]]" "JArr [JObj [(''a'', JNull), (''b'', JNum 1)]]" "\<lambda>s. s"]
      canonical_text_identifies_value [of "JObj [(''a'', JNum 12)]" "JObj [(''a'', JStr ''12'')]" "\<lambda>s. s"]
    by simp
qed

end
