(* ===== verification/SgosControl.thy ===== *)
theory SgosControl
  imports SgosContracts SgosSimulation CanonicalText
begin

text \<open>
  The control lineage of a Process, from \<open>src/sgos/store.mjs\<close>: content-addressed records, the rooted
  record index, the control event of every transition and its successor, and the replay that
  reconstructs the current Process from them.

  A file stands for the record it holds. Writing prints the canonical text of the record and reading
  parses it again; both are left out, and so are directories, links and locks.
\<close>

section \<open>Identifiers and digests\<close>

definition ignoring :: "'a result \<Rightarrow> unit result" where
  "ignoring r = andThen r (\<lambda>_. Inr ())"

definition requireId :: "jsval \<Rightarrow> string result" where
  "requireId v = (let s = jsString (coalesce v (JStr [])) in
     if identifierChars s \<and> length s \<le> 160 then Inr s else fail ''SGOS_ID_INVALID'')"

definition requireProcessId :: "jsval \<Rightarrow> string result" where
  "requireProcessId v = andThen (requireId v) (\<lambda>s.
     if identifierText ''PROC'' s then Inr s else fail ''SGOS_ID_INVALID'')"

text \<open>\<open>SHA256.test(String(value ?? ''))\<close>.\<close>

definition digestLike :: "jsval \<Rightarrow> bool" where
  "digestLike v \<longleftrightarrow> sha256Pattern (jsString (coalesce v (JStr [])))"

definition requireSha256 :: "jsval \<Rightarrow> string result" where
  "requireSha256 v = (if digestLike v then Inr (jsString v) else fail ''SGOS_HASH_INVALID'')"

definition requireNullableSha256 :: "jsval \<Rightarrow> unit result" where
  "requireNullableSha256 v = (if nullish v then Inr () else ignoring (requireSha256 v))"

definition hashWithout :: "hash_function \<Rightarrow> jsval \<Rightarrow> string \<Rightarrow> string" where
  "hashWithout H value field = sgosSha256 H (JObj (deleteField field (fieldsOf value)))"

section \<open>Immutable records\<close>

text \<open>The families of the store, with the field that holds the hash of each.\<close>

definition immutableFamilies :: "(string \<times> string) list" where
  "immutableFamilies =
     [(''gvm-program'', ''programSha256''), (''candidate-snapshot'', ''candidateSha256''),
      (''resource-lease'', ''leaseSha256''), (''join-receipt'', ''joinReceiptSha256''),
      (''quorum-join-receipt'', ''quorumJoinReceiptSha256''), (''reducer-join-receipt'', ''reducerJoinReceiptSha256''),
      (''manual-reconcile-join-receipt'', ''manualReconcileJoinReceiptSha256''),
      (''effect-replay-receipt'', ''effectReplayReceiptSha256''), (''effect-retry-receipt'', ''effectRetryReceiptSha256''),
      (''fork-prefix-task-import'', ''forkTaskImportSha256''), (''fork-prefix-import-receipt'', ''forkImportReceiptSha256''),
      (''fork-dynamic-task-import'', ''forkDynamicTaskImportSha256''),
      (''fork-dynamic-prefix-import-receipt'', ''forkDynamicImportReceiptSha256''),
      (''fanout-expansion-receipt'', ''expansionSha256''), (''dynamic-fanout-collection'', ''collectionRecordSha256''),
      (''dynamic-fanout-expansion-receipt'', ''expansionSha256''), (''sgos-replay-plan'', ''replayPlanSha256''),
      (''process-binding'', ''bindingSha256''), (''sgos-record-index'', ''recordIndexSha256''),
      (''sgos-control-event'', ''controlEventSha256''), (''gvm-task-attempt'', ''attemptSha256''),
      (''gvm-task-receipt'', ''receiptSha256''), (''gvm-checkpoint'', ''checkpointSha256''),
      (''human-request'', ''requestSha256''), (''human-response'', ''responseSha256''),
      (''agent-proposal'', ''proposalSha256''), (''action-evidence'', ''evidenceSha256'')]"

definition stampAndHash :: "hash_function \<Rightarrow> string \<Rightarrow> string \<Rightarrow> fields \<Rightarrow> jsval" where
  "stampAndHash H family hashField fs =
     (let core = setField ''schemaVersion'' (JNum (currentSchemaVersion family)) (deleteField hashField fs) in
      JObj (spread core [(hashField, JStr (sgosSha256 H (JObj core)))]))"

definition sealSgosImmutableRecord :: "hash_function \<Rightarrow> string \<Rightarrow> jsval \<Rightarrow> jsval result" where
  "sealSgosImmutableRecord H family value =
     (case map_of immutableFamilies family of None \<Rightarrow> fail ''SGOS_RECORD_FAMILY_INVALID''
      | Some hashField \<Rightarrow> Inr (stampAndHash H family hashField (fieldsOf value)))"

type_synonym record_files = "((string \<times> string) \<times> jsval) list"

definition readSgosImmutableRecord ::
    "hash_function \<Rightarrow> (nat list \<Rightarrow> string) \<Rightarrow> record_files \<Rightarrow> jsval \<Rightarrow> string \<Rightarrow> jsval \<Rightarrow> jsval result" where
  "readSgosImmutableRecord H hashBytes files pid family sha =
     andThen (requireProcessId pid) (\<lambda>owner.
     case map_of immutableFamilies family of None \<Rightarrow> fail ''SGOS_RECORD_FAMILY_INVALID''
     | Some hashField \<Rightarrow> andThen (requireSha256 sha) (\<lambda>reference.
       case map_of files (family, reference) of None \<Rightarrow> fail ''SGOS_RECORD_NOT_FOUND''
       | Some stored \<Rightarrow> andThen (requireSha256 (getp stored hashField)) (\<lambda>expected.
         andThen (checks
           [refuseIf (JStr expected \<noteq> sha \<or> hashWithout H stored hashField \<noteq> expected) ''SGOS_RECORD_CORRUPT'',
            refuseIf (\<not> nullish (getp stored ''processId'') \<and> getp stored ''processId'' \<noteq> JStr owner)
              ''SGOS_RECORD_PROCESS_MISMATCH'']) (\<lambda>_.
         andThen (recode ''SGOS_RECORD_CORRUPT'' (validateSgosRecord H hashBytes stored)) (\<lambda>_. Inr stored)))))"

section \<open>The shape of a Process\<close>

abbreviation processCorrupt :: string where "processCorrupt \<equiv> ''SGOS_PROCESS_CORRUPT''"

definition taskValues :: "jsval \<Rightarrow> jsval list" where
  "taskValues process = map snd (entries (getp process ''taskInstances''))"

text \<open>\<open>new Set(values).size === values.length\<close>: two objects are never the same member.\<close>

definition noRepetition :: "jsval \<Rightarrow> bool" where
  "noRepetition v \<longleftrightarrow> distinct (filter (\<lambda>x. \<not> plainObject x \<and> \<not> isArray x) (elements v))"

definition taskShape :: "string \<times> jsval \<Rightarrow> unit result" where
  "taskShape kt = (let task = snd kt; succeeded = (getp task ''state'' = JStr ''succeeded'') in checks
     [refuseIf (getp task ''taskInstanceId'' \<noteq> JStr (fst kt) \<or> getp task ''state'' \<notin> JStr ` set (map stateName taskStates))
        processCorrupt,
      refuseIf (\<not> isArray (getp task ''predecessorTaskInstanceIds'') \<or> \<not> isArray (getp task ''attemptIds''))
        processCorrupt,
      refuseIf (succeeded \<and> \<not> digestLike (getp task ''receiptSha256'')) ''SGOS_SUCCESS_WITHOUT_RECEIPT'',
      refuseIf (\<not> succeeded \<and> \<not> nullish (getp task ''receiptSha256'') \<and> \<not> digestLike (getp task ''invalidatedBy''))
        ''SGOS_RECEIPT_LINEAGE_INVALID''])"

definition assertProcessShape :: "jsval \<Rightarrow> unit result" where
  "assertProcessShape process = (let tasks = getp process ''taskInstances'' in checks
     [refuseIf (getp process ''kind'' \<noteq> JStr ''gvm-process'') processCorrupt,
      ignoring (requireProcessId (getp process ''processId'')),
      eachOf (\<lambda>k. ignoring (requireSha256 (getp process k)))
        [''programSha256'', ''policySnapshotSha256'', ''processBindingSha256''],
      eachOf (\<lambda>k. requireNullableSha256 (getp process k))
        [''taskContractSha256'', ''currentCheckpointSha256'', ''controlEventSha256'', ''recordIndexSha256''],
      refuseIf (getp process ''status'' \<notin> JStr ` set (map statusName processStates)) processCorrupt,
      refuseIf (\<not> isInteger (getp process ''processRevision'') \<or> numberOf (getp process ''processRevision'') < 1)
        processCorrupt,
      refuseIf (\<not> plainObject tasks) processCorrupt,
      refuseIf (maximumTasks < int (length (entries tasks))) ''SGOS_PROCESS_TASK_LIMIT'',
      eachOf taskShape (entries tasks),
      eachOf (\<lambda>k. checks [refuseIf (\<not> isArray (getp process k)) processCorrupt,
          refuseIf (\<not> noRepetition (getp process k)) processCorrupt])
        [''activeExecutions'', ''openHumanRequests'', ''activeLeases''],
      refuseIf (getp process ''status'' = JStr ''succeeded'' \<and>
          (list_ex (\<lambda>t. getp t ''state'' \<notin> {JStr ''succeeded'', JStr ''skipped''}) (taskValues process)
           \<or> elements (getp process ''activeExecutions'') \<noteq> [] \<or> elements (getp process ''openHumanRequests'') \<noteq> []))
        ''SGOS_SUCCESS_WITHOUT_RECEIPT''])"

section \<open>Control events\<close>

definition sealProcess :: "hash_function \<Rightarrow> jsval \<Rightarrow> jsval" where
  "sealProcess H value = stampAndHash H ''gvm-process'' ''processSha256'' (fieldsOf value)"

definition mutableFields :: "string list" where
  "mutableFields = [''status'', ''taskInstances'', ''activeExecutions'', ''openHumanRequests'', ''activeLeases'',
     ''currentCheckpointSha256'', ''processRevision'', ''updatedAt'']"

definition mutableProcessProjection :: "jsval \<Rightarrow> jsval" where
  "mutableProcessProjection process = JObj (map (\<lambda>k. (k, getp process k)) mutableFields)"

definition coreFields :: "string list" where
  "coreFields = [''processId'', ''programSha256'', ''policySnapshotSha256'', ''processBindingSha256'',
     ''taskContractSha256'', ''authorityBinding'', ''createdAt'']"

definition immutableProcessCoreSha256 :: "hash_function \<Rightarrow> jsval \<Rightarrow> string" where
  "immutableProcessCoreSha256 H process = sgosSha256 H (JObj (map (\<lambda>k. (k, getp process k)) coreFields))"

definition sizeOf :: "jsval \<Rightarrow> string \<Rightarrow> nat" where
  "sizeOf process k = length (elements (getp process k))"

definition controlEventAction :: "jsval \<Rightarrow> jsval \<Rightarrow> string" where
  "controlEventAction earlier later =
     (let was = (\<lambda>s. getp earlier ''status'' = JStr s); is = (\<lambda>s. getp later ''status'' = JStr s) in
      if \<not> was ''paused'' \<and> is ''paused'' then ''process-paused''
      else if was ''paused'' \<and> \<not> is ''paused'' then ''process-resumed''
      else if \<not> was ''recovery-required'' \<and> is ''recovery-required'' then ''recovery-required''
      else if was ''recovery-required'' \<and> \<not> is ''recovery-required'' then ''recovery-resolved''
      else if sizeOf earlier ''activeExecutions'' < sizeOf later ''activeExecutions'' then ''execution-started''
      else if sizeOf later ''activeExecutions'' < sizeOf earlier ''activeExecutions'' then ''execution-finished''
      else if sizeOf earlier ''openHumanRequests'' < sizeOf later ''openHumanRequests'' then ''human-requested''
      else if sizeOf later ''openHumanRequests'' < sizeOf earlier ''openHumanRequests'' then ''human-resolved''
      else ''process-transition'')"

abbreviation lineageInvalid :: string where "lineageInvalid \<equiv> ''SGOS_CONTROL_LINEAGE_INVALID''"

definition processFromControlEvent ::
    "hash_function \<Rightarrow> (nat list \<Rightarrow> string) \<Rightarrow> jsval \<Rightarrow> jsval \<Rightarrow> jsval result" where
  "processFromControlEvent H hashBytes base event =
     (if getp event ''processCoreSha256'' \<noteq> JStr (immutableProcessCoreSha256 H base) then fail lineageInvalid
      else let reconstructed = spread (spread (fieldsOf base) (entries (getp event ''result'')))
             [(''schemaVersion'', JNum (currentSchemaVersion ''gvm-process'')), (''kind'', JStr ''gvm-process''),
              (''controlEventSha256'', getp event ''controlEventSha256''),
              (''recordIndexSha256'', getp event ''recordIndexSha256'')];
           sealed = sealProcess H (JObj (deleteField ''processSha256'' reconstructed)) in
        andThen (assertProcessShape sealed) (\<lambda>_.
        andThen (recode lineageInvalid (validateSgosRecord H hashBytes sealed)) (\<lambda>_. Inr sealed)))"

record control_position =
  controlDepth :: int
  operatorTransitions :: int
  positionAction :: string

definition sealControlEvent :: "hash_function \<Rightarrow> jsval \<Rightarrow> jsval \<Rightarrow> control_position \<Rightarrow> jsval result" where
  "sealControlEvent H earlier later position =
     andThen (requireSha256 (getp later ''recordIndexSha256'')) (\<lambda>index.
       sealSgosImmutableRecord H ''sgos-control-event'' (JObj
         [(''schemaVersion'', JNum (currentSchemaVersion ''sgos-control-event'')), (''kind'', JStr ''sgos-control-event''),
          (''processId'', getp earlier ''processId''),
          (''processCoreSha256'', JStr (immutableProcessCoreSha256 H earlier)),
          (''priorControlEventSha256'', getp earlier ''controlEventSha256''),
          (''beforeProcessSha256'', getp earlier ''processSha256''),
          (''beforeProcessRevision'', getp earlier ''processRevision''),
          (''controlDepth'', JNum (controlDepth position)),
          (''operatorTransitionCount'', JNum (operatorTransitions position)),
          (''recordIndexSha256'', JStr index),
          (''action'', JStr (positionAction position)),
          (''result'', mutableProcessProjection later),
          (''createdAt'', getp later ''updatedAt'')]))"

definition assertSgosControlCapacity :: "jsval \<Rightarrow> jsval \<Rightarrow> unit result" where
  "assertSgosControlCapacity depth operators = checks
     [refuseIf (\<not> isSafeInteger depth \<or> numberOf depth < 1 \<or> maximumControlRecords < numberOf depth)
        ''SGOS_CONTROL_LINEAGE_LIMIT'',
      refuseIf (\<not> isSafeInteger operators \<or> numberOf operators < 0 \<or> maximumOperatorControlTransitions < numberOf operators)
        ''SGOS_OPERATOR_CONTROL_LIMIT'']"

definition operatorAction :: "jsval \<Rightarrow> bool" where
  "operatorAction action \<longleftrightarrow> action \<in> {JStr ''process-paused'', JStr ''process-resumed''}"

definition operatorStep :: "jsval \<Rightarrow> int" where
  "operatorStep action = (if operatorAction action then 1 else 0)"

definition nextSgosControlPosition ::
    "hash_function \<Rightarrow> (nat list \<Rightarrow> string) \<Rightarrow> record_files \<Rightarrow> jsval \<Rightarrow> jsval \<Rightarrow> control_position result" where
  "nextSgosControlPosition H hashBytes files earlier later =
     (let action = controlEventAction earlier later in
      if getp earlier ''controlEventSha256'' = JNull
      then andThen (assertSgosControlCapacity (JNum 1) (JNum 0)) (\<lambda>_.
        Inr \<lparr>controlDepth = 1, operatorTransitions = 0, positionAction = action\<rparr>)
      else andThen (readSgosImmutableRecord H hashBytes files (getp earlier ''processId'') ''sgos-control-event''
          (getp earlier ''controlEventSha256'')) (\<lambda>prior.
        let depth = numberOf (getp prior ''controlDepth'') + 1;
            operators = numberOf (getp prior ''operatorTransitionCount'') + operatorStep (JStr action) in
        andThen (assertSgosControlCapacity (JNum depth) (JNum operators)) (\<lambda>_.
          Inr \<lparr>controlDepth = depth, operatorTransitions = operators, positionAction = action\<rparr>)))"

section \<open>The record index\<close>

definition compareRecordIndexEntries :: "jsval \<Rightarrow> jsval \<Rightarrow> int" where
  "compareRecordIndexEntries left right = compareSgosCodePoints (sgosRecordIndexEntryKey left) (sgosRecordIndexEntryKey right)"

definition entryOwner :: "string \<Rightarrow> jsval \<Rightarrow> string \<Rightarrow> (string \<times> string) list \<Rightarrow> fields result" where
  "entryOwner family value field fallback =
     (if \<not> nullish (getp value field)
      then andThen (requireId (getp value field)) (\<lambda>i. Inr [(field, JStr i)])
      else case map_of fallback family of None \<Rightarrow> Inr []
      | Some source \<Rightarrow> andThen (requireId (getp value source)) (\<lambda>i. Inr [(field, JStr i)]))"

definition recordIndexEntry :: "string \<Rightarrow> jsval \<Rightarrow> jsval result" where
  "recordIndexEntry family value =
     (case map_of immutableFamilies family of None \<Rightarrow> fail ''SGOS_RECORD_FAMILY_INVALID''
      | Some hashField \<Rightarrow>
        if family \<notin> set sgosRecordIndexFamilies then fail ''SGOS_RECORD_FAMILY_INVALID''
        else andThen (requireSha256 (getp value hashField)) (\<lambda>sha.
          andThen (entryOwner family value ''attemptId'' [(''dynamic-fanout-collection'', ''sourceAttemptId'')]) (\<lambda>attempt.
          andThen (entryOwner family value ''taskInstanceId''
            [(''fork-prefix-task-import'', ''childTaskInstanceId''), (''fork-dynamic-task-import'', ''childTaskInstanceId''),
             (''dynamic-fanout-collection'', ''sourceTaskInstanceId'')]) (\<lambda>task.
            Inr (JObj ([(''family'', JStr family), (''recordSha256'', JStr sha),
              (''bytes'', JNum (utf8Length (canonicalJson value)))] @ attempt @ task))))))"

text \<open>An absent prior index counts as an empty one.\<close>

definition priorCount :: "jsval option \<Rightarrow> string \<Rightarrow> int" where
  "priorCount prior k = (case prior of None \<Rightarrow> 0 | Some i \<Rightarrow> numberOf (coalesce (getp i k) (JNum 0)))"

definition nextSequence :: "jsval option \<Rightarrow> int" where
  "nextSequence prior = (case prior of None \<Rightarrow> 0 | Some i \<Rightarrow> numberOf (getp i ''sequence'') + 1)"

definition priorIndexValue :: "jsval option \<Rightarrow> jsval" where
  "priorIndexValue prior = (case prior of None \<Rightarrow> JNull | Some i \<Rightarrow> coalesce (getp i ''recordIndexSha256'') JNull)"

definition countFamily :: "fields \<Rightarrow> jsval \<Rightarrow> fields" where
  "countFamily counts entry = (let family = jsString (getp entry ''family'') in
     setField family (JNum (numberOf (coalesce (getp (JObj counts) family) (JNum 0)) + 1)) counts)"

definition familyCountsAfter :: "jsval option \<Rightarrow> jsval list \<Rightarrow> jsval" where
  "familyCountsAfter prior delta =
     (let counts = (case prior of None \<Rightarrow> [] | Some i \<Rightarrow> entries (coalesce (getp i ''familyCounts'') (JObj []))) in
      JObj (fromEntries (sortBy (byKey fst) (filter (\<lambda>f. 0 < numberOf (snd f)) (foldl countFamily counts delta)))))"

definition deltaSize :: "jsval list \<Rightarrow> int" where
  "deltaSize delta = sum_list (map (\<lambda>e. numberOf (getp e ''bytes'')) delta)"

definition sealSgosRecordIndex :: "hash_function \<Rightarrow> jsval \<Rightarrow> jsval option \<Rightarrow> jsval list \<Rightarrow> jsval result" where
  "sealSgosRecordIndex H pid prior delta =
     (let sorted = sortBy compareRecordIndexEntries delta;
          records = priorCount prior ''totalRecordCount'' + int (length sorted);
          bytes = priorCount prior ''totalBytes'' + deltaSize sorted in
      if maximumRecordIndexDeltaEntries < int (length sorted) \<or> maximumProcessRecords < records
         \<or> maximumProcessRecordBytes < bytes
      then fail ''SGOS_PROCESS_RECORD_BUDGET_EXCEEDED''
      else sealSgosImmutableRecord H ''sgos-record-index'' (JObj
        [(''schemaVersion'', JNum (currentSchemaVersion ''sgos-record-index'')), (''kind'', JStr ''sgos-record-index''),
         (''processId'', pid), (''sequence'', JNum (nextSequence prior)), (''priorIndexSha256'', priorIndexValue prior),
         (''delta'', JArr sorted), (''familyCounts'', familyCountsAfter prior sorted),
         (''totalRecordCount'', JNum records), (''totalBytes'', JNum bytes)]))"

definition missingRecordCode :: "string \<Rightarrow> string" where
  "missingRecordCode family =
     (if family = ''gvm-task-attempt'' then ''SGOS_RECORD_LINEAGE_INVALID''
      else if family = ''gvm-task-receipt'' then ''SGOS_RECEIPT_LINEAGE_INVALID''
      else ''SGOS_RECORD_INDEX_INVALID'')"

definition assertIndexedRecord ::
    "hash_function \<Rightarrow> (nat list \<Rightarrow> string) \<Rightarrow> record_files \<Rightarrow> jsval \<Rightarrow> jsval \<Rightarrow> unit result" where
  "assertIndexedRecord H hashBytes files pid entry =
     (let family = jsString (getp entry ''family'');
          found = readSgosImmutableRecord H hashBytes files pid family (getp entry ''recordSha256'') in
      if found = fail ''SGOS_RECORD_NOT_FOUND'' then fail (missingRecordCode family)
      else andThen found (\<lambda>value. andThen (recordIndexEntry family value) (\<lambda>actual.
        refuseIf (getp actual ''bytes'' \<noteq> getp entry ''bytes'' \<or> getp actual ''attemptId'' \<noteq> getp entry ''attemptId''
          \<or> getp actual ''taskInstanceId'' \<noteq> getp entry ''taskInstanceId'') ''SGOS_RECORD_INDEX_INVALID'')))"

definition assertSgosRecordIndexEdge ::
    "hash_function \<Rightarrow> (nat list \<Rightarrow> string) \<Rightarrow> record_files \<Rightarrow> jsval \<Rightarrow> jsval \<Rightarrow> jsval option \<Rightarrow> bool \<Rightarrow> unit result" where
  "assertSgosRecordIndexEdge H hashBytes files pid index prior verifyRecords =
     (let delta = elements (getp index ''delta'') in checks
       [refuseIf (getp index ''processId'' \<noteq> pid \<or> getp index ''sequence'' \<noteq> JNum (nextSequence prior)
           \<or> getp index ''priorIndexSha256'' \<noteq> priorIndexValue prior) ''SGOS_RECORD_INDEX_INVALID'',
        refuseIf (canonicalJson (getp index ''familyCounts'') \<noteq> canonicalJson (familyCountsAfter prior delta)
           \<or> getp index ''totalRecordCount'' \<noteq> JNum (priorCount prior ''totalRecordCount'' + int (length delta))
           \<or> getp index ''totalBytes'' \<noteq> JNum (priorCount prior ''totalBytes'' + deltaSize delta))
           ''SGOS_RECORD_INDEX_INVALID'',
        (if verifyRecords then eachOf (assertIndexedRecord H hashBytes files pid) delta else Inr ())])"

definition readSgosRecordIndexHead ::
    "hash_function \<Rightarrow> (nat list \<Rightarrow> string) \<Rightarrow> record_files \<Rightarrow> jsval \<Rightarrow> jsval \<Rightarrow> jsval result" where
  "readSgosRecordIndexHead H hashBytes files pid sha =
     andThen (readSgosImmutableRecord H hashBytes files pid ''sgos-record-index'' sha) (\<lambda>index.
     andThen (if getp index ''priorIndexSha256'' = JNull then Inr None
        else andThen (readSgosImmutableRecord H hashBytes files pid ''sgos-record-index'' (getp index ''priorIndexSha256''))
          (\<lambda>prior. Inr (Some prior))) (\<lambda>prior.
     andThen (assertSgosRecordIndexEdge H hashBytes files pid index prior True) (\<lambda>_. Inr index)))"

text \<open>
  The records rooted in an index: the delta of the head and of every index before it. The walk stops
  at the installed number of records, so the bound of the code is the bound of the recursion.
\<close>

definition addIdentity :: "string list \<Rightarrow> jsval \<Rightarrow> string list result" where
  "addIdentity seen entry =
     (if recordIdentity entry \<in> set seen then fail ''SGOS_RECORD_INDEX_DUPLICATE'' else Inr (seen @ [recordIdentity entry]))"

fun walkIndexes ::
    "nat \<Rightarrow> hash_function \<Rightarrow> (nat list \<Rightarrow> string) \<Rightarrow> record_files \<Rightarrow> jsval \<Rightarrow> jsval \<Rightarrow> string list \<Rightarrow> string list result" where
  "walkIndexes left H hashBytes files pid cursor seen =
     (if cursor = JNull then Inr seen
      else case left of 0 \<Rightarrow> fail ''SGOS_RECORD_INDEX_LIMIT''
      | Suc rest \<Rightarrow>
        andThen (readSgosImmutableRecord H hashBytes files pid ''sgos-record-index'' cursor) (\<lambda>index.
        andThen (foldResult addIdentity seen (elements (getp index ''delta''))) (\<lambda>seen'.
          walkIndexes rest H hashBytes files pid (getp index ''priorIndexSha256'') seen')))"

declare walkIndexes.simps [simp del]

definition rootedRecordMembership ::
    "hash_function \<Rightarrow> (nat list \<Rightarrow> string) \<Rightarrow> record_files \<Rightarrow> jsval \<Rightarrow> jsval \<Rightarrow> string list result" where
  "rootedRecordMembership H hashBytes files pid head =
     andThen (walkIndexes (nat maximumProcessRecords) H hashBytes files pid head []) (\<lambda>seen.
       if maximumProcessRecords < int (length seen) then fail ''SGOS_RECORD_INDEX_LIMIT'' else Inr seen)"

definition isRootedRecord ::
    "hash_function \<Rightarrow> (nat list \<Rightarrow> string) \<Rightarrow> record_files \<Rightarrow> jsval \<Rightarrow> jsval \<Rightarrow> string \<Rightarrow> jsval \<Rightarrow> bool result" where
  "isRootedRecord H hashBytes files pid head family sha =
     (if nullish head then Inr False
      else andThen (rootedRecordMembership H hashBytes files pid head) (\<lambda>seen.
        Inr (family @ [CHR 0x00] @ jsString sha \<in> set seen)))"

section \<open>Successors and the replay\<close>

type_synonym successor_files = "(string \<times> jsval) list"

text \<open>The file of a successor is named by the Process it follows; no file, no successor.\<close>

definition readSgosControlSuccessor ::
    "hash_function \<Rightarrow> (nat list \<Rightarrow> string) \<Rightarrow> successor_files \<Rightarrow> jsval \<Rightarrow> jsval \<Rightarrow> jsval option result" where
  "readSgosControlSuccessor H hashBytes successors pid beforeSha =
     andThen (requireProcessId pid) (\<lambda>owner.
     andThen (requireSha256 beforeSha) (\<lambda>reference.
     case map_of successors reference of None \<Rightarrow> Inr None
     | Some stored \<Rightarrow> andThen (checks
         [refuseIf (getp stored ''processId'' \<noteq> JStr owner \<or> getp stored ''beforeProcessSha256'' \<noteq> beforeSha
             \<or> getp stored ''successorSha256'' \<noteq> JStr (hashWithout H stored ''successorSha256'')) lineageInvalid,
          ignoring (recode lineageInvalid (validateSgosRecord H hashBytes stored)),
          refuseIf (maximumProcessRecordBytes < numberOf (getp stored ''cumulativeInfrastructureBytes'')
             \<or> maximumProcessRecords < numberOf (getp stored ''cumulativeInfrastructureRecords''))
             ''SGOS_PROCESS_RECORD_BUDGET_EXCEEDED'']) (\<lambda>_. Inr (Some stored))))"

record control_store =
  recordFiles :: record_files
  successorFiles :: successor_files

record lineage_cursor =
  cursorState :: jsval
  cursorSha256 :: jsval
  cursorDepth :: jsval
  cursorOperators :: int
  cursorReplayed :: nat

text \<open>What the event of the head must be, by the event before it.\<close>

definition expectedPosition ::
    "hash_function \<Rightarrow> (nat list \<Rightarrow> string) \<Rightarrow> control_store \<Rightarrow> jsval \<Rightarrow> jsval \<Rightarrow> jsval \<Rightarrow> (int \<times> int) result" where
  "expectedPosition H hashBytes store state headEvent headIndex =
     (let own = operatorStep (getp headEvent ''action'') in
      if getp headEvent ''priorControlEventSha256'' = JNull then Inr (1, own)
      else andThen (readSgosImmutableRecord H hashBytes (recordFiles store) (getp state ''processId'') ''sgos-control-event''
          (getp headEvent ''priorControlEventSha256'')) (\<lambda>prior.
        if getp headIndex ''priorIndexSha256'' \<noteq> getp prior ''recordIndexSha256'' then fail ''SGOS_RECORD_INDEX_INVALID''
        else andThen (processFromControlEvent H hashBytes state prior) (\<lambda>priorState.
          if getp priorState ''processSha256'' \<noteq> getp headEvent ''beforeProcessSha256'' then fail lineageInvalid
          else Inr (numberOf (getp prior ''controlDepth'') + 1, numberOf (getp prior ''operatorTransitionCount'') + own))))"

text \<open>The checks on a Process that already has a control head.\<close>

definition assertControlHead ::
    "hash_function \<Rightarrow> (nat list \<Rightarrow> string) \<Rightarrow> control_store \<Rightarrow> jsval \<Rightarrow> lineage_cursor result" where
  "assertControlHead H hashBytes store state =
     (let pid = getp state ''processId''; files = recordFiles store in
      andThen (readSgosImmutableRecord H hashBytes files pid ''sgos-control-event'' (getp state ''controlEventSha256''))
        (\<lambda>headEvent.
      if getp headEvent ''recordIndexSha256'' \<noteq> getp state ''recordIndexSha256'' then fail ''SGOS_RECORD_INDEX_INVALID''
      else andThen (readSgosRecordIndexHead H hashBytes files pid (getp headEvent ''recordIndexSha256'')) (\<lambda>headIndex.
      andThen (readSgosControlSuccessor H hashBytes (successorFiles store) pid (getp headEvent ''beforeProcessSha256''))
        (\<lambda>successor.
      andThen (assertSgosControlCapacity (getp headEvent ''controlDepth'') (getp headEvent ''operatorTransitionCount'')) (\<lambda>_.
      andThen (expectedPosition H hashBytes store state headEvent headIndex) (\<lambda>expected.
      andThen (refuseIf (case successor of None \<Rightarrow> True | Some s \<Rightarrow>
            getp s ''controlEventSha256'' \<noteq> getp state ''controlEventSha256''
          \<or> getp s ''controlDepth'' \<noteq> getp headEvent ''controlDepth''
          \<or> getp s ''operatorTransitionCount'' \<noteq> getp headEvent ''operatorTransitionCount''
          \<or> getp headEvent ''controlDepth'' \<noteq> JNum (fst expected)
          \<or> getp headEvent ''operatorTransitionCount'' \<noteq> JNum (snd expected)
          \<or> JNum (numberOf (getp headEvent ''beforeProcessRevision'') + 1) \<noteq> getp state ''processRevision'') lineageInvalid) (\<lambda>_.
      andThen (processFromControlEvent H hashBytes state headEvent) (\<lambda>reconstructed.
      if getp reconstructed ''processSha256'' \<noteq> getp state ''processSha256'' then fail lineageInvalid
      else Inr \<lparr>cursorState = state, cursorSha256 = getp state ''processSha256'',
        cursorDepth = getp headEvent ''controlDepth'',
        cursorOperators = numberOf (getp headEvent ''operatorTransitionCount''), cursorReplayed = 0\<rparr>))))))))"

definition lineageStart ::
    "hash_function \<Rightarrow> (nat list \<Rightarrow> string) \<Rightarrow> control_store \<Rightarrow> jsval \<Rightarrow> jsval \<Rightarrow> bool \<Rightarrow> lineage_cursor result" where
  "lineageStart H hashBytes store state baselineSha legacy =
     (if getp state ''controlEventSha256'' = JNull
      then andThen (refuseIf (\<not> legacy \<and> getp state ''processRevision'' \<noteq> JNum 1) lineageInvalid) (\<lambda>_.
        Inr \<lparr>cursorState = state, cursorSha256 = baselineSha, cursorDepth = JNum 0, cursorOperators = 0, cursorReplayed = 0\<rparr>)
      else assertControlHead H hashBytes store state)"

text \<open>One round of the loop: \<open>None\<close> where no successor is stored.\<close>

definition unrootedStart :: "lineage_cursor \<Rightarrow> jsval \<Rightarrow> bool \<Rightarrow> bool" where
  "unrootedStart c event legacy \<longleftrightarrow> cursorReplayed c = 0 \<and> (legacy \<or>
     getp (cursorState c) ''controlEventSha256'' = JNull \<and> getp (cursorState c) ''recordIndexSha256'' = JNull \<and>
     getp event ''priorControlEventSha256'' = JNull)"

definition replaySuccessor ::
    "hash_function \<Rightarrow> (nat list \<Rightarrow> string) \<Rightarrow> control_store \<Rightarrow> bool \<Rightarrow> lineage_cursor \<Rightarrow> lineage_cursor option result" where
  "replaySuccessor H hashBytes store legacy c =
     (let state = cursorState c; pid = getp state ''processId''; files = recordFiles store in
      andThen (readSgosControlSuccessor H hashBytes (successorFiles store) pid (cursorSha256 c)) (\<lambda>found.
      case found of None \<Rightarrow> Inr None
      | Some successor \<Rightarrow>
        andThen (readSgosImmutableRecord H hashBytes files pid ''sgos-control-event'' (getp successor ''controlEventSha256''))
          (\<lambda>event.
        andThen (readSgosRecordIndexHead H hashBytes files pid (getp event ''recordIndexSha256'')) (\<lambda>index.
        andThen (assertSgosControlCapacity (getp event ''controlDepth'') (getp event ''operatorTransitionCount'')) (\<lambda>_.
        let operators = cursorOperators c + operatorStep (getp event ''action'') in
        andThen (refuseIf (getp event ''beforeProcessSha256'' \<noteq> cursorSha256 c
            \<or> getp event ''beforeProcessRevision'' \<noteq> getp state ''processRevision''
            \<or> getp event ''priorControlEventSha256'' \<noteq> getp state ''controlEventSha256''
            \<or> (\<not> unrootedStart c event legacy \<and> getp index ''priorIndexSha256'' \<noteq> getp state ''recordIndexSha256'')
            \<or> getp event ''controlDepth'' \<noteq> JNum (numberOf (cursorDepth c) + 1)
            \<or> getp successor ''controlDepth'' \<noteq> getp event ''controlDepth''
            \<or> getp successor ''operatorTransitionCount'' \<noteq> getp event ''operatorTransitionCount''
            \<or> getp event ''operatorTransitionCount'' \<noteq> JNum operators) lineageInvalid) (\<lambda>_.
        andThen (processFromControlEvent H hashBytes state event) (\<lambda>next.
          Inr (Some \<lparr>cursorState = next, cursorSha256 = getp next ''processSha256'', cursorDepth = getp event ''controlDepth'',
            cursorOperators = numberOf (getp event ''operatorTransitionCount''), cursorReplayed = Suc (cursorReplayed c)\<rparr>))))))))"

primrec replayLineage ::
    "nat \<Rightarrow> hash_function \<Rightarrow> (nat list \<Rightarrow> string) \<Rightarrow> control_store \<Rightarrow> bool \<Rightarrow> lineage_cursor \<Rightarrow> lineage_cursor result" where
  "replayLineage 0 H hashBytes store legacy c = fail ''SGOS_CONTROL_LINEAGE_LIMIT''"
| "replayLineage (Suc left) H hashBytes store legacy c =
     andThen (replaySuccessor H hashBytes store legacy c) (\<lambda>found.
       case found of None \<Rightarrow> Inr c | Some c' \<Rightarrow> replayLineage left H hashBytes store legacy c')"

definition reconcileSgosControlLineage ::
    "hash_function \<Rightarrow> (nat list \<Rightarrow> string) \<Rightarrow> control_store \<Rightarrow> jsval \<Rightarrow> jsval \<Rightarrow> bool \<Rightarrow> lineage_cursor result" where
  "reconcileSgosControlLineage H hashBytes store state baselineSha legacy =
     andThen (lineageStart H hashBytes store state baselineSha legacy) (\<lambda>c.
       replayLineage (Suc (nat maximumControlRecords)) H hashBytes store legacy c)"

end
