(* ===== verification/SgosFields.thy ===== *)
theory SgosFields
  imports SgosContracts CanonicalText
begin

text \<open>
  Objects with the same fields in another order: they have the same canonical text and digest, read
  alike property by property, and pass the same record contract.
\<close>

definition sameFields :: "fields \<Rightarrow> fields \<Rightarrow> bool" where
  "sameFields fs gs \<longleftrightarrow> distinct (map fst fs) \<and> distinct (map fst gs) \<and> map_of fs = map_of gs"

named_theorems distinct_fields \<open>operations that keep the keys of an object distinct\<close>

lemma distinct_setField [distinct_fields, intro]: "distinct (map fst fs) \<Longrightarrow> distinct (map fst (setField k v fs))"
  by (simp add: setField_def distinct_update)

lemma distinct_deleteField [distinct_fields, intro]: "distinct (map fst fs) \<Longrightarrow> distinct (map fst (deleteField k fs))"
  by (simp add: deleteField_def distinct_map_filter)

lemma distinct_spread [distinct_fields, intro]: "distinct (map fst fs) \<Longrightarrow> distinct (map fst (spread fs new))"
  by (induction new arbitrary: fs) (simp_all add: spread_Cons distinct_setField)

lemma map_of_deleteField: "map_of (deleteField h fs) = (map_of fs)(h := None)"
  by (induction fs) (auto simp: deleteField_def)

lemma sameFields_set: "sameFields fs gs \<Longrightarrow> set fs = set gs"
  unfolding sameFields_def using map_of_inject_set by blast

lemma sameFields_mset: "sameFields fs gs \<Longrightarrow> mset fs = mset gs"
  using sameFields_set [of fs gs]
  by (simp add: sameFields_def distinct_map set_eq_iff_mset_eq_distinct)

lemma sameFields_order:
  assumes "sameFields fs gs"
  shows "sameUpToKeyOrder (JObj fs) (JObj gs)"
proof (rule object)
  show "list_all2 (\<lambda>f g. fst f = fst g \<and> sameUpToKeyOrder (snd f) (snd g)) fs fs" by (simp add: list.rel_refl leaf)
  show "mset gs = mset fs" "distinct (map fst fs)"
    using sameFields_mset [OF assms] assms by (simp_all add: sameFields_def)
qed

lemma sameFields_text: "sameFields fs gs \<Longrightarrow> canonicalJson (JObj fs) = canonicalJson (JObj gs)"
  using canonicalize_sameUpToKeyOrder [OF sameFields_order] by (simp add: canonicalJson_def)

lemma sameFields_digest: "sameFields fs gs \<Longrightarrow> sgosSha256 H (JObj fs) = sgosSha256 H (JObj gs)"
  by (simp add: sgosSha256_def recordSha256_def sameFields_text)

lemma sameFields_getp: "sameFields fs gs \<Longrightarrow> getp (JObj fs) k = getp (JObj gs) k"
  by (simp add: sameFields_def)

lemma sameFields_setField: "sameFields fs gs \<Longrightarrow> sameFields (setField k v fs) (setField k v gs)"
  by (auto simp: sameFields_def map_of_setField)

lemma sameFields_deleteField: "sameFields fs gs \<Longrightarrow> sameFields (deleteField k fs) (deleteField k gs)"
  by (auto simp: sameFields_def map_of_deleteField)

lemma sameFields_sym: "sameFields fs gs \<Longrightarrow> sameFields gs fs"
  by (simp add: sameFields_def)

lemma sameFields_objectKeys: "sameFields fs gs \<Longrightarrow> fst ` set fs = fst ` set gs"
  by (simp add: sameFields_set)

lemma sameFieldsI:
  assumes "distinct (map fst fs)" "distinct (map fst gs)" and "fst ` set fs = fst ` set gs"
    and "\<And>k. k \<in> fst ` set fs \<Longrightarrow> getp (JObj fs) k = getp (JObj gs) k"
  shows "sameFields fs gs"
proof -
  have "map_of fs k = map_of gs k" for k
  proof (cases "k \<in> fst ` set fs")
    case True
    then obtain v w where "map_of fs k = Some v" "map_of gs k = Some w"
      using assms(3) by (metis map_of_eq_None_iff not_Some_eq)
    then show ?thesis using assms(4) [OF True] by simp
  next
    case False
    then show ?thesis using assms(3) by (metis map_of_eq_None_iff)
  qed
  then show ?thesis using assms(1,2) by (auto simp: sameFields_def)
qed

lemma present_key: "getp (JObj fs) k \<noteq> JUndef \<Longrightarrow> k \<in> fst ` set fs"
  by (metis getp_JObj map_of_eq_None_iff option.simps(4))

lemma getp_spread:
  assumes "distinct (map fst new)"
  shows "getp (JObj (spread base new)) k = (if k \<in> fst ` set new then getp (JObj new) k else getp (JObj base) k)"
proof -
  have rev: "map_of (rev new) = map_of new" by (rule map_of_inject_set [THEN iffD2]) (simp_all add: assms flip: rev_map)
  show ?thesis
  proof (cases "map_of new k")
    case None
    then have "k \<notin> fst ` set new" by (simp add: map_of_eq_None_iff)
    with None show ?thesis by (simp add: map_of_spread rev)
  next
    case (Some v)
    then have "k \<in> fst ` set new" by (metis map_of_eq_None_iff option.distinct(1))
    with Some show ?thesis by (simp add: map_of_spread rev)
  qed
qed

lemma keys_spread: "fst ` set (spread base new) = fst ` set base \<union> fst ` set new"
  by (induction new arbitrary: base) (auto simp: spread_Cons)

lemma keys_delete: "fst ` set (deleteField h fs) = fst ` set fs - {h}"
  by (auto simp: deleteField_def)

section \<open>The contract of a record does not see the order of its fields\<close>

lemma sameFields_base:
  assumes "sameFields fs gs"
  shows "validateBase H family allowed required (JObj fs) b = validateBase H family allowed required (JObj gs) b"
proof -
  have "list_all (\<lambda>f. fst f \<in> set ks) fs = list_all (\<lambda>f. fst f \<in> set ks) gs" for ks
    using sameFields_set [OF assms] by (simp add: list_all_iff)
  then have "exactKeys (JObj fs) ks = exactKeys (JObj gs) ks" for ks
    by (simp add: exactKeys_def objectCheck_def)
  moreover have "requireKeys (JObj fs) ks = requireKeys (JObj gs) ks" for ks
    using sameFields_set [OF assms] by (simp add: requireKeys_def hasOwn_def [abs_def])
  moreover have "recordSelfSha256 H (JObj fs) h = recordSelfSha256 H (JObj gs) h" for h
    using sameFields_set [OF assms] sameFields_deleteField [OF assms, of h]
    by (simp add: recordSelfSha256_def cloneJson_def list_all_iff sha256Json_def sameFields_digest
        deleteField_def [symmetric] sameFields_set)
  ultimately show ?thesis
    by (simp add: validateBase_def verifySelfHash_def Let_def sameFields_getp [OF assms] del: getp.simps)
qed

lemma sameFields_process:
  assumes "sameFields fs gs"
  shows "validateGvmProcessRecord H (JObj fs) b = validateGvmProcessRecord H (JObj gs) b"
  by (simp add: validateGvmProcessRecord_def fullBase_def sameFields_base [OF assms] sameFields_getp [OF assms]
      fieldsEach_def del: getp.simps)

end
