(* ===== verification/SgosPublication.thy ===== *)
theory SgosPublication
  imports SgosControl SgosFields
begin

text \<open>
  How a transition of a Process is sealed and published, from \<open>src/sgos/store.mjs\<close>: the record
  reservations that enter the next index, the control event, the candidate Process, the successor with
  its settled infrastructure account, and the writes that publish them in order.

  The footprint of execution leases is a parameter. The census of records a Process refers to, the
  operational store and its mirror, and the journal file of the intent are not part of this theory.
\<close>

section \<open>Reservations\<close>

record reservation =
  reservedRecord :: jsval
  reservedEntry :: jsval
  reservedToken :: jsval

definition reservationToken :: "string \<Rightarrow> jsval \<Rightarrow> int \<Rightarrow> jsval" where
  "reservationToken family sha bytes =
     JObj [(''family'', JStr family), (''recordSha256'', sha), (''bytes'', JNum bytes)]"

definition readRecordReservation ::
    "hash_function \<Rightarrow> (nat list \<Rightarrow> string) \<Rightarrow> record_files \<Rightarrow> jsval \<Rightarrow> string \<Rightarrow> jsval \<Rightarrow> reservation option result" where
  "readRecordReservation H hashBytes reserved pid family sha =
     (if family \<notin> set sgosRecordIndexFamilies then fail ''SGOS_RECORD_FAMILY_INVALID''
      else andThen (requireSha256 sha) (\<lambda>reference.
        case map_of reserved (family, reference) of None \<Rightarrow> Inr None
        | Some stored \<Rightarrow>
          let hashField = the (map_of immutableFamilies family) in
          andThen (checks
            [refuseIf (getp stored hashField \<noteq> sha \<or> JStr (hashWithout H stored hashField) \<noteq> sha
               \<or> \<not> nullish (getp stored ''processId'') \<and> getp stored ''processId'' \<noteq> pid) ''SGOS_RECORD_RESERVATION_CORRUPT'',
             ignoring (recode ''SGOS_RECORD_RESERVATION_CORRUPT'' (validateSgosRecord H hashBytes stored))]) (\<lambda>_.
          andThen (recordIndexEntry family stored) (\<lambda>entry.
            Inr (Some \<lparr>reservedRecord = stored, reservedEntry = entry,
              reservedToken = reservationToken family sha (utf8Length (canonicalJson stored))\<rparr>)))))"

text \<open>Reservation files are read in the order of their names.\<close>

definition reservationFile :: "string \<times> string \<Rightarrow> string" where
  "reservationFile key = fst key @ ''--'' @ drop 7 (snd key) @ ''.json''"

definition listRecordReservations ::
    "hash_function \<Rightarrow> (nat list \<Rightarrow> string) \<Rightarrow> record_files \<Rightarrow> jsval \<Rightarrow> reservation list result" where
  "listRecordReservations H hashBytes reserved pid =
     (if maximumPendingWriterFiles < int (length reserved) then fail ''SGOS_RECORD_RESERVATION_LIMIT''
      else mapResult (\<lambda>key. andThen (readRecordReservation H hashBytes reserved pid (fst key) (JStr (snd key))) (\<lambda>found.
          case found of None \<Rightarrow> fail ''SGOS_RECORD_RESERVATION_CORRUPT'' | Some r \<Rightarrow> Inr r))
        (sortBy (\<lambda>a b. compareSgosCodePoints (reservationFile a) (reservationFile b)) (map fst reserved)))"

definition validToken :: "jsval \<Rightarrow> bool" where
  "validToken token \<longleftrightarrow> plainObject token \<and> getp token ''family'' \<in> JStr ` set sgosRecordIndexFamilies
     \<and> digestLike (getp token ''recordSha256'') \<and> isSafeInteger (getp token ''bytes'') \<and> 1 \<le> numberOf (getp token ''bytes'')"

definition exactReservation ::
    "hash_function \<Rightarrow> (nat list \<Rightarrow> string) \<Rightarrow> record_files \<Rightarrow> jsval \<Rightarrow> jsval \<Rightarrow> reservation result" where
  "exactReservation H hashBytes reserved pid token =
     andThen (readRecordReservation H hashBytes reserved pid (jsString (getp token ''family'')) (getp token ''recordSha256''))
       (\<lambda>found. case found of None \<Rightarrow> fail ''SGOS_RECORD_RESERVATION_INVALID''
         | Some r \<Rightarrow> if getp (reservedToken r) ''bytes'' \<noteq> getp token ''bytes''
             then fail ''SGOS_RECORD_RESERVATION_INVALID'' else Inr r)"

text \<open>A later token of the same record replaces the earlier one in its place.\<close>

definition uniqueTokens :: "jsval list \<Rightarrow> jsval list" where
  "uniqueTokens tokens = map snd (foldl (\<lambda>m t. AList.update (recordIdentity t) t m) [] tokens)"

definition exactReservedIndexEntries ::
    "hash_function \<Rightarrow> (nat list \<Rightarrow> string) \<Rightarrow> record_files \<Rightarrow> jsval \<Rightarrow> jsval list \<Rightarrow> reservation list result" where
  "exactReservedIndexEntries H hashBytes reserved pid tokens =
     andThen (checks
       [refuseIf (\<not> list_all validToken tokens) ''SGOS_RECORD_RESERVATION_INVALID'',
        refuseIf (maximumRecordIndexDeltaEntries < int (length (uniqueTokens tokens))) ''SGOS_RECORD_INDEX_DELTA_LIMIT'']) (\<lambda>_.
     andThen (mapResult (exactReservation H hashBytes reserved pid) (uniqueTokens tokens)) (\<lambda>rs.
       Inr (sortBy (\<lambda>a b. compareRecordIndexEntries (reservedEntry a) (reservedEntry b)) rs)))"

definition prepareSgosRecordIndex ::
    "hash_function \<Rightarrow> (nat list \<Rightarrow> string) \<Rightarrow> record_files \<Rightarrow> record_files \<Rightarrow> jsval \<Rightarrow> jsval \<Rightarrow> jsval list
     \<Rightarrow> (jsval \<times> reservation list) result" where
  "prepareSgosRecordIndex H hashBytes files reserved pid prior tokens =
     andThen (exactReservedIndexEntries H hashBytes reserved pid tokens) (\<lambda>rs.
     andThen (sealSgosRecordIndex H pid (Some prior) (map reservedEntry rs)) (\<lambda>index.
     andThen (assertSgosRecordIndexEdge H hashBytes files pid index (Some prior) True) (\<lambda>_. Inr (index, rs))))"

section \<open>The candidate Process and its event\<close>

definition stampTransition :: "jsval \<Rightarrow> jsval \<Rightarrow> jsval \<Rightarrow> jsval" where
  "stampTransition current next updatedAt =
     JObj (deleteField ''processSha256'' (spread (fieldsOf next)
       [(''schemaVersion'', JNum (currentSchemaVersion ''gvm-process'')), (''kind'', JStr ''gvm-process''),
        (''processRevision'', JNum (numberOf (getp current ''processRevision'') + 1)), (''updatedAt'', updatedAt)]))"

definition sealTransition ::
    "hash_function \<Rightarrow> (nat list \<Rightarrow> string) \<Rightarrow> record_files \<Rightarrow> jsval \<Rightarrow> jsval \<Rightarrow> jsval \<Rightarrow> (jsval \<times> jsval) result" where
  "sealTransition H hashBytes files current stamped index =
     (let indexed = overwrite stamped [(''recordIndexSha256'', getp index ''recordIndexSha256'')] in
      andThen (nextSgosControlPosition H hashBytes files current indexed) (\<lambda>position.
      andThen (sealControlEvent H current indexed position) (\<lambda>event.
      let sealed = sealProcess H (overwrite indexed [(''controlEventSha256'', getp event ''controlEventSha256'')]) in
      andThen (recode processCorrupt (validateSgosRecord H hashBytes sealed)) (\<lambda>_. Inr (event, sealed)))))"

section \<open>The successor and its infrastructure account\<close>

definition sealSgosControlSuccessor :: "hash_function \<Rightarrow> fields \<Rightarrow> jsval" where
  "sealSgosControlSuccessor H value =
     (let core = deleteField ''successorSha256'' (spread value
        [(''schemaVersion'', JNum (currentSchemaVersion ''sgos-control-successor'')), (''kind'', JStr ''sgos-control-successor'')]) in
      JObj (spread core [(''successorSha256'', JStr (hashWithout H (JObj core) ''successorSha256''))]))"

definition accountedSuccessor :: "hash_function \<Rightarrow> fields \<Rightarrow> int \<Rightarrow> int \<Rightarrow> jsval" where
  "accountedSuccessor H value records bytes = sealSgosControlSuccessor H (spread value
     [(''cumulativeInfrastructureBytes'', JNum bytes), (''cumulativeInfrastructureRecords'', JNum records)])"

text \<open>
  The account of a successor counts the bytes of the successor itself, which prints the account; the
  code looks for the fixed point in eight rounds.
\<close>

primrec settleBytes :: "nat \<Rightarrow> hash_function \<Rightarrow> fields \<Rightarrow> int \<Rightarrow> int \<Rightarrow> int \<Rightarrow> int" where
  "settleBytes 0 H value records base bytes = bytes"
| "settleBytes (Suc rounds) H value records base bytes =
     (let exact = base + utf8Length (canonicalJson (accountedSuccessor H value records bytes)) in
      if exact = bytes then bytes else settleBytes rounds H value records base exact)"

definition settledSuccessor :: "hash_function \<Rightarrow> fields \<Rightarrow> int \<Rightarrow> int \<Rightarrow> jsval result" where
  "settledSuccessor H value records base =
     (let bytes = settleBytes 8 H value records base base; sealed = accountedSuccessor H value records bytes in
      if base + utf8Length (canonicalJson sealed) \<noteq> bytes then fail ''SGOS_PROCESS_RECORD_BUDGET_EXCEEDED''
      else Inr sealed)"

definition priorInfrastructure ::
    "hash_function \<Rightarrow> (nat list \<Rightarrow> string) \<Rightarrow> control_store \<Rightarrow> jsval \<Rightarrow> jsval \<Rightarrow> (int \<times> int) result" where
  "priorInfrastructure H hashBytes store pid event =
     (if getp event ''priorControlEventSha256'' = JNull then Inr (0, 0)
      else andThen (readSgosImmutableRecord H hashBytes (recordFiles store) pid ''sgos-control-event''
          (getp event ''priorControlEventSha256'')) (\<lambda>prior.
        andThen (readSgosControlSuccessor H hashBytes (successorFiles store) pid (getp prior ''beforeProcessSha256'')) (\<lambda>found.
        case found of None \<Rightarrow> fail lineageInvalid
        | Some s \<Rightarrow> if getp s ''controlEventSha256'' \<noteq> getp prior ''controlEventSha256'' then fail lineageInvalid
            else Inr (numberOf (getp s ''cumulativeInfrastructureBytes''), numberOf (getp s ''cumulativeInfrastructureRecords'')))))"

record footprint =
  leaseBytes :: int
  leaseRecords :: int

definition successorValue :: "jsval \<Rightarrow> jsval \<Rightarrow> fields" where
  "successorValue current event =
     [(''processId'', getp current ''processId''), (''beforeProcessSha256'', getp current ''processSha256''),
      (''controlEventSha256'', getp event ''controlEventSha256''), (''controlDepth'', getp event ''controlDepth''),
      (''operatorTransitionCount'', getp event ''operatorTransitionCount'')]"

definition pendingReservations :: "jsval \<Rightarrow> reservation list \<Rightarrow> reservation list" where
  "pendingReservations index rs =
     filter (\<lambda>r. recordIdentity (reservedEntry r) \<notin> recordIdentity ` set (elements (getp index ''delta''))) rs"

definition reservedBytes :: "reservation list \<Rightarrow> int" where
  "reservedBytes rs = sum_list (map (\<lambda>r. numberOf (getp (reservedEntry r) ''bytes'')) rs)"

definition assertSuccessorCapacity :: "footprint \<Rightarrow> jsval \<Rightarrow> jsval \<Rightarrow> jsval \<Rightarrow> reservation list \<Rightarrow> unit result" where
  "assertSuccessorCapacity leases index successor candidate unindexed = checks
     [refuseIf (maximumExecutionLeases < leaseRecords leases) ''SGOS_EXECUTION_LEASE_LIMIT'',
      refuseIf (maximumProcessRecordBytes < numberOf (getp index ''totalBytes'')
            + numberOf (getp successor ''cumulativeInfrastructureBytes'') + reservedBytes unindexed
            + utf8Length (canonicalJson candidate) + leaseBytes leases
          \<or> maximumProcessRecords < numberOf (getp index ''totalRecordCount'')
            + numberOf (getp successor ''cumulativeInfrastructureRecords'') + int (length unindexed) + 1 + leaseRecords leases)
        ''SGOS_PROCESS_RECORD_BUDGET_EXCEEDED'']"

text \<open>With the event, the one published index and the candidate supplied, as every transition does.\<close>

definition prepareSgosControlSuccessor ::
    "hash_function \<Rightarrow> (nat list \<Rightarrow> string) \<Rightarrow> control_store \<Rightarrow> record_files \<Rightarrow> footprint \<Rightarrow> jsval \<Rightarrow> fields
     \<Rightarrow> jsval \<Rightarrow> jsval \<Rightarrow> jsval \<Rightarrow> jsval result" where
  "prepareSgosControlSuccessor H hashBytes store reserved leases ident value event index candidate =
     andThen (requireProcessId ident) (\<lambda>owner. let pid = JStr owner in
     andThen (refuseIf (getp event ''controlEventSha256'' \<noteq> getp (JObj value) ''controlEventSha256'') lineageInvalid) (\<lambda>_.
     andThen (priorInfrastructure H hashBytes store pid event) (\<lambda>prior.
     andThen (settledSuccessor H value (snd prior + 1 + 2)
        (fst prior + utf8Length (canonicalJson index) + utf8Length (canonicalJson event))) (\<lambda>sealed.
     andThen (checks
       [refuseIf (getp sealed ''processId'' \<noteq> pid) ''SGOS_RECORD_PROCESS_MISMATCH'',
        ignoring (recode ''SGOS_RECORD_INVALID'' (validateSgosRecord H hashBytes sealed)),
        refuseIf (getp index ''recordIndexSha256'' \<noteq> getp event ''recordIndexSha256'') ''SGOS_RECORD_INDEX_INVALID'']) (\<lambda>_.
     andThen (listRecordReservations H hashBytes reserved pid) (\<lambda>rs.
     andThen (refuseIf (getp candidate ''processId'' \<noteq> pid
         \<or> getp candidate ''controlEventSha256'' \<noteq> getp event ''controlEventSha256''
         \<or> getp candidate ''recordIndexSha256'' \<noteq> getp index ''recordIndexSha256'') lineageInvalid) (\<lambda>_.
     andThen (assertSuccessorCapacity leases index sealed candidate (pendingReservations index rs)) (\<lambda>_.
       Inr sealed))))))))"

section \<open>Writing records\<close>

text \<open>The branch of \<open>putSgosImmutableRecord\<close> for the families outside the record index.\<close>

definition putSgosImmutableRecord ::
    "hash_function \<Rightarrow> (nat list \<Rightarrow> string) \<Rightarrow> record_files \<Rightarrow> jsval \<Rightarrow> string \<Rightarrow> jsval \<Rightarrow> record_files result" where
  "putSgosImmutableRecord H hashBytes files ident family value =
     andThen (requireProcessId ident) (\<lambda>owner.
     andThen (sealSgosImmutableRecord H family value) (\<lambda>sealed.
     andThen (checks
       [ignoring (recode ''SGOS_RECORD_INVALID'' (validateSgosRecord H hashBytes sealed)),
        refuseIf (\<not> nullish (getp sealed ''processId'') \<and> getp sealed ''processId'' \<noteq> JStr owner)
          ''SGOS_RECORD_PROCESS_MISMATCH'']) (\<lambda>_.
     andThen (requireSha256 (getp sealed (the (map_of immutableFamilies family)))) (\<lambda>reference.
     case map_of files (family, reference) of
       None \<Rightarrow> Inr (files @ [((family, reference), sealed)])
     | Some existing \<Rightarrow> if canonicalJson existing \<noteq> canonicalJson sealed then fail ''SGOS_IMMUTABLE_CONFLICT'' else Inr files))))"

definition putPreparedSgosControlSuccessor ::
    "hash_function \<Rightarrow> (nat list \<Rightarrow> string) \<Rightarrow> successor_files \<Rightarrow> jsval \<Rightarrow> jsval \<Rightarrow> successor_files result" where
  "putPreparedSgosControlSuccessor H hashBytes successors ident sealed =
     andThen (requireProcessId ident) (\<lambda>owner.
     andThen (checks
       [refuseIf (getp sealed ''processId'' \<noteq> JStr owner) ''SGOS_RECORD_PROCESS_MISMATCH'',
        ignoring (recode ''SGOS_RECORD_INVALID'' (validateSgosRecord H hashBytes sealed))]) (\<lambda>_.
     andThen (requireSha256 (getp sealed ''beforeProcessSha256'')) (\<lambda>reference.
     case map_of successors reference of
       None \<Rightarrow> Inr (successors @ [(reference, sealed)])
     | Some existing \<Rightarrow> if canonicalJson existing \<noteq> canonicalJson sealed then fail ''SGOS_CONTROL_LINEAGE_FORK'' else Inr successors)))"

section \<open>Reading and publishing a Process\<close>

record process_store =
  controlStore :: control_store
  headFile :: jsval

definition readSgosProcess :: "hash_function \<Rightarrow> (nat list \<Rightarrow> string) \<Rightarrow> process_store \<Rightarrow> jsval \<Rightarrow> jsval result" where
  "readSgosProcess H hashBytes store ident =
     andThen (requireProcessId ident) (\<lambda>owner. let state = headFile store in
     andThen (checks
       [refuseIf (getp state ''processId'' \<noteq> JStr owner
          \<or> getp state ''processSha256'' \<noteq> JStr (hashWithout H state ''processSha256'')) processCorrupt,
        assertProcessShape state,
        ignoring (recode processCorrupt (validateSgosRecord H hashBytes state)),
        refuseIf (getp state ''controlEventSha256'' = JNull) lineageInvalid]) (\<lambda>_.
     andThen (reconcileSgosControlLineage H hashBytes (controlStore store) state (getp state ''processSha256'') False) (\<lambda>c.
       Inr (cursorState c))))"

record publication =
  pubIndex :: jsval
  pubEvent :: jsval
  pubSuccessor :: jsval
  pubCandidate :: jsval

text \<open>The four durable writes of \<open>publishSgosTransitionIntent\<close>, in their order.\<close>

definition writeIndex :: "hash_function \<Rightarrow> (nat list \<Rightarrow> string) \<Rightarrow> jsval \<Rightarrow> publication \<Rightarrow> process_store \<Rightarrow> process_store result" where
  "writeIndex H hashBytes pid pub store =
     andThen (putSgosImmutableRecord H hashBytes (recordFiles (controlStore store)) pid ''sgos-record-index'' (pubIndex pub))
       (\<lambda>files. Inr (store\<lparr>controlStore := (controlStore store)\<lparr>recordFiles := files\<rparr>\<rparr>))"

definition writeEvent :: "hash_function \<Rightarrow> (nat list \<Rightarrow> string) \<Rightarrow> jsval \<Rightarrow> publication \<Rightarrow> process_store \<Rightarrow> process_store result" where
  "writeEvent H hashBytes pid pub store =
     andThen (putSgosImmutableRecord H hashBytes (recordFiles (controlStore store)) pid ''sgos-control-event'' (pubEvent pub))
       (\<lambda>files. Inr (store\<lparr>controlStore := (controlStore store)\<lparr>recordFiles := files\<rparr>\<rparr>))"

definition writeSuccessor :: "hash_function \<Rightarrow> (nat list \<Rightarrow> string) \<Rightarrow> jsval \<Rightarrow> publication \<Rightarrow> process_store \<Rightarrow> process_store result" where
  "writeSuccessor H hashBytes pid pub store =
     andThen (putPreparedSgosControlSuccessor H hashBytes (successorFiles (controlStore store)) pid (pubSuccessor pub))
       (\<lambda>files. Inr (store\<lparr>controlStore := (controlStore store)\<lparr>successorFiles := files\<rparr>\<rparr>))"

definition writeHead :: "hash_function \<Rightarrow> jsval \<Rightarrow> publication \<Rightarrow> process_store \<Rightarrow> process_store result" where
  "writeHead H pid pub store =
     (if getp (pubCandidate pub) ''processId'' \<noteq> pid
        \<or> getp (pubCandidate pub) ''processSha256'' \<noteq> JStr (hashWithout H (pubCandidate pub) ''processSha256'')
      then fail processCorrupt else Inr (store\<lparr>headFile := pubCandidate pub\<rparr>))"

definition publicationWrites ::
    "hash_function \<Rightarrow> (nat list \<Rightarrow> string) \<Rightarrow> jsval \<Rightarrow> publication \<Rightarrow> (process_store \<Rightarrow> process_store result) list" where
  "publicationWrites H hashBytes pid pub =
     [writeIndex H hashBytes pid pub, writeEvent H hashBytes pid pub, writeSuccessor H hashBytes pid pub, writeHead H pid pub]"

text \<open>The store a crash leaves after the first \<open>n\<close> writes.\<close>

definition publishPrefix ::
    "nat \<Rightarrow> hash_function \<Rightarrow> (nat list \<Rightarrow> string) \<Rightarrow> jsval \<Rightarrow> publication \<Rightarrow> process_store \<Rightarrow> process_store result" where
  "publishPrefix n H hashBytes pid pub store =
     foldResult (\<lambda>st write. write st) store (take n (publicationWrites H hashBytes pid pub))"

text \<open>Whether the record of a token is already in the index, so that only its reservation is left to clean up.\<close>

definition committedToken ::
    "hash_function \<Rightarrow> (nat list \<Rightarrow> string) \<Rightarrow> record_files \<Rightarrow> jsval \<Rightarrow> jsval \<Rightarrow> jsval \<Rightarrow> bool result" where
  "committedToken H hashBytes files pid index token =
     (if recordIdentity token \<in> recordIdentity ` set (elements (getp index ''delta'')) then Inr True
      else if getp token ''checkRootedHistory'' = JBool True
      then isRootedRecord H hashBytes files pid (getp index ''recordIndexSha256'') (jsString (getp token ''family''))
        (getp token ''recordSha256'')
      else Inr False)"

definition splitTokens ::
    "hash_function \<Rightarrow> (nat list \<Rightarrow> string) \<Rightarrow> record_files \<Rightarrow> jsval \<Rightarrow> jsval \<Rightarrow> jsval list \<Rightarrow> (jsval list \<times> jsval list) result" where
  "splitTokens H hashBytes files pid index tokens =
     andThen (mapResult (\<lambda>t. andThen (committedToken H hashBytes files pid index t) (\<lambda>b. Inr (t, b))) tokens) (\<lambda>marked.
       Inr (map fst (filter snd marked), map fst (filter (\<lambda>m. \<not> snd m) marked)))"

definition consumeRecordReservations :: "record_files \<Rightarrow> reservation list \<Rightarrow> record_files" where
  "consumeRecordReservations reserved rs =
     filter (\<lambda>f. fst f \<notin> (\<lambda>r. (jsString (getp (reservedToken r) ''family''), jsString (getp (reservedToken r) ''recordSha256''))) ` set rs)
       reserved"

text \<open>What \<open>mutateSgosProcess\<close> prepares for a mutated Process before it writes anything.\<close>

definition prepareTransition ::
    "hash_function \<Rightarrow> (nat list \<Rightarrow> string) \<Rightarrow> process_store \<Rightarrow> record_files \<Rightarrow> footprint \<Rightarrow> jsval \<Rightarrow> jsval \<Rightarrow> jsval
     \<Rightarrow> jsval list \<Rightarrow> publication result" where
  "prepareTransition H hashBytes store reserved leases current next updatedAt tokens =
     (let pid = getp current ''processId''; files = recordFiles (controlStore store); stamped = stampTransition current next updatedAt in
      andThen (assertProcessShape stamped) (\<lambda>_.
      andThen (readSgosRecordIndexHead H hashBytes files pid (getp current ''recordIndexSha256'')) (\<lambda>currentIndex.
      andThen (splitTokens H hashBytes files pid currentIndex tokens) (\<lambda>split.
      andThen (exactReservedIndexEntries H hashBytes reserved pid (fst split)) (\<lambda>committed.
      let remaining = consumeRecordReservations reserved committed in
      andThen (prepareSgosRecordIndex H hashBytes files remaining pid currentIndex (snd split)) (\<lambda>prepared.
      andThen (sealTransition H hashBytes files current stamped (fst prepared)) (\<lambda>sealed.
      andThen (prepareSgosControlSuccessor H hashBytes (controlStore store) remaining leases pid
          (successorValue current (fst sealed)) (fst sealed) (fst prepared) (snd sealed)) (\<lambda>successor.
        Inr \<lparr>pubIndex = fst prepared, pubEvent = fst sealed, pubSuccessor = successor, pubCandidate = snd sealed\<rparr>))))))))"

end
