(* ===== verification/SgosReconstruct.thy ===== *)
theory SgosReconstruct
  imports SgosPublication
begin

text \<open>
  A control event reconstructs the candidate Process it was sealed with: what
  \<open>processFromControlEvent\<close> of \<open>src/sgos/store.mjs\<close> gives on the Process before a transition, or on
  any other Process with the same immutable fields, is that candidate up to the order of its fields.
\<close>

declare getp.simps(1) [simp del]

section \<open>Reading the contract of a Process\<close>

definition processKeys :: "string set" where
  "processKeys = {''schemaVersion'', ''kind'', ''processSha256''} \<union> set processFields"

lemma validate_process:
  "getp (JObj fs) ''kind'' = JStr ''gvm-process'' \<Longrightarrow>
   validateSgosRecord H hashBytes (JObj fs) = returnValidated (validateGvmProcessRecord H) (JObj fs)"
  by (simp add: validateSgosRecord_def recordValidators_def)

lemma validated_process:
  assumes "validateSgosRecord H hashBytes (JObj fs) = Inr r" and "getp (JObj fs) ''kind'' = JStr ''gvm-process''"
  shows "r = JObj fs" and "fst ` set fs = processKeys"
    and "getp (JObj fs) ''schemaVersion'' = JNum (currentSchemaVersion ''gvm-process'')"
    and "getp (JObj fs) ''processSha256'' = JStr (sgosSha256 H (JObj (deleteField ''processSha256'' fs)))"
    and "nullableDigest (getp (JObj fs) ''controlEventSha256'') = Inr ()"
    and "identifierCheck ''PROC'' (getp (JObj fs) ''processId'') = Inr ()"
proof -
  have v: "validateGvmProcessRecord H (JObj fs) True = Inr ()" and r: "r = JObj fs"
    using assms(1) unfolding validate_process [OF assms(2)] by (auto simp: returnValidated_def andThen_Inr cloneJson_Inr)
  show "r = JObj fs" by (rule r)
  have "validateBase H ''gvm-process'' processFields processFields (JObj fs) True = Inr ()"
    using v unfolding validateGvmProcessRecord_def checks_Inr fullBase_def by simp
  note base = validateBase_Inr [OF this]
  have h: "descriptorHash (contractOf ''gvm-process'') = ''processSha256''" by code_simp
  show "fst ` set fs = processKeys"
  proof
    show "fst ` set fs \<subseteq> processKeys" using base(6) unfolding h by (auto simp: processKeys_def)
    have "hasOwn (JObj fs) ''schemaVersion''" "hasOwn (JObj fs) ''kind''" "hasOwn (JObj fs) ''processSha256''"
      using base(2-4) present_key [of fs] unfolding verifySelfHash_def h Let_def hasOwn_def
      by (auto simp: andThen_Inr)
    then show "processKeys \<subseteq> fst ` set fs" using base(5) by (auto simp: processKeys_def hasOwn_def)
  qed
  show "nullableDigest (getp (JObj fs) ''controlEventSha256'') = Inr ()"
    "identifierCheck ''PROC'' (getp (JObj fs) ''processId'') = Inr ()"
    using v unfolding validateGvmProcessRecord_def checks_Inr by (simp_all add: fieldsEach_def eachOf_Inr)
  show "getp (JObj fs) ''schemaVersion'' = JNum (currentSchemaVersion ''gvm-process'')" using base by simp
  show "getp (JObj fs) ''processSha256'' = JStr (sgosSha256 H (JObj (deleteField ''processSha256'' fs)))"
    using base(4) by (auto simp: verifySelfHash_def recordSelfSha256_def h Let_def andThen_Inr cloneJson_Inr sha256Json_def split: if_splits)
qed

section \<open>The shape of a Process reads properties only\<close>

lemma shape_cong:
  assumes "\<And>k. getp v k = getp w k"
  shows "assertProcessShape v = assertProcessShape w"
  unfolding assertProcessShape_def taskValues_def Let_def by (simp add: assms)

lemma shape_same:
  assumes "\<And>k. k \<notin> {''controlEventSha256'', ''recordIndexSha256'', ''processSha256'', ''schemaVersion''} \<Longrightarrow> getp v k = getp w k"
    and "assertProcessShape v = Inr ()"
    and "requireNullableSha256 (getp w ''controlEventSha256'') = Inr ()"
    and "requireNullableSha256 (getp w ''recordIndexSha256'') = Inr ()"
  shows "assertProcessShape w = Inr ()"
  using assms(2-) assms(1) [symmetric]
  unfolding assertProcessShape_def taskValues_def Let_def checks_Inr by (simp add: eachOf_Inr)

lemma nullable_digest:
  "nullableDigest v = Inr () \<Longrightarrow> requireNullableSha256 v = Inr ()"
  by (cases v) (auto simp: nullableDigest_def unlessNull_def digestCheck_def requireNullableSha256_def requireSha256_def
      digestLike_def ignoring_def andThen_Inr must_def split: if_splits)

section \<open>A control event reconstructs its candidate\<close>

lemma split_keys:
  "processKeys = {''schemaVersion'', ''kind'', ''processSha256'', ''controlEventSha256'', ''recordIndexSha256''}
     \<union> set coreFields \<union> set mutableFields"
  by (auto simp: processKeys_def processFields_def coreFields_def mutableFields_def)

lemma stamp_same:
  assumes "sameFields (deleteField h fs) (deleteField h gs)"
  shows "\<exists>ss ts. stampAndHash H family h fs = JObj ss \<and> stampAndHash H family h gs = JObj ts \<and> sameFields ss ts"
  using sameFields_digest [OF sameFields_setField [OF assms]] sameFields_setField [OF sameFields_setField [OF assms]]
  by (simp add: stampAndHash_def Let_def spread_fields)

lemma stamped_fields:
  assumes "sameFields (deleteField h fs) (deleteField h gs)" and "distinct (map fst gs)" "h \<in> fst ` set gs"
    and "getp (JObj gs) ''schemaVersion'' = JNum (currentSchemaVersion family)" and "h \<noteq> ''schemaVersion''"
    and "getp (JObj gs) h = JStr (sgosSha256 H (JObj (deleteField h gs)))" and "''schemaVersion'' \<in> fst ` set gs"
  shows "\<exists>ss. stampAndHash H family h fs = JObj ss \<and> sameFields ss gs"
proof -
  let ?core = "setField ''schemaVersion'' (JNum (currentSchemaVersion family)) (deleteField h fs)"
  have d: "distinct (map fst (deleteField h fs))" using assms(1) by (simp add: sameFields_def)
  have core: "sameFields ?core (deleteField h gs)"
  proof (rule sameFieldsI)
    show "fst ` set ?core = fst ` set (deleteField h gs)"
      using sameFields_objectKeys [OF assms(1)] assms(5,7) by (auto simp: keys_delete)
    show "getp (JObj ?core) k = getp (JObj (deleteField h gs)) k" for k
      using sameFields_getp [OF assms(1), of k] assms(4,5) by (simp add: getp_setField getp_deleteField split: if_splits)
  qed (use assms(2) d in auto)
  let ?ss = "setField h (JStr (sgosSha256 H (JObj ?core))) ?core"
  have "sameFields ?ss gs"
  proof (rule sameFieldsI)
    show "fst ` set ?ss = fst ` set gs" using sameFields_objectKeys [OF core] assms(3) by (auto simp: keys_delete)
    show "getp (JObj ?ss) k = getp (JObj gs) k" for k
      using sameFields_getp [OF core, of k] assms(6) sameFields_digest [OF core] by (simp add: getp_setField getp_deleteField split: if_splits)
  qed (use assms(2) d in auto)
  then show ?thesis by (simp add: stampAndHash_def Let_def spread_fields)
qed

lemma sameFields_valid:
  assumes same: "sameFields fs gs"
    and valid: "validateSgosRecord H hashBytes (JObj gs) = Inr v" "getp (JObj gs) ''kind'' = JStr ''gvm-process''"
  shows "validateSgosRecord H hashBytes (JObj fs) = Inr (JObj fs)"
proof -
  have "jsonSafe (JObj fs) = jsonSafe (JObj gs)" using sameFields_set [OF same] by (simp add: list_all_iff)
  then show ?thesis
    using valid sameFields_getp [OF same] validate_process [of fs] validate_process [of gs]
    by (auto simp: returnValidated_def andThen_Inr cloneJson_Inr sameFields_process [OF same])
qed

lemma reconstruct:
  fixes bfs cfs rfs :: fields
  defines "b \<equiv> JObj bfs" and "c \<equiv> JObj cfs"
  assumes dist: "distinct (map fst bfs)" "distinct (map fst cfs)" "distinct (map fst rfs)"
    and keys: "fst ` set bfs = processKeys" "fst ` set rfs = set mutableFields"
    and valid: "validateSgosRecord H hashBytes c = Inr v" "getp c ''kind'' = JStr ''gvm-process''"
    and shape: "assertProcessShape c = Inr ()"
    and core: "\<And>k. k \<in> set coreFields \<Longrightarrow> getp b k = getp c k"
    and event: "getp e ''processCoreSha256'' = JStr (immutableProcessCoreSha256 H b)" "getp e ''result'' = JObj rfs"
      "\<And>k. k \<in> set mutableFields \<Longrightarrow> getp (JObj rfs) k = getp c k"
      "getp e ''controlEventSha256'' = getp c ''controlEventSha256''"
      "getp e ''recordIndexSha256'' = getp c ''recordIndexSha256''"
  shows "\<exists>fs. processFromControlEvent H hashBytes b e = Inr (JObj fs) \<and> sameFields fs cfs"
proof -
  note c = validated_process [OF valid [unfolded c_def]]
  let ?new = "[(''schemaVersion'', JNum (currentSchemaVersion ''gvm-process'')), (''kind'', JStr ''gvm-process''),
    (''controlEventSha256'', getp e ''controlEventSha256''), (''recordIndexSha256'', getp e ''recordIndexSha256'')]"
  let ?rec = "spread (spread bfs rfs) ?new"
  note all = split_keys
  have read: "getp (JObj ?rec) k = getp c k" if "k \<in> processKeys" "k \<noteq> ''processSha256''" for k
  proof -
    have "getp (JObj ?new) k = getp c k" if "k \<in> fst ` set ?new"
      using that valid(2) c(3) event(4,5) by (auto simp: getp.simps(1) c_def)
    moreover have "getp (JObj (spread bfs rfs)) k = getp c k" if "k \<notin> fst ` set ?new"
    proof (cases "k \<in> set mutableFields")
      case True
      then show ?thesis using dist(3) keys(2) event(3) by (simp add: getp_spread)
    next
      case False
      then have "k \<in> set coreFields" using that \<open>k \<in> processKeys\<close> \<open>k \<noteq> _\<close> by (auto simp: all)
      then show ?thesis using False dist(3) keys(2) core [of k] by (simp add: getp_spread b_def)
    qed
    moreover have "distinct (map fst ?new)" by simp
    ultimately show ?thesis unfolding getp_spread [OF \<open>distinct (map fst ?new)\<close>] by presburger
  qed
  have "fst ` set ?new \<subseteq> processKeys" "set mutableFields \<subseteq> processKeys" by (auto simp: all)
  then have keys': "fst ` set ?rec = processKeys" unfolding keys_spread keys by blast
  have "sameFields (deleteField ''processSha256'' ?rec) (deleteField ''processSha256'' cfs)"
  proof (rule sameFieldsI)
    show "fst ` set (deleteField ''processSha256'' ?rec) = fst ` set (deleteField ''processSha256'' cfs)"
      unfolding keys_delete keys' c(2) ..
    show "getp (JObj (deleteField ''processSha256'' ?rec)) k = getp (JObj (deleteField ''processSha256'' cfs)) k"
      if "k \<in> fst ` set (deleteField ''processSha256'' ?rec)" for k
      using read [of k] that unfolding getp_deleteField keys_delete keys' by (simp add: c_def)
  qed (use dist in auto)
  then obtain fs where fs: "stampAndHash H ''gvm-process'' ''processSha256'' (deleteField ''processSha256'' ?rec) = JObj fs" "sameFields fs cfs"
    using stamped_fields [of "''processSha256''" "deleteField ''processSha256'' ?rec" cfs "''gvm-process''" H] c dist(2)
    by (auto simp: processKeys_def deleteField_def)
  have same: "getp (JObj fs) k = getp c k" for k using sameFields_getp [OF fs(2)] by (simp add: c_def)
  have "assertProcessShape (JObj fs) = Inr ()" using shape shape_cong [of "JObj fs" c] same by simp
  moreover have "validateSgosRecord H hashBytes (JObj fs) = Inr (JObj fs)"
    by (rule sameFields_valid [OF fs(2)]) (use valid in \<open>simp_all add: c_def\<close>)
  ultimately have "processFromControlEvent H hashBytes b e = Inr (JObj fs)"
    using event(1,2) fs(1) by (simp add: processFromControlEvent_def Let_def sealProcess_def b_def recode_def)
  then show ?thesis using fs(2) by blast
qed

lemma requireNullable_JStr:
  "requireSha256 v = Inr s \<Longrightarrow> requireNullableSha256 v = Inr ()"
  by (auto simp: requireNullableSha256_def ignoring_def)

lemma requireSha256_Inr: "requireSha256 v = Inr s \<Longrightarrow> s = jsString v"
  by (auto simp: requireSha256_def split: if_splits)

lemma getp_stampAndHash:
  "h \<noteq> ''schemaVersion'' \<Longrightarrow> k \<noteq> h \<Longrightarrow> getp (stampAndHash H family h fs) k =
     (if k = ''schemaVersion'' then JNum (currentSchemaVersion family) else getp (JObj fs) k)"
  by (simp add: stampAndHash_def Let_def spread_fields getp_setField getp_deleteField)

lemma stampAndHash_object:
  "distinct (map fst fs) \<Longrightarrow> \<exists>ss. stampAndHash H family h fs = JObj ss \<and> distinct (map fst ss)"
  by (auto simp: stampAndHash_def Let_def)

lemma getp_projection: "k \<in> set ks \<Longrightarrow> getp (JObj (map (\<lambda>k. (k, f k)) ks)) k = f k"
  by (simp add: getp_JObj map_of_map_restrict)

lemma sealControlEvent_Inr:
  assumes "sealControlEvent H before after position = Inr event" and "getp after ''recordIndexSha256'' = JStr i"
  shows "getp event ''processCoreSha256'' = JStr (immutableProcessCoreSha256 H before)"
    and "getp event ''result'' = mutableProcessProjection after"
    and "getp event ''recordIndexSha256'' = getp after ''recordIndexSha256''"
    and "getp event ''priorControlEventSha256'' = getp before ''controlEventSha256''"
    and "getp event ''beforeProcessSha256'' = getp before ''processSha256''"
    and "getp event ''beforeProcessRevision'' = getp before ''processRevision''"
    and "getp event ''controlDepth'' = JNum (controlDepth position)"
    and "getp event ''operatorTransitionCount'' = JNum (operatorTransitions position)"
    and "getp event ''action'' = JStr (positionAction position)"
    and "requireSha256 (getp after ''recordIndexSha256'') = Inr i"
proof -
  have family: "map_of immutableFamilies ''sgos-control-event'' = Some ''controlEventSha256''" by (simp add: immutableFamilies_def)
  obtain fs where e: "event = stampAndHash H ''sgos-control-event'' ''controlEventSha256'' fs"
    and fs: "fs = [(''schemaVersion'', JNum (currentSchemaVersion ''sgos-control-event'')), (''kind'', JStr ''sgos-control-event''),
          (''processId'', getp before ''processId''),
          (''processCoreSha256'', JStr (immutableProcessCoreSha256 H before)),
          (''priorControlEventSha256'', getp before ''controlEventSha256''),
          (''beforeProcessSha256'', getp before ''processSha256''),
          (''beforeProcessRevision'', getp before ''processRevision''),
          (''controlDepth'', JNum (controlDepth position)),
          (''operatorTransitionCount'', JNum (operatorTransitions position)),
          (''recordIndexSha256'', JStr i),
          (''action'', JStr (positionAction position)),
          (''result'', mutableProcessProjection after),
          (''createdAt'', getp after ''updatedAt'')]"
    and i: "requireSha256 (getp after ''recordIndexSha256'') = Inr i"
    using assms requireSha256_Inr by (fastforce simp: sealControlEvent_def andThen_Inr sealSgosImmutableRecord_def family)
  have read: "getp event k = getp (JObj fs) k" if "k \<notin> {''controlEventSha256'', ''schemaVersion''}" for k
    using that by (simp add: e getp_stampAndHash)
  show "getp event ''processCoreSha256'' = JStr (immutableProcessCoreSha256 H before)"
    "getp event ''result'' = mutableProcessProjection after"
    "getp event ''recordIndexSha256'' = getp after ''recordIndexSha256''"
    "getp event ''priorControlEventSha256'' = getp before ''controlEventSha256''"
    "getp event ''beforeProcessSha256'' = getp before ''processSha256''"
    "getp event ''beforeProcessRevision'' = getp before ''processRevision''"
    "getp event ''controlDepth'' = JNum (controlDepth position)"
    "getp event ''operatorTransitionCount'' = JNum (operatorTransitions position)"
    "getp event ''action'' = JStr (positionAction position)"
    by (simp_all add: read fs assms(2) getp.simps(1))
  show "requireSha256 (getp after ''recordIndexSha256'') = Inr i" by (rule i)
qed

text \<open>What a sealed transition is made of.\<close>

lemma sealTransition_Inr:
  assumes sealed: "sealTransition H hashBytes files current stamped index = Inr (event, candidate)"
    and stamped: "stamped = stampTransition current next updatedAt" "assertProcessShape stamped = Inr ()"
    and mut: "next = JObj nfs" "distinct (map fst nfs)"
    and index: "getp index ''recordIndexSha256'' = JStr i"
  obtains cfs where "candidate = JObj cfs" and "distinct (map fst cfs)"
    and "validateSgosRecord H hashBytes candidate = Inr candidate" and "getp candidate ''kind'' = JStr ''gvm-process''"
    and "assertProcessShape candidate = Inr ()"
    and "\<And>k. k \<in> set coreFields \<Longrightarrow> getp candidate k = getp next k"
    and "getp event ''processCoreSha256'' = JStr (immutableProcessCoreSha256 H current)"
    and "getp event ''result'' = mutableProcessProjection candidate"
    and "getp event ''controlEventSha256'' = getp candidate ''controlEventSha256''"
    and "getp event ''recordIndexSha256'' = getp candidate ''recordIndexSha256''"
proof -
  obtain sfs where s: "stamped = JObj sfs" "distinct (map fst sfs)" "getp stamped ''kind'' = JStr ''gvm-process''"
    "\<And>k. k \<in> set coreFields \<Longrightarrow> getp stamped k = getp next k"
  proof -
    let ?sfs = "deleteField ''processSha256'' (spread nfs
       [(''schemaVersion'', JNum (currentSchemaVersion ''gvm-process'')), (''kind'', JStr ''gvm-process''),
        (''processRevision'', JNum (numberOf (getp current ''processRevision'') + 1)), (''updatedAt'', updatedAt)])"
    have "stamped = JObj ?sfs" by (simp add: stamped(1) mut(1) stampTransition_def)
    moreover have "distinct (map fst ?sfs)" using mut(2) by auto
    moreover have "getp (JObj ?sfs) ''kind'' = JStr ''gvm-process''"
      by (simp add: spread_fields getp_setField getp_deleteField)
    moreover have "getp (JObj ?sfs) k = getp next k" if "k \<in> set coreFields" for k
      using that by (auto simp: coreFields_def mut(1) spread_fields getp_setField getp_deleteField)
    ultimately show thesis using that by metis
  qed
  let ?indexed = "overwrite stamped [(''recordIndexSha256'', getp index ''recordIndexSha256'')]"
  let ?last = "overwrite ?indexed [(''controlEventSha256'', getp event ''controlEventSha256'')]"
  obtain position where event: "sealControlEvent H current ?indexed position = Inr event"
    and candidate: "candidate = sealProcess H ?last"
    and valid: "\<exists>r. validateSgosRecord H hashBytes candidate = Inr r"
    using sealed by (auto simp: sealTransition_def Let_def andThen_Inr recode_Inr)
  have read: "getp candidate k = (if k = ''controlEventSha256'' then getp event k
      else if k = ''recordIndexSha256'' then JStr i else getp stamped k)"
    if "k \<noteq> ''processSha256''" "k \<noteq> ''schemaVersion''" for k
    using that by (simp add: candidate sealProcess_def getp_stampAndHash s(1) overwrite_def spread_fields getp_setField index)
  obtain cfs where c: "candidate = JObj cfs" "distinct (map fst cfs)"
    using stampAndHash_object [of "fieldsOf ?last" H "''gvm-process''" "''processSha256''"] s(1,2)
    by (auto simp: candidate sealProcess_def overwrite_def spread_fields)
  have kind: "getp candidate ''kind'' = JStr ''gvm-process''" using read s(3) by simp
  note v = validated_process [of H hashBytes cfs]
  have valid': "validateSgosRecord H hashBytes candidate = Inr candidate" using valid v(1) kind by (auto simp: c(1))
  have indexed: "getp ?indexed ''recordIndexSha256'' = JStr i"
    by (simp add: s(1) overwrite_def spread_fields getp_setField index)
  note e = sealControlEvent_Inr [OF event indexed]
  show thesis
  proof (rule that [OF c valid' kind])
    show "assertProcessShape candidate = Inr ()"
    proof (rule shape_same [OF _ stamped(2)])
      show "getp stamped k = getp candidate k" if "k \<notin> {''controlEventSha256'', ''recordIndexSha256'', ''processSha256'', ''schemaVersion''}" for k
        using that read [of k] by simp
      show "requireNullableSha256 (getp candidate ''controlEventSha256'') = Inr ()"
        using nullable_digest v(5) valid' kind by (simp add: c(1))
      show "requireNullableSha256 (getp candidate ''recordIndexSha256'') = Inr ()"
        using e(10) indexed read by (simp add: requireNullable_JStr)
    qed
    show "getp candidate k = getp next k" if "k \<in> set coreFields" for k
    proof -
      have "k \<notin> {''controlEventSha256'', ''recordIndexSha256'', ''processSha256'', ''schemaVersion''}"
        using that by (auto simp: coreFields_def)
      then show ?thesis using read [of k] s(4) [OF that] by auto
    qed
    show "getp event ''result'' = mutableProcessProjection candidate"
    proof -
      have "getp ?indexed k = getp candidate k" if "k \<in> set mutableFields" for k
        using that read [of k] by (auto simp: mutableFields_def s(1) overwrite_def spread_fields getp_setField)
      then show ?thesis using e(2) by (simp add: mutableProcessProjection_def)
    qed
  qed (use e read indexed in simp_all)
qed

text \<open>The Process an event leads to depends on the base through its immutable fields only.\<close>

lemma reconstruct_any_base:
  fixes afs bfs rfs :: fields
  assumes dist: "distinct (map fst afs)" "distinct (map fst bfs)"
    and keys: "fst ` set afs = processKeys" "fst ` set bfs = processKeys" "set mutableFields \<subseteq> fst ` set rfs"
    and core: "\<And>k. k \<in> set coreFields \<Longrightarrow> getp (JObj afs) k = getp (JObj bfs) k"
    and result: "getp e ''result'' = JObj rfs"
    and from_a: "processFromControlEvent H hashBytes (JObj afs) e = Inr r"
  shows "\<exists>r'. processFromControlEvent H hashBytes (JObj bfs) e = Inr r' \<and> getp r' ''processSha256'' = getp r ''processSha256''"
proof -
  let ?new = "[(''schemaVersion'', JNum (currentSchemaVersion ''gvm-process'')), (''kind'', JStr ''gvm-process''),
    (''controlEventSha256'', getp e ''controlEventSha256''), (''recordIndexSha256'', getp e ''recordIndexSha256'')]"
  let ?rec = "\<lambda>base. deleteField ''processSha256'' (spread (spread base rfs) ?new)"
  let ?sealed = "\<lambda>base. stampAndHash H ''gvm-process'' ''processSha256'' (?rec base)"
  have hash: "immutableProcessCoreSha256 H (JObj bfs) = immutableProcessCoreSha256 H (JObj afs)"
    unfolding immutableProcessCoreSha256_def using core by (auto simp: cong: map_cong)
  have same: "sameFields (?rec afs) (?rec bfs)"
  proof (rule sameFieldsI)
    show "fst ` set (?rec afs) = fst ` set (?rec bfs)" unfolding keys_delete keys_spread keys ..
    fix k assume "k \<in> fst ` set (?rec afs)"
    show "getp (JObj (?rec afs)) k = getp (JObj (?rec bfs)) k"
    proof (cases "k = ''processSha256'' \<or> map_of (rev ?new) k \<noteq> None \<or> map_of (rev rfs) k \<noteq> None")
      case True
      then show ?thesis by (auto simp: getp_deleteField) (auto simp: getp_JObj map_of_spread split: option.splits)
    next
      case False
      then have out: "k \<notin> fst ` set ?new" "k \<notin> fst ` set rfs" "k \<noteq> ''processSha256''"
        by (simp_all only: map_of_eq_None_iff) auto
      then have "k \<in> processKeys"
        using \<open>k \<in> fst ` set (?rec afs)\<close> unfolding keys_delete keys_spread keys by blast
      then have "k \<in> set coreFields" using out keys(3) unfolding split_keys by auto
      from core [OF this] False show ?thesis by (simp add: getp_deleteField) (simp add: getp_JObj map_of_spread)
    qed
  qed (use dist in auto)
  obtain ss ts where sealed: "?sealed afs = JObj ss" "?sealed bfs = JObj ts" and both: "sameFields ts ss"
    using stamp_same [OF sameFields_deleteField [OF same]] sameFields_sym by blast
  have kind: "getp (JObj ss) ''kind'' = JStr ''gvm-process''"
    unfolding sealed(1) [symmetric] by (simp add: getp_stampAndHash getp_deleteField getp_spread) (simp add: getp.simps(1))
  have a: "assertProcessShape (JObj ss) = Inr ()" "\<exists>v. validateSgosRecord H hashBytes (JObj ss) = Inr v" "r = JObj ss"
    using from_a by (auto simp: processFromControlEvent_def Let_def sealProcess_def result sealed andThen_Inr recode_Inr split: if_splits)
  have "assertProcessShape (JObj ts) = Inr ()"
    using a(1) shape_cong [of "JObj ts" "JObj ss"] sameFields_getp [OF both] by simp
  moreover obtain v where "validateSgosRecord H hashBytes (JObj ss) = Inr v" using a(2) by blast
  from sameFields_valid [OF both this kind] have "validateSgosRecord H hashBytes (JObj ts) = Inr (JObj ts)" .
  ultimately have "processFromControlEvent H hashBytes (JObj bfs) e = Inr (JObj ts)"
    using from_a by (auto simp: processFromControlEvent_def Let_def sealProcess_def result sealed hash recode_def split: if_splits)
  then show ?thesis using sameFields_getp [OF both] a(3) by auto
qed

end
