(* ===== verification/SgosLineage.thy ===== *)
theory SgosLineage
  imports SgosReconstruct
begin

text \<open>
  The control lineage under the writes of a transition: what a reader accepted it accepts again when
  files are added, a replay that ends goes on with the successor that is written, and every cursor of
  a replay stands for a whole Process whose last event and index are in the store.
\<close>

section \<open>Reading survives new files\<close>

definition keeps :: "('k \<times> 'v) list \<Rightarrow> ('k \<times> 'v) list \<Rightarrow> bool" where
  "keeps old new \<longleftrightarrow> map_of old \<subseteq>\<^sub>m map_of new"

lemma keepsD: "keeps old new \<Longrightarrow> map_of old k = Some v \<Longrightarrow> map_of new k = Some v"
  unfolding keeps_def map_le_def by (metis domI)

lemma keeps_refl [simp]: "keeps fs fs"
  by (simp add: keeps_def)

lemma keeps_append [simp]: "keeps fs (fs @ gs)"
  by (auto simp: keeps_def map_le_def map_add_def split: option.splits)

lemma keeps_trans: "keeps a b \<Longrightarrow> keeps b c \<Longrightarrow> keeps a c"
  unfolding keeps_def by (rule map_le_trans)

text \<open>A stored record passes the checks of its reader.\<close>

definition soundRecord :: "hash_function \<Rightarrow> (nat list \<Rightarrow> string) \<Rightarrow> string \<Rightarrow> string \<Rightarrow> jsval \<Rightarrow> jsval \<Rightarrow> bool" where
  "soundRecord H hashBytes owner hashField sha v \<longleftrightarrow>
     requireSha256 (getp v hashField) = Inr (hashWithout H v hashField) \<and> sha = JStr (hashWithout H v hashField)
     \<and> (nullish (getp v ''processId'') \<or> getp v ''processId'' = JStr owner) \<and> (\<exists>r. validateSgosRecord H hashBytes v = Inr r)"

lemma read_Inr:
  "readSgosImmutableRecord H hashBytes files pid family sha = Inr v \<longleftrightarrow>
     (\<exists>owner hashField reference. requireProcessId pid = Inr owner \<and> map_of immutableFamilies family = Some hashField
       \<and> requireSha256 sha = Inr reference \<and> map_of files (family, reference) = Some v
       \<and> soundRecord H hashBytes owner hashField sha v)"
  by (cases "requireProcessId pid"; cases "map_of immutableFamilies family"; cases "requireSha256 sha";
      cases "map_of files (family, projr (requireSha256 sha))")
    (auto simp: readSgosImmutableRecord_def soundRecord_def andThen_Inr recode_Inr)

lemma read_keeps:
  "readSgosImmutableRecord H hashBytes old pid family sha = Inr v \<Longrightarrow> keeps old new \<Longrightarrow>
   readSgosImmutableRecord H hashBytes new pid family sha = Inr v"
  unfolding read_Inr using keepsD by fast

lemma indexed_keeps:
  assumes "assertIndexedRecord H hashBytes old pid entry = Inr ()" and "keeps old new"
  shows "assertIndexedRecord H hashBytes new pid entry = Inr ()"
proof -
  obtain v where v: "readSgosImmutableRecord H hashBytes old pid (jsString (getp entry ''family'')) (getp entry ''recordSha256'') = Inr v"
    using assms(1) by (auto simp: assertIndexedRecord_def Let_def andThen_Inr split: if_splits)
  show ?thesis using assms(1) v read_keeps [OF v assms(2)] by (simp add: assertIndexedRecord_def Let_def)
qed

lemma edge_keeps:
  assumes "assertSgosRecordIndexEdge H hashBytes old pid index prior verify = Inr ()" and "keeps old new"
  shows "assertSgosRecordIndexEdge H hashBytes new pid index prior verify = Inr ()"
  using assms(1) indexed_keeps [OF _ assms(2)]
  unfolding assertSgosRecordIndexEdge_def Let_def checks_Inr by (auto simp: eachOf_Inr split: if_splits)

lemma head_keeps:
  assumes "readSgosRecordIndexHead H hashBytes old pid sha = Inr index" and "keeps old new"
  shows "readSgosRecordIndexHead H hashBytes new pid sha = Inr index"
  using assms(1) read_keeps [OF _ assms(2)] edge_keeps [OF _ assms(2)]
  by (auto simp: readSgosRecordIndexHead_def andThen_Inr split: if_splits)

definition soundSuccessor :: "hash_function \<Rightarrow> (nat list \<Rightarrow> string) \<Rightarrow> string \<Rightarrow> jsval \<Rightarrow> jsval \<Rightarrow> bool" where
  "soundSuccessor H hashBytes owner beforeSha s \<longleftrightarrow>
     getp s ''processId'' = JStr owner \<and> getp s ''beforeProcessSha256'' = beforeSha
     \<and> getp s ''successorSha256'' = JStr (hashWithout H s ''successorSha256'') \<and> (\<exists>r. validateSgosRecord H hashBytes s = Inr r)
     \<and> numberOf (getp s ''cumulativeInfrastructureBytes'') \<le> maximumProcessRecordBytes
     \<and> numberOf (getp s ''cumulativeInfrastructureRecords'') \<le> maximumProcessRecords"

lemma successor_Some:
  "readSgosControlSuccessor H hashBytes successors pid sha = Inr (Some s) \<longleftrightarrow>
     (\<exists>owner reference. requireProcessId pid = Inr owner \<and> requireSha256 sha = Inr reference
       \<and> map_of successors reference = Some s \<and> soundSuccessor H hashBytes owner sha s)"
  by (cases "requireProcessId pid"; cases "requireSha256 sha"; cases "map_of successors (projr (requireSha256 sha))")
    (auto simp: readSgosControlSuccessor_def soundSuccessor_def andThen_Inr recode_Inr ignoring_def not_less)

lemma successor_None:
  "readSgosControlSuccessor H hashBytes successors pid sha = Inr None \<longleftrightarrow>
     (\<exists>owner reference. requireProcessId pid = Inr owner \<and> requireSha256 sha = Inr reference \<and> map_of successors reference = None)"
  by (cases "requireProcessId pid"; cases "requireSha256 sha"; cases "map_of successors (projr (requireSha256 sha))")
    (auto simp: readSgosControlSuccessor_def andThen_Inr)

lemma successor_keeps:
  "readSgosControlSuccessor H hashBytes old pid sha = Inr (Some s) \<Longrightarrow> keeps old new \<Longrightarrow>
   readSgosControlSuccessor H hashBytes new pid sha = Inr (Some s)"
  unfolding successor_Some using keepsD by fast

text \<open>A store that holds what another one holds.\<close>

definition extends :: "control_store \<Rightarrow> control_store \<Rightarrow> bool" where
  "extends old new \<longleftrightarrow> keeps (recordFiles old) (recordFiles new) \<and> keeps (successorFiles old) (successorFiles new)"

lemma expected_extends:
  assumes "expectedPosition H hashBytes old state event index = Inr p" and "extends old new"
  shows "expectedPosition H hashBytes new state event index = Inr p"
  using assms read_keeps [of H hashBytes "recordFiles old" _ _ _ _ "recordFiles new"]
  by (auto simp: extends_def expectedPosition_def Let_def andThen_Inr split: if_splits)

text \<open>The checks on the control head, as one condition on the event, the index and the successor it names.\<close>

definition headLinks :: "jsval \<Rightarrow> jsval \<Rightarrow> jsval \<Rightarrow> int \<times> int \<Rightarrow> bool" where
  "headLinks state ev s expected \<longleftrightarrow>
     getp s ''controlEventSha256'' = getp state ''controlEventSha256''
     \<and> getp s ''controlDepth'' = getp ev ''controlDepth''
     \<and> getp s ''operatorTransitionCount'' = getp ev ''operatorTransitionCount''
     \<and> getp ev ''controlDepth'' = JNum (fst expected) \<and> getp ev ''operatorTransitionCount'' = JNum (snd expected)
     \<and> JNum (numberOf (getp ev ''beforeProcessRevision'') + 1) = getp state ''processRevision''"

definition headCursor :: "jsval \<Rightarrow> jsval \<Rightarrow> lineage_cursor" where
  "headCursor state ev = \<lparr>cursorState = state, cursorSha256 = getp state ''processSha256'', cursorDepth = getp ev ''controlDepth'',
     cursorOperators = numberOf (getp ev ''operatorTransitionCount''), cursorReplayed = 0\<rparr>"

lemma assertControlHead_I:
  assumes "readSgosImmutableRecord H hashBytes (recordFiles store) (getp state ''processId'') ''sgos-control-event''
      (getp state ''controlEventSha256'') = Inr ev"
    and "getp ev ''recordIndexSha256'' = getp state ''recordIndexSha256''"
    and "readSgosRecordIndexHead H hashBytes (recordFiles store) (getp state ''processId'') (getp ev ''recordIndexSha256'') = Inr index"
    and "readSgosControlSuccessor H hashBytes (successorFiles store) (getp state ''processId'') (getp ev ''beforeProcessSha256'') = Inr (Some s)"
    and "assertSgosControlCapacity (getp ev ''controlDepth'') (getp ev ''operatorTransitionCount'') = Inr ()"
    and "expectedPosition H hashBytes store state ev index = Inr expected"
    and "headLinks state ev s expected"
    and "processFromControlEvent H hashBytes state ev = Inr r" and "getp r ''processSha256'' = getp state ''processSha256''"
  shows "assertControlHead H hashBytes store state = Inr (headCursor state ev)"
  using assms by (simp add: assertControlHead_def Let_def headLinks_def headCursor_def refuseIf_def)

lemma assertControlHead_E:
  assumes "assertControlHead H hashBytes store state = Inr c"
  obtains ev index s expected r where
    "readSgosImmutableRecord H hashBytes (recordFiles store) (getp state ''processId'') ''sgos-control-event''
      (getp state ''controlEventSha256'') = Inr ev"
    and "getp ev ''recordIndexSha256'' = getp state ''recordIndexSha256''"
    and "readSgosRecordIndexHead H hashBytes (recordFiles store) (getp state ''processId'') (getp ev ''recordIndexSha256'') = Inr index"
    and "readSgosControlSuccessor H hashBytes (successorFiles store) (getp state ''processId'') (getp ev ''beforeProcessSha256'') = Inr (Some s)"
    and "assertSgosControlCapacity (getp ev ''controlDepth'') (getp ev ''operatorTransitionCount'') = Inr ()"
    and "expectedPosition H hashBytes store state ev index = Inr expected"
    and "headLinks state ev s expected"
    and "processFromControlEvent H hashBytes state ev = Inr r" and "getp r ''processSha256'' = getp state ''processSha256''"
    and "c = headCursor state ev"
proof -
  obtain ev where ev: "readSgosImmutableRecord H hashBytes (recordFiles store) (getp state ''processId'') ''sgos-control-event''
      (getp state ''controlEventSha256'') = Inr ev" "getp ev ''recordIndexSha256'' = getp state ''recordIndexSha256''"
    using assms by (auto simp: assertControlHead_def Let_def andThen_Inr split: if_splits)
  obtain index where index: "readSgosRecordIndexHead H hashBytes (recordFiles store) (getp state ''processId'') (getp ev ''recordIndexSha256'') = Inr index"
    using assms ev by (auto simp: assertControlHead_def Let_def andThen_Inr)
  obtain s where s: "readSgosControlSuccessor H hashBytes (successorFiles store) (getp state ''processId'') (getp ev ''beforeProcessSha256'') = Inr (Some s)"
    using assms ev index by (auto simp: assertControlHead_def Let_def andThen_Inr split: option.splits)
  obtain expected where e: "assertSgosControlCapacity (getp ev ''controlDepth'') (getp ev ''operatorTransitionCount'') = Inr ()"
    "expectedPosition H hashBytes store state ev index = Inr expected"
    using assms ev index s by (auto simp: assertControlHead_def Let_def andThen_Inr)
  obtain r where r: "processFromControlEvent H hashBytes state ev = Inr r"
    using assms ev index s e by (auto simp: assertControlHead_def Let_def andThen_Inr)
  show thesis
    using assms ev index s e r
    by (intro that [OF ev index s e _ r]) (auto simp: assertControlHead_def Let_def andThen_Inr headLinks_def headCursor_def split: if_splits)
qed

lemma controlHead_extends:
  assumes "assertControlHead H hashBytes old state = Inr c" and "extends old new"
  shows "assertControlHead H hashBytes new state = Inr c"
proof -
  have keep: "keeps (recordFiles old) (recordFiles new)" "keeps (successorFiles old) (successorFiles new)"
    using assms(2) by (simp_all add: extends_def)
  obtain ev index s expected r where c: "c = headCursor state ev" and facts:
    "readSgosImmutableRecord H hashBytes (recordFiles old) (getp state ''processId'') ''sgos-control-event''
      (getp state ''controlEventSha256'') = Inr ev"
    "getp ev ''recordIndexSha256'' = getp state ''recordIndexSha256''"
    "readSgosRecordIndexHead H hashBytes (recordFiles old) (getp state ''processId'') (getp ev ''recordIndexSha256'') = Inr index"
    "readSgosControlSuccessor H hashBytes (successorFiles old) (getp state ''processId'') (getp ev ''beforeProcessSha256'') = Inr (Some s)"
    "assertSgosControlCapacity (getp ev ''controlDepth'') (getp ev ''operatorTransitionCount'') = Inr ()"
    "expectedPosition H hashBytes old state ev index = Inr expected" "headLinks state ev s expected"
    "processFromControlEvent H hashBytes state ev = Inr r" "getp r ''processSha256'' = getp state ''processSha256''"
    by (rule assertControlHead_E [OF assms(1)]) metis
  show ?thesis
    unfolding c
    by (rule assertControlHead_I [OF read_keeps [OF facts(1) keep(1)] facts(2) head_keeps [OF facts(3) keep(1)]
        successor_keeps [OF facts(4) keep(2)] facts(5) expected_extends [OF facts(6) assms(2)] facts(7,8,9)])
qed

section \<open>The replay survives new files\<close>

text \<open>The conditions under which a successor is replayed.\<close>

definition replayLinks :: "bool \<Rightarrow> lineage_cursor \<Rightarrow> jsval \<Rightarrow> jsval \<Rightarrow> jsval \<Rightarrow> bool" where
  "replayLinks legacy c ev index s \<longleftrightarrow> (let state = cursorState c in
     getp ev ''beforeProcessSha256'' = cursorSha256 c \<and> getp ev ''beforeProcessRevision'' = getp state ''processRevision''
     \<and> getp ev ''priorControlEventSha256'' = getp state ''controlEventSha256''
     \<and> (unrootedStart c ev legacy \<or> getp index ''priorIndexSha256'' = getp state ''recordIndexSha256'')
     \<and> getp ev ''controlDepth'' = JNum (numberOf (cursorDepth c) + 1)
     \<and> getp s ''controlDepth'' = getp ev ''controlDepth''
     \<and> getp s ''operatorTransitionCount'' = getp ev ''operatorTransitionCount''
     \<and> getp ev ''operatorTransitionCount'' = JNum (cursorOperators c + operatorStep (getp ev ''action'')))"

definition nextCursor :: "lineage_cursor \<Rightarrow> jsval \<Rightarrow> jsval \<Rightarrow> lineage_cursor" where
  "nextCursor c ev state = \<lparr>cursorState = state, cursorSha256 = getp state ''processSha256'',
     cursorDepth = getp ev ''controlDepth'', cursorOperators = numberOf (getp ev ''operatorTransitionCount''),
     cursorReplayed = Suc (cursorReplayed c)\<rparr>"

lemma replaySuccessor_I:
  assumes "readSgosControlSuccessor H hashBytes (successorFiles store) (getp (cursorState c) ''processId'') (cursorSha256 c) = Inr (Some s)"
    and "readSgosImmutableRecord H hashBytes (recordFiles store) (getp (cursorState c) ''processId'') ''sgos-control-event''
      (getp s ''controlEventSha256'') = Inr ev"
    and "readSgosRecordIndexHead H hashBytes (recordFiles store) (getp (cursorState c) ''processId'') (getp ev ''recordIndexSha256'') = Inr index"
    and "assertSgosControlCapacity (getp ev ''controlDepth'') (getp ev ''operatorTransitionCount'') = Inr ()"
    and "replayLinks legacy c ev index s"
    and "processFromControlEvent H hashBytes (cursorState c) ev = Inr r"
  shows "replaySuccessor H hashBytes store legacy c = Inr (Some (nextCursor c ev r))"
  using assms by (simp add: replaySuccessor_def Let_def replayLinks_def nextCursor_def refuseIf_def)

lemma replaySuccessor_E:
  assumes "replaySuccessor H hashBytes store legacy c = Inr (Some c')"
  obtains s ev index r where
    "readSgosControlSuccessor H hashBytes (successorFiles store) (getp (cursorState c) ''processId'') (cursorSha256 c) = Inr (Some s)"
    and "readSgosImmutableRecord H hashBytes (recordFiles store) (getp (cursorState c) ''processId'') ''sgos-control-event''
      (getp s ''controlEventSha256'') = Inr ev"
    and "readSgosRecordIndexHead H hashBytes (recordFiles store) (getp (cursorState c) ''processId'') (getp ev ''recordIndexSha256'') = Inr index"
    and "assertSgosControlCapacity (getp ev ''controlDepth'') (getp ev ''operatorTransitionCount'') = Inr ()"
    and "replayLinks legacy c ev index s"
    and "processFromControlEvent H hashBytes (cursorState c) ev = Inr r"
    and "c' = nextCursor c ev r"
proof -
  obtain s where s: "readSgosControlSuccessor H hashBytes (successorFiles store) (getp (cursorState c) ''processId'') (cursorSha256 c) = Inr (Some s)"
    using assms by (auto simp: replaySuccessor_def Let_def andThen_Inr split: option.splits)
  obtain ev where ev: "readSgosImmutableRecord H hashBytes (recordFiles store) (getp (cursorState c) ''processId'') ''sgos-control-event''
      (getp s ''controlEventSha256'') = Inr ev"
    using assms s by (auto simp: replaySuccessor_def Let_def andThen_Inr)
  obtain index where index: "readSgosRecordIndexHead H hashBytes (recordFiles store) (getp (cursorState c) ''processId'') (getp ev ''recordIndexSha256'') = Inr index"
    "assertSgosControlCapacity (getp ev ''controlDepth'') (getp ev ''operatorTransitionCount'') = Inr ()"
    using assms s ev by (auto simp: replaySuccessor_def Let_def andThen_Inr)
  obtain r where r: "processFromControlEvent H hashBytes (cursorState c) ev = Inr r"
    using assms s ev index by (auto simp: replaySuccessor_def Let_def andThen_Inr)
  show thesis
    using assms s ev index r
    by (intro that [OF s ev index _ r]) (auto simp: replaySuccessor_def Let_def andThen_Inr replayLinks_def nextCursor_def)
qed

lemma replaySuccessor_None:
  "replaySuccessor H hashBytes store legacy c = Inr None \<longleftrightarrow>
     readSgosControlSuccessor H hashBytes (successorFiles store) (getp (cursorState c) ''processId'') (cursorSha256 c) = Inr None"
  by (auto simp: replaySuccessor_def Let_def andThen_Inr split: option.splits)

lemma replaySuccessor_extends:
  assumes "replaySuccessor H hashBytes old legacy c = Inr (Some c')" and "extends old new"
  shows "replaySuccessor H hashBytes new legacy c = Inr (Some c')"
proof -
  have keep: "keeps (recordFiles old) (recordFiles new)" "keeps (successorFiles old) (successorFiles new)"
    using assms(2) by (simp_all add: extends_def)
  obtain s ev index r where c: "c' = nextCursor c ev r" and facts:
    "readSgosControlSuccessor H hashBytes (successorFiles old) (getp (cursorState c) ''processId'') (cursorSha256 c) = Inr (Some s)"
    "readSgosImmutableRecord H hashBytes (recordFiles old) (getp (cursorState c) ''processId'') ''sgos-control-event''
      (getp s ''controlEventSha256'') = Inr ev"
    "readSgosRecordIndexHead H hashBytes (recordFiles old) (getp (cursorState c) ''processId'') (getp ev ''recordIndexSha256'') = Inr index"
    "assertSgosControlCapacity (getp ev ''controlDepth'') (getp ev ''operatorTransitionCount'') = Inr ()"
    "replayLinks legacy c ev index s" "processFromControlEvent H hashBytes (cursorState c) ev = Inr r"
    by (rule replaySuccessor_E [OF assms(1)]) metis
  show ?thesis
    unfolding c by (rule replaySuccessor_I [OF successor_keeps [OF facts(1) keep(2)] read_keeps [OF facts(2) keep(1)]
        head_keeps [OF facts(3) keep(1)] facts(4,5,6)])
qed

text \<open>A replay to a cursor goes the same way in a larger store, and on from there.\<close>

lemma replay_extends:
  assumes "replayLineage n H hashBytes old legacy c = Inr d" and "extends old new"
    and "replaySuccessor H hashBytes new legacy d = Inr None"
  shows "replayLineage n H hashBytes new legacy c = Inr d"
  using assms(1)
proof (induction n arbitrary: c)
  case (Suc n)
  then obtain found where found: "replaySuccessor H hashBytes old legacy c = Inr found" by (auto simp: andThen_Inr)
  show ?case
  proof (cases found)
    case None
    with Suc.prems found assms(3) show ?thesis by simp
  next
    case (Some c')
    with Suc found replaySuccessor_extends [OF _ assms(2)] show ?thesis by simp
  qed
qed simp

lemma replay_one_more:
  assumes "replayLineage n H hashBytes old legacy c = Inr d" and "extends old new"
    and "replaySuccessor H hashBytes new legacy d = Inr (Some d')" and "replaySuccessor H hashBytes new legacy d' = Inr None"
    and "cursorReplayed d + 1 < cursorReplayed c + n"
  shows "replayLineage n H hashBytes new legacy c = Inr d'"
  using assms(1,5)
proof (induction n arbitrary: c)
  case (Suc n)
  then obtain found where found: "replaySuccessor H hashBytes old legacy c = Inr found" by (auto simp: andThen_Inr)
  show ?case
  proof (cases found)
    case None
    with Suc.prems found have "c = d" by simp
    with Suc.prems obtain m where "n = Suc m" by (cases n) auto
    with assms(3,4) \<open>c = d\<close> show ?thesis by simp
  next
    case (Some c')
    have "cursorReplayed c' = Suc (cursorReplayed c)"
      by (rule replaySuccessor_E [OF found [unfolded Some]]) (simp add: nextCursor_def)
    with Suc found Some replaySuccessor_extends [OF _ assms(2)] show ?thesis by simp
  qed
qed simp

section \<open>The invariant of the replay\<close>

text \<open>
  Every file of the families of control events and record indexes holds a record of that kind:
  \<open>putSgosImmutableRecord\<close> is called with no other, though the reader does not compare the kind with
  the family.
\<close>

definition familiesNamed :: "control_store \<Rightarrow> bool" where
  "familiesNamed store \<longleftrightarrow> list_all (\<lambda>f. fst (fst f) \<in> {''sgos-control-event'', ''sgos-record-index''}
     \<longrightarrow> getp (snd f) ''kind'' = JStr (fst (fst f))) (recordFiles store)"

lemma event_contract:
  assumes "validateSgosRecord H hashBytes ev = Inr r" and "getp ev ''kind'' = JStr ''sgos-control-event''"
  shows "\<exists>rfs. getp ev ''result'' = JObj rfs \<and> fst ` set rfs = set mutableFields"
    and "\<exists>d. getp ev ''controlDepth'' = JNum d" and "isString (getp ev ''controlEventSha256'')"
    and "validateSgosControlEventRecord H ev True = Inr ()" and "jsonSafe ev"
proof -
  have obj: "plainObject ev" using assms(1) by (simp add: validateSgosRecord_def split: if_splits)
  have "validateSgosRecord H hashBytes ev = returnValidated (validateSgosControlEventRecord H) ev"
    using assms(2) obj by (simp add: validateSgosRecord_def recordValidators_def)
  with assms(1) show v: "validateSgosControlEventRecord H ev True = Inr ()" and "jsonSafe ev"
    by (auto simp: returnValidated_def andThen_Inr cloneJson_Inr)
  note parts = v [unfolded validateSgosControlEventRecord_def Let_def checks_Inr]
  have "validateSgosMutableProcessState (getp ev ''result'') = Inr ()" using parts by simp
  then have "exactly (getp ev ''result'') mutableFields = Inr ()"
    unfolding validateSgosMutableProcessState_def checks_Inr mutableFields_def by simp
  then show "\<exists>rfs. getp ev ''result'' = JObj rfs \<and> fst ` set rfs = set mutableFields"
    by (cases "getp ev ''result''")
      (auto simp: exactly_def exactKeys_def requireKeys_def objectCheck_def andThen_Inr list_all_iff hasOwn_def)
  have "controlCounters ev = Inr ()" using parts by simp
  then show "\<exists>d. getp ev ''controlDepth'' = JNum d"
    by (cases "getp ev ''controlDepth''") (auto simp: controlCounters_def andThen_Inr integerCheck_def)
  have "validateBase H ''sgos-control-event'' controlEventFields controlEventFields ev True = Inr ()"
    using parts by (simp add: fullBase_def)
  note base = validateBase_Inr [OF this]
  have h: "descriptorHash (contractOf ''sgos-control-event'') = ''controlEventSha256''" by code_simp
  show "isString (getp ev ''controlEventSha256'')"
    using base(4) by (auto simp: verifySelfHash_def h Let_def andThen_Inr)
qed

lemma read_event:
  assumes "readSgosImmutableRecord H hashBytes (recordFiles store) pid ''sgos-control-event'' sha = Inr ev" and "familiesNamed store"
  shows "validateSgosRecord H hashBytes ev = Inr ev" and "getp ev ''kind'' = JStr ''sgos-control-event''"
    and "getp ev ''controlEventSha256'' = sha"
proof -
  have family: "map_of immutableFamilies ''sgos-control-event'' = Some ''controlEventSha256''" by (simp add: immutableFamilies_def)
  obtain owner reference where stored: "map_of (recordFiles store) (''sgos-control-event'', reference) = Some ev"
    and sound: "soundRecord H hashBytes owner ''controlEventSha256'' sha ev"
    using assms(1) unfolding read_Inr family by auto
  show kind: "getp ev ''kind'' = JStr ''sgos-control-event''"
    using map_of_SomeD [OF stored] assms(2) by (auto simp: familiesNamed_def list_all_iff)
  obtain r where r: "validateSgosRecord H hashBytes ev = Inr r" using sound by (auto simp: soundRecord_def)
  note c = event_contract [OF r kind]
  have "validateSgosRecord H hashBytes ev = returnValidated (validateSgosControlEventRecord H) ev"
    using kind r by (auto simp: validateSgosRecord_def recordValidators_def split: if_splits)
  then show "validateSgosRecord H hashBytes ev = Inr ev" using c(4,5) by (simp add: returnValidated_def cloneJson_def)
  show "getp ev ''controlEventSha256'' = sha"
    using sound c(3) requireSha256_Inr by (fastforce simp: soundRecord_def isString_iff)
qed

lemma getp_spread_other: "k \<notin> fst ` set new \<Longrightarrow> getp (JObj (spread base new)) k = getp (JObj base) k"
  by (induction new arbitrary: base) (auto simp: spread_Cons getp_setField)

text \<open>One event applied to a Process.\<close>

definition wholeProcess :: "hash_function \<Rightarrow> (nat list \<Rightarrow> string) \<Rightarrow> jsval \<Rightarrow> bool" where
  "wholeProcess H hashBytes p \<longleftrightarrow> (\<exists>fs. p = JObj fs \<and> distinct (map fst fs))
     \<and> getp p ''kind'' = JStr ''gvm-process'' \<and> (\<exists>r. validateSgosRecord H hashBytes p = Inr r)"

lemma event_step:
  assumes base: "wholeProcess H hashBytes b" and from_b: "processFromControlEvent H hashBytes b ev = Inr r"
    and result: "getp ev ''result'' = JObj rfs" "fst ` set rfs = set mutableFields"
  shows "wholeProcess H hashBytes r" and "\<And>k. k \<in> set coreFields \<Longrightarrow> getp r k = getp b k"
    and "getp r ''controlEventSha256'' = getp ev ''controlEventSha256''"
    and "getp r ''recordIndexSha256'' = getp ev ''recordIndexSha256''"
proof -
  obtain bfs where b: "b = JObj bfs" "distinct (map fst bfs)" using base by (auto simp: wholeProcess_def)
  let ?new = "[(''schemaVersion'', JNum (currentSchemaVersion ''gvm-process'')), (''kind'', JStr ''gvm-process''),
    (''controlEventSha256'', getp ev ''controlEventSha256''), (''recordIndexSha256'', getp ev ''recordIndexSha256'')]"
  let ?rec = "deleteField ''processSha256'' (spread (spread bfs rfs) ?new)"
  have r: "r = stampAndHash H ''gvm-process'' ''processSha256'' ?rec" "\<exists>v. validateSgosRecord H hashBytes r = Inr v"
    using from_b by (auto simp: processFromControlEvent_def b(1) result(1) Let_def sealProcess_def andThen_Inr recode_Inr split: if_splits)
  have read: "getp r k = (if k \<in> fst ` set ?new then getp (JObj ?new) k else getp (JObj (spread bfs rfs)) k)"
    if "k \<notin> {''processSha256'', ''schemaVersion''}" for k
    using that getp_spread [of ?new "spread bfs rfs" k] by (simp add: r(1) getp_stampAndHash getp_deleteField)
  show "getp r k = getp b k" if "k \<in> set coreFields" for k
  proof -
    have "k \<notin> fst ` set ?new" "k \<notin> {''processSha256'', ''schemaVersion''}" "k \<notin> set mutableFields"
      using that by (auto simp: coreFields_def mutableFields_def)
    then show ?thesis using read [of k] getp_spread_other [of k rfs bfs] unfolding result(2) b(1) by presburger
  qed
  show "getp r ''controlEventSha256'' = getp ev ''controlEventSha256''" "getp r ''recordIndexSha256'' = getp ev ''recordIndexSha256''"
    by (simp_all add: read) (simp_all add: getp.simps(1))
  have "getp r ''kind'' = JStr ''gvm-process''" by (simp add: read) (simp add: getp.simps(1))
  then show "wholeProcess H hashBytes r"
    using r(2) stampAndHash_object [of ?rec H "''gvm-process''" "''processSha256''"] b(2)
    by (auto simp: wholeProcess_def r(1))
qed

lemma whole_fields:
  assumes "wholeProcess H hashBytes p"
  obtains fs where "p = JObj fs" "distinct (map fst fs)" "fst ` set fs = processKeys"
  using assms validated_process(2) unfolding wholeProcess_def by blast

lemma any_base:
  assumes "wholeProcess H hashBytes a" "wholeProcess H hashBytes b"
    and "\<And>k. k \<in> set coreFields \<Longrightarrow> getp a k = getp b k"
    and "getp ev ''result'' = JObj rfs" "fst ` set rfs = set mutableFields"
    and "processFromControlEvent H hashBytes a ev = Inr r"
  shows "\<exists>r'. processFromControlEvent H hashBytes b ev = Inr r' \<and> getp r' ''processSha256'' = getp r ''processSha256''"
proof -
  obtain afs where a: "a = JObj afs" "distinct (map fst afs)" "fst ` set afs = processKeys" by (rule whole_fields [OF assms(1)])
  obtain bfs where b: "b = JObj bfs" "distinct (map fst bfs)" "fst ` set bfs = processKeys" by (rule whole_fields [OF assms(2)])
  show ?thesis
    using reconstruct_any_base [OF a(2) b(2) a(3) b(3) _ _ assms(4)] assms(3,5,6) unfolding a(1) b(1) by simp
qed

text \<open>What holds of every cursor: its Process is whole, and the event it names leads back to it.\<close>

definition lineageAt :: "hash_function \<Rightarrow> (nat list \<Rightarrow> string) \<Rightarrow> control_store \<Rightarrow> lineage_cursor \<Rightarrow> jsval \<Rightarrow> bool" where
  "lineageAt H hashBytes store c ev \<longleftrightarrow> (let s = cursorState c; pid = getp s ''processId'' in
     wholeProcess H hashBytes s \<and> cursorSha256 c = getp s ''processSha256''
     \<and> readSgosImmutableRecord H hashBytes (recordFiles store) pid ''sgos-control-event'' (getp s ''controlEventSha256'') = Inr ev
     \<and> getp ev ''recordIndexSha256'' = getp s ''recordIndexSha256''
     \<and> (\<exists>index. readSgosRecordIndexHead H hashBytes (recordFiles store) pid (getp ev ''recordIndexSha256'') = Inr index)
     \<and> (\<exists>r. processFromControlEvent H hashBytes s ev = Inr r \<and> getp r ''processSha256'' = getp s ''processSha256'')
     \<and> cursorDepth c = getp ev ''controlDepth'' \<and> cursorOperators c = numberOf (getp ev ''operatorTransitionCount'')
     \<and> 1 + int (cursorReplayed c) \<le> numberOf (getp ev ''controlDepth'')
     \<and> numberOf (getp ev ''controlDepth'') \<le> maximumControlRecords)"

lemma capacity_depth:
  "assertSgosControlCapacity depth operators = Inr () \<Longrightarrow> 1 \<le> numberOf depth \<and> numberOf depth \<le> maximumControlRecords"
  by (auto simp: assertSgosControlCapacity_def andThen_Inr)

lemma lineage_start:
  assumes "lineageStart H hashBytes store state base False = Inr c" and "wholeProcess H hashBytes state"
    and "getp state ''controlEventSha256'' \<noteq> JNull"
  shows "\<exists>ev. lineageAt H hashBytes store c ev" and "cursorState c = state" and "cursorReplayed c = 0"
proof -
  have "assertControlHead H hashBytes store state = Inr c" using assms(1,3) by (simp add: lineageStart_def)
  then obtain ev index r where c: "c = headCursor state ev" and facts:
    "readSgosImmutableRecord H hashBytes (recordFiles store) (getp state ''processId'') ''sgos-control-event''
      (getp state ''controlEventSha256'') = Inr ev"
    "getp ev ''recordIndexSha256'' = getp state ''recordIndexSha256''"
    "readSgosRecordIndexHead H hashBytes (recordFiles store) (getp state ''processId'') (getp ev ''recordIndexSha256'') = Inr index"
    "assertSgosControlCapacity (getp ev ''controlDepth'') (getp ev ''operatorTransitionCount'') = Inr ()"
    "processFromControlEvent H hashBytes state ev = Inr r" "getp r ''processSha256'' = getp state ''processSha256''"
    by (rule assertControlHead_E) metis
  show "\<exists>ev. lineageAt H hashBytes store c ev" "cursorState c = state" "cursorReplayed c = 0"
    using facts assms(2) capacity_depth [OF facts(4)] by (auto simp: lineageAt_def c headCursor_def)
qed

lemma lineage_step:
  assumes at: "lineageAt H hashBytes store c ev" and "familiesNamed store"
    and step: "replaySuccessor H hashBytes store legacy c = Inr (Some c')"
  shows "\<exists>ev'. lineageAt H hashBytes store c' ev'"
proof -
  let ?s = "cursorState c"
  obtain s ev' index r where c: "c' = nextCursor c ev' r" and facts:
    "readSgosImmutableRecord H hashBytes (recordFiles store) (getp ?s ''processId'') ''sgos-control-event''
      (getp s ''controlEventSha256'') = Inr ev'"
    "readSgosRecordIndexHead H hashBytes (recordFiles store) (getp ?s ''processId'') (getp ev' ''recordIndexSha256'') = Inr index"
    "assertSgosControlCapacity (getp ev' ''controlDepth'') (getp ev' ''operatorTransitionCount'') = Inr ()"
    "replayLinks legacy c ev' index s" "processFromControlEvent H hashBytes ?s ev' = Inr r"
    by (rule replaySuccessor_E [OF step]) metis
  note e = read_event [OF facts(1) assms(2)]
  obtain rfs where result: "getp ev' ''result'' = JObj rfs" "fst ` set rfs = set mutableFields"
    using event_contract(1) [OF e(1,2)] by blast
  have whole: "wholeProcess H hashBytes ?s" using at by (simp add: lineageAt_def Let_def)
  note n = event_step [OF whole facts(5) result]
  have pid: "getp r ''processId'' = getp ?s ''processId''" using n(2) by (simp add: coreFields_def)
  have "\<exists>r'. processFromControlEvent H hashBytes r ev' = Inr r' \<and> getp r' ''processSha256'' = getp r ''processSha256''"
    using any_base [OF whole n(1) _ result facts(5)] n(2) by simp
  moreover have "1 + int (Suc (cursorReplayed c)) \<le> numberOf (getp ev' ''controlDepth'')"
    using at facts(4) by (auto simp: lineageAt_def Let_def replayLinks_def)
  ultimately show ?thesis
    using facts(1,2) n(1,3,4) e(3) pid capacity_depth [OF facts(3)]
    by (intro exI [of _ ev']) (simp add: lineageAt_def Let_def c nextCursor_def)
qed

lemma lineage_replay:
  assumes "replayLineage n H hashBytes store legacy c = Inr d" and "lineageAt H hashBytes store c ev" and "familiesNamed store"
  shows "(\<exists>ev'. lineageAt H hashBytes store d ev') \<and> replaySuccessor H hashBytes store legacy d = Inr None"
  using assms(1,2)
proof (induction n arbitrary: c ev)
  case (Suc n)
  then obtain found where found: "replaySuccessor H hashBytes store legacy c = Inr found" by (auto simp: andThen_Inr)
  show ?case
  proof (cases found)
    case None
    with Suc.prems found show ?thesis by auto
  next
    case (Some c')
    obtain ev' where "lineageAt H hashBytes store c' ev'"
      using lineage_step [OF Suc.prems(2) assms(3) found [unfolded Some]] by blast
    with Suc.IH [of c' ev'] Suc.prems(1) found Some show ?thesis by simp
  qed
qed simp

end
