(* ===== verification/SgosCrashRun.thy ===== *)
theory SgosCrashRun
  imports SgosPublication
begin

text \<open>
  A run of \<open>mutateSgosProcess\<close> on a concrete store, evaluated: a Process that was created and
  has made one transition (\<open>queued\<close> to \<open>running\<close>) is paused. The hash is one that can be
  evaluated, the last hexadecimal digits of the text; the digests of the run are written out as
  it computes them, and the three lemmas at the end check every one of them by evaluating the
  reading of the store, the preparation of the transition and its first three writes.
\<close>

section \<open>The run\<close>

fun overlay :: "string \<Rightarrow> string \<Rightarrow> string" where
  "overlay [] ys = []"
| "overlay (t # ts) [] = t # ts"
| "overlay (t # ts) (y # ys) = (if isHex y then y else t) # overlay ts ys"

definition lastHash :: "string \<Rightarrow> string" where
  "lastHash text = overlay (replicate 64 (CHR ''0'')) (rev text)"

definition crashDigest :: jsval where
  "crashDigest = JStr (''sha256:'' @ replicate 64 (CHR ''a''))"

definition crashConfiguration :: jsval where
  "crashConfiguration = JObj [(''kind'', JStr ''approved-configuration-ref''), (''ref'', JStr ''refs/heads/main''),
     (''commit'', JStr (replicate 40 (CHR ''a''))), (''workflowBlobSha256'', crashDigest)]"

definition crashAdmission :: jsval where
  "crashAdmission = JObj
     [(''admitted'', JBool True), (''programId'', JStr ''PRG-AAAAAA''), (''programSha256'', crashDigest),
      (''provenance'', JObj
        [(''method'', JStr ''approved-program-authority''), (''programSha256'', crashDigest), (''ratificationSha256'', crashDigest),
         (''source'', JObj
           [(''kind'', JStr ''approved-configuration-ref''), (''ref'', JStr ''refs/heads/main''),
            (''commit'', JStr (replicate 40 (CHR ''a''))), (''sourceCommit'', JStr (replicate 40 (CHR ''a''))),
            (''path'', JStr ''program''), (''blobSha256'', crashDigest), (''configurationAuthority'', crashConfiguration)])]),
      (''safety'', JObj
        [(''safe'', JBool True), (''programId'', JStr ''PRG-AAAAAA''), (''programSha256'', crashDigest),
         (''compiler'', JObj [(''id'', JStr ''c''), (''version'', JStr ''1'')]),
         (''graph'', JObj [(''taskCount'', JNum 0), (''edgeCount'', JNum 0), (''roots'', JArr []), (''terminalTaskIds'', JArr []),
            (''topologicalOrder'', JArr [])]),
         (''registry'', JObj [(''verified'', JBool True), (''registrySnapshotSha256'', crashDigest)])])]"

definition crashBinding :: jsval where
  "crashBinding = JObj
     [(''kind'', JStr ''repository''), (''subjectId'', JStr ''s''), (''subjectAuthority'', JNull), (''branch'', JStr ''main''),
      (''baselineRevision'', JStr (replicate 40 (CHR ''a''))), (''baselineSnapshotSha256'', crashDigest),
      (''authority'', JStr ''existing-repository-baseline''), (''configurationAuthority'', crashConfiguration),
      (''humanAuthorityRequirements'', JArr []), (''executionAdmission'', crashAdmission)]"

definition crashSeal :: "string \<Rightarrow> jsval" where
  "crashSeal tail = JStr (''sha256:'' @ tail)"

text \<open>A Process in one of the three states of the run: created, running, paused.\<close>

definition crashProcess :: "string \<Rightarrow> int \<Rightarrow> string \<Rightarrow> jsval \<Rightarrow> jsval \<Rightarrow> jsval \<Rightarrow> jsval" where
  "crashProcess status revision updatedAt event index sha = JObj
     [(''kind'', JStr ''gvm-process''), (''processId'', JStr ''PROC-AAAAAA''), (''programSha256'', crashDigest),
      (''policySnapshotSha256'', crashDigest), (''processBindingSha256'', crashDigest), (''status'', JStr status),
      (''taskInstances'', JObj []), (''activeExecutions'', JArr []), (''openHumanRequests'', JArr []), (''activeLeases'', JArr []),
      (''currentCheckpointSha256'', JNull), (''controlEventSha256'', event), (''recordIndexSha256'', index),
      (''processRevision'', JNum revision), (''authorityBinding'', crashBinding), (''taskContractSha256'', crashDigest),
      (''createdAt'', JStr ''2026-01-01T00:00:00Z''), (''updatedAt'', JStr updatedAt), (''schemaVersion'', JNum 4),
      (''processSha256'', sha)]"

definition crashIndex :: "int \<Rightarrow> jsval \<Rightarrow> jsval \<Rightarrow> jsval" where
  "crashIndex sequence prior sha = JObj
     [(''schemaVersion'', JNum 1), (''kind'', JStr ''sgos-record-index''), (''processId'', JStr ''PROC-AAAAAA''),
      (''sequence'', JNum sequence), (''priorIndexSha256'', prior), (''delta'', JArr []), (''familyCounts'', JObj []),
      (''totalRecordCount'', JNum 0), (''totalBytes'', JNum 0), (''recordIndexSha256'', sha)]"

definition crashEvent :: "jsval \<Rightarrow> jsval \<Rightarrow> int \<Rightarrow> int \<Rightarrow> jsval \<Rightarrow> string \<Rightarrow> string \<Rightarrow> string \<Rightarrow> jsval \<Rightarrow> jsval" where
  "crashEvent prior process depth operators index action status updatedAt sha = JObj
     [(''schemaVersion'', JNum 1), (''kind'', JStr ''sgos-control-event''), (''processId'', JStr ''PROC-AAAAAA''),
      (''processCoreSha256'', crashSeal ''0000aaaaaaaaaaaaaaaaaaaaaaaaaaaaaaaaaaaaaaaaaaaaaaaaaaaaaaaaaaaa''),
      (''priorControlEventSha256'', prior), (''beforeProcessSha256'', process), (''beforeProcessRevision'', JNum depth),
      (''controlDepth'', JNum depth), (''operatorTransitionCount'', JNum operators), (''recordIndexSha256'', index),
      (''action'', JStr action),
      (''result'', JObj
        [(''status'', JStr status), (''taskInstances'', JObj []), (''activeExecutions'', JArr []), (''openHumanRequests'', JArr []),
         (''activeLeases'', JArr []), (''currentCheckpointSha256'', JNull), (''processRevision'', JNum (depth + 1)),
         (''updatedAt'', JStr updatedAt)]),
      (''createdAt'', JStr updatedAt), (''controlEventSha256'', sha)]"

definition crashSuccessor :: "jsval \<Rightarrow> jsval \<Rightarrow> int \<Rightarrow> int \<Rightarrow> int \<Rightarrow> int \<Rightarrow> jsval \<Rightarrow> jsval" where
  "crashSuccessor process event depth operators bytes records sha = JObj
     [(''processId'', JStr ''PROC-AAAAAA''), (''beforeProcessSha256'', process), (''controlEventSha256'', event),
      (''controlDepth'', JNum depth), (''operatorTransitionCount'', JNum operators), (''cumulativeInfrastructureBytes'', JNum bytes),
      (''cumulativeInfrastructureRecords'', JNum records), (''schemaVersion'', JNum 1), (''kind'', JStr ''sgos-control-successor''),
      (''successorSha256'', sha)]"

text \<open>The digests of the run, as \<open>lastHash\<close> computes them.\<close>

definition processSeal :: "char \<Rightarrow> jsval" where
  "processSeal second = crashSeal (''00000'' @ second # ''000000001001006202000000de0ad0000000000000ec0a000000a00000'')"

definition indexSeal :: "char \<Rightarrow> jsval" where
  "indexSeal second = crashSeal (''000000000000d00ce00a0000000000000e0000a00000000'' @ second # ''000ec0e00e000000'')"

definition eventSeal :: "char \<Rightarrow> jsval" where
  "eventSeal second = crashSeal (''000100000000e0a0e0c000000000000'' @ second # ''000000001001006202000000de0ad000'')"

definition crashHead :: jsval where
  "crashHead = crashProcess ''running'' 2 ''2026-01-01T00:00:01Z'' (eventSeal CHR ''1'') (indexSeal CHR ''0'') (processSeal CHR ''1'')"

definition crashStore :: process_store where
  "crashStore = \<lparr>controlStore =
     \<lparr>recordFiles =
       [((''sgos-record-index'', stringOf (indexSeal CHR ''0'')), crashIndex 0 JNull (indexSeal CHR ''0'')),
        ((''sgos-control-event'', stringOf (eventSeal CHR ''1'')), crashEvent JNull (processSeal CHR ''0'') 1 0 (indexSeal CHR ''0'')
           ''process-transition'' ''running'' ''2026-01-01T00:00:01Z'' (eventSeal CHR ''1''))],
      successorFiles = [(stringOf (processSeal CHR ''0''),
         crashSuccessor (processSeal CHR ''0'') (eventSeal CHR ''1'') 1 0 2000 3 
         (crashSeal ''000100000000e0a0e0c0000000000000000000000d000ec00000000000000000''))]\<rparr>,
     headFile = crashHead\<rparr>"

definition crashPublication :: publication where
  "crashPublication = \<lparr>pubIndex = crashIndex 1 (indexSeal CHR ''0'') (indexSeal CHR ''1''),
     pubEvent = crashEvent (eventSeal CHR ''1'') (processSeal CHR ''1'') 2 1 (indexSeal CHR ''1'') ''process-paused'' ''paused''
       ''2026-01-01T00:00:02Z'' (eventSeal CHR ''2''),
     pubSuccessor = crashSuccessor (processSeal CHR ''1'') (eventSeal CHR ''2'') 2 1 3889 6
     (crashSeal ''000100000000e0a0e0c0000000000000000000000d000ec00000000100000000''),
     pubCandidate = crashProcess ''paused'' 3 ''2026-01-01T00:00:02Z'' (eventSeal CHR ''2'') (indexSeal CHR ''1'') (processSeal CHR ''2'')\<rparr>"

definition noHash :: "nat list \<Rightarrow> string" where "noHash bytes = []"


definition crashNext :: jsval where
  "crashNext = overwrite crashHead [(''status'', JStr ''paused'')]"

section \<open>Evaluating it\<close>

lemma run_reads: "readSgosProcess lastHash noHash crashStore (getp crashHead ''processId'') = Inr crashHead"
  by code_simp

lemma run_prepares:
  "prepareTransition lastHash noHash crashStore [] \<lparr>leaseBytes = 0, leaseRecords = 0\<rparr> crashHead crashNext
     (JStr ''2026-01-01T00:00:02Z'') [] = Inr crashPublication"
  by code_simp

lemma run_writes: "\<not> isl (publishPrefix 3 lastHash noHash (getp crashHead ''processId'') crashPublication crashStore)"
  by code_simp

lemma run_next: "list_all (\<lambda>k. getp crashNext k = getp crashHead k) coreFields" "plainObject crashNext"
  by code_simp+

lemma run_names:
  "list_all (\<lambda>f. fst (fst f) \<in> {''sgos-control-event'', ''sgos-record-index''}
     \<longrightarrow> getp (snd f) ''kind'' = JStr (fst (fst f))) (recordFiles (controlStore crashStore))"
  by code_simp

lemma run_fresh:
  "getp (pubCandidate crashPublication) ''processSha256'' \<noteq> getp crashHead ''processSha256''"
  "map_of (successorFiles (controlStore crashStore)) (stringOf (getp (pubCandidate crashPublication) ''processSha256'')) = None"
  "map_of (recordFiles (controlStore crashStore))
     (''sgos-record-index'', stringOf (getp (pubIndex crashPublication) ''recordIndexSha256'')) = None"
  "map_of (recordFiles (controlStore crashStore))
     (''sgos-control-event'', stringOf (getp (pubEvent crashPublication) ''controlEventSha256'')) = None"
  by code_simp+

end
