(* ===== verification/SgosRecovery.thy ===== *)
theory SgosRecovery
  imports SgosLineage SgosCrashRun
begin

text \<open>
  The publication of a transition can be cut after any of its writes: a reader sees the Process before
  it or the Process after it, nothing else, and publishing again from there ends in the same store.
\<close>

text \<open>Fields of a record under construction are looked up by the lemmas about \<open>getp\<close>, not unfolded.\<close>

declare getp.simps(1) [simp del]

section \<open>Writing a sealed record\<close>

lemma deleteField_delete [simp]: "deleteField h (deleteField h fs) = deleteField h fs"
  by (simp add: deleteField_def)

lemma deleteField_set [simp]: "deleteField h (setField h v fs) = deleteField h fs"
proof (cases "h \<in> fst ` set fs")
  case True
  then show ?thesis by (induction fs) (auto simp: deleteField_def setField_def)
next
  case False
  then show ?thesis by (induction fs) (auto simp: deleteField_def setField_def)
qed

lemma stamped_record:
  assumes "h \<noteq> ''schemaVersion''" and v_def: "v = stampAndHash H family h fs"
  shows "getp v h = JStr (hashWithout H v h)" and "stampAndHash H family h (fieldsOf v) = v"
proof -
  let ?core = "setField ''schemaVersion'' (JNum (currentSchemaVersion family)) (deleteField h fs)"
  have core: "deleteField h ?core = ?core" using assms(1) by (simp add: deleteField_setField)
  have v: "v = JObj (setField h (JStr (sgosSha256 H (JObj ?core))) ?core)"
    by (simp add: v_def stampAndHash_def Let_def spread_fields)
  show "getp v h = JStr (hashWithout H v h)" by (simp add: v getp_setField hashWithout_def core)
  show "stampAndHash H family h (fieldsOf v) = v" by (simp add: v stampAndHash_def Let_def spread_fields core)
qed

lemma put_Inr:
  assumes put: "putSgosImmutableRecord H hashBytes files pid family v = Inr files'"
    and family: "map_of immutableFamilies family = Some h" "h \<noteq> ''schemaVersion''" and v: "v = stampAndHash H family h fs"
    and same: "\<And>x. map_of files (family, stringOf (getp v h)) = Some x \<Longrightarrow> x = v"
  shows "readSgosImmutableRecord H hashBytes files' pid family (getp v h) = Inr v" and "keeps files files'"
    and "set files' \<subseteq> insert ((family, stringOf (getp v h)), v) (set files)"
    and "\<exists>r. validateSgosRecord H hashBytes v = Inr r"
    and "keeps files' later \<Longrightarrow> putSgosImmutableRecord H hashBytes later pid family v = Inr later"
proof -
  have h: "getp v h = JStr (hashWithout H v h)" and again: "stampAndHash H family h (fieldsOf v) = v"
    using stamped_record [OF family(2) v] by simp_all
  obtain owner where pid: "requireProcessId pid = Inr owner"
    using put by (auto simp: putSgosImmutableRecord_def andThen_Inr)
  have ok: "\<exists>r. validateSgosRecord H hashBytes v = Inr r" "nullish (getp v ''processId'') \<or> getp v ''processId'' = JStr owner"
    "requireSha256 (getp v h) = Inr (hashWithout H v h)"
    using put requireSha256_Inr by (auto simp: putSgosImmutableRecord_def andThen_Inr pid sealSgosImmutableRecord_def family(1) again
        ignoring_def recode_Inr h requireSha256_def split: if_splits)
  then show "\<exists>r. validateSgosRecord H hashBytes v = Inr r" by simp
  have wr: "putSgosImmutableRecord H hashBytes fs' pid family v = (case map_of fs' (family, hashWithout H v h) of
       None \<Rightarrow> Inr (fs' @ [((family, hashWithout H v h), v)])
     | Some existing \<Rightarrow> if canonicalJson existing \<noteq> canonicalJson v then fail ''SGOS_IMMUTABLE_CONFLICT'' else Inr fs')" for fs'
    using ok by (auto simp: putSgosImmutableRecord_def pid sealSgosImmutableRecord_def family(1) again ignoring_def recode_def refuseIf_def)
  have stored: "map_of files' (family, hashWithout H v h) = Some v" "keeps files files'"
    "set files' \<subseteq> insert ((family, hashWithout H v h), v) (set files)"
    using put [unfolded wr] same by (auto simp: h map_add_def split: option.splits if_splits)
  then show "keeps files files'" "set files' \<subseteq> insert ((family, stringOf (getp v h)), v) (set files)" by (simp_all add: h)
  show "readSgosImmutableRecord H hashBytes files' pid family (getp v h) = Inr v"
    unfolding read_Inr using pid family(1) ok stored(1) h by (auto simp: soundRecord_def)
  show "putSgosImmutableRecord H hashBytes later pid family v = Inr later" if "keeps files' later"
    unfolding wr keepsD [OF that stored(1)] by simp
qed

lemma putSuccessor_Inr:
  assumes put: "putPreparedSgosControlSuccessor H hashBytes files pid s = Inr files'"
    and new: "map_of files (jsString (getp s ''beforeProcessSha256'')) = None"
    and bounds: "numberOf (getp s ''cumulativeInfrastructureBytes'') \<le> maximumProcessRecordBytes"
      "numberOf (getp s ''cumulativeInfrastructureRecords'') \<le> maximumProcessRecords"
    and hash: "getp s ''successorSha256'' = JStr (hashWithout H s ''successorSha256'')"
  shows "readSgosControlSuccessor H hashBytes files' pid (getp s ''beforeProcessSha256'') = Inr (Some s)"
    and "files' = files @ [(jsString (getp s ''beforeProcessSha256''), s)]" and "keeps files files'"
    and "keeps files' later \<Longrightarrow> putPreparedSgosControlSuccessor H hashBytes later pid s = Inr later"
proof -
  obtain owner where pid: "requireProcessId pid = Inr owner"
    using put by (auto simp: putPreparedSgosControlSuccessor_def andThen_Inr)
  let ?key = "jsString (getp s ''beforeProcessSha256'')"
  have ok: "\<exists>r. validateSgosRecord H hashBytes s = Inr r" "getp s ''processId'' = JStr owner"
    "requireSha256 (getp s ''beforeProcessSha256'') = Inr ?key"
    using put by (auto simp: putPreparedSgosControlSuccessor_def andThen_Inr pid ignoring_def recode_Inr requireSha256_def split: if_splits)
  have wr: "putPreparedSgosControlSuccessor H hashBytes fs' pid s = (case map_of fs' ?key of
       None \<Rightarrow> Inr (fs' @ [(?key, s)])
     | Some existing \<Rightarrow> if canonicalJson existing \<noteq> canonicalJson s then fail ''SGOS_CONTROL_LINEAGE_FORK'' else Inr fs')" for fs'
    using ok by (auto simp: putPreparedSgosControlSuccessor_def pid ignoring_def recode_def refuseIf_def)
  show files': "files' = files @ [(?key, s)]" using put [unfolded wr] new by simp
  then have stored: "map_of files' ?key = Some s" using new by (simp add: map_add_def)
  show "keeps files files'" by (simp add: files')
  show "readSgosControlSuccessor H hashBytes files' pid (getp s ''beforeProcessSha256'') = Inr (Some s)"
    unfolding successor_Some using pid ok stored bounds hash by (auto simp: soundSuccessor_def)
  show "putPreparedSgosControlSuccessor H hashBytes later pid s = Inr later" if "keeps files' later"
    unfolding wr keepsD [OF that stored] by simp
qed

section \<open>What a prepared transition writes\<close>

lemma sealIndex_Inr:
  assumes "sealSgosRecordIndex H pid prior delta = Inr index"
  shows "\<exists>fs. index = stampAndHash H ''sgos-record-index'' ''recordIndexSha256'' fs"
    and "getp index ''priorIndexSha256'' = priorIndexValue prior"
    and "getp index ''kind'' = JStr ''sgos-record-index''"
proof -
  have family: "map_of immutableFamilies ''sgos-record-index'' = Some ''recordIndexSha256''" by (simp add: immutableFamilies_def)
  show "\<exists>fs. index = stampAndHash H ''sgos-record-index'' ''recordIndexSha256'' fs"
    "getp index ''priorIndexSha256'' = priorIndexValue prior" "getp index ''kind'' = JStr ''sgos-record-index''"
    using assms
    by (auto simp: sealSgosRecordIndex_def Let_def sealSgosImmutableRecord_def family getp_stampAndHash getp.simps(1) split: if_splits)
qed

lemma position_Inr:
  assumes "nextSgosControlPosition H hashBytes files before after = Inr position" and "getp before ''controlEventSha256'' \<noteq> JNull"
    and "readSgosImmutableRecord H hashBytes files (getp before ''processId'') ''sgos-control-event''
      (getp before ''controlEventSha256'') = Inr prior"
  shows "controlDepth position = numberOf (getp prior ''controlDepth'') + 1"
    and "operatorTransitions position = numberOf (getp prior ''operatorTransitionCount'') + operatorStep (JStr (positionAction position))"
    and "assertSgosControlCapacity (JNum (controlDepth position)) (JNum (operatorTransitions position)) = Inr ()"
  using assms by (auto simp: nextSgosControlPosition_def Let_def andThen_Inr)

lemma successor_fields:
  assumes "s = accountedSuccessor H (successorValue current event) records bytes"
  shows "getp s ''processId'' = getp current ''processId''"
    and "getp s ''beforeProcessSha256'' = getp current ''processSha256''"
    and "getp s ''controlEventSha256'' = getp event ''controlEventSha256''"
    and "getp s ''controlDepth'' = getp event ''controlDepth''"
    and "getp s ''operatorTransitionCount'' = getp event ''operatorTransitionCount''"
    and "getp s ''cumulativeInfrastructureBytes'' = JNum bytes"
    and "getp s ''cumulativeInfrastructureRecords'' = JNum records"
    and "getp s ''successorSha256'' = JStr (hashWithout H s ''successorSha256'')"
  by (simp_all add: assms accountedSuccessor_def sealSgosControlSuccessor_def successorValue_def Let_def spread_fields
      getp_setField getp_deleteField hashWithout_def) (simp_all add: getp.simps(1))

lemma entry_bytes: "recordIndexEntry family v = Inr e \<Longrightarrow> 0 \<le> numberOf (getp e ''bytes'')"
  by (auto simp: recordIndexEntry_def andThen_Inr utf8Length_def getp.simps(1) split: if_splits option.splits)

lemma reservation_entry:
  assumes "readRecordReservation H hashBytes reserved pid family sha = Inr (Some r)"
  shows "\<exists>v. recordIndexEntry family v = Inr (reservedEntry r)"
proof -
  obtain reference where ref: "requireSha256 sha = Inr reference" "family \<in> set sgosRecordIndexFamilies"
    using assms by (auto simp: readRecordReservation_def andThen_Inr split: if_splits)
  show ?thesis
  proof (cases "map_of reserved (family, reference)")
    case None
    then show ?thesis using assms ref by (simp add: readRecordReservation_def)
  next
    case (Some v)
    then show ?thesis using assms ref by (auto simp: readRecordReservation_def Let_def andThen_Inr)
  qed
qed

lemma reserved_nonneg:
  assumes "listRecordReservations H hashBytes reserved pid = Inr rs" and "set ps \<subseteq> set rs"
  shows "0 \<le> reservedBytes ps"
proof -
  have "0 \<le> numberOf (getp (reservedEntry r) ''bytes'')" if "r \<in> set rs" for r
  proof -
    have "\<exists>key. andThen (readRecordReservation H hashBytes reserved pid (fst key) (JStr (snd key))) (\<lambda>found.
          case found of None \<Rightarrow> fail ''SGOS_RECORD_RESERVATION_CORRUPT'' | Some r \<Rightarrow> Inr r) = Inr r"
      using assms(1) that list_all2_in_right unfolding listRecordReservations_def if_fail_Inr mapResult_Inr by fastforce
    then obtain family sha where "readRecordReservation H hashBytes reserved pid family sha = Inr (Some r)"
      by (auto simp: andThen_Inr split: option.splits)
    then show ?thesis using reservation_entry entry_bytes by blast
  qed
  then show ?thesis using assms(2) unfolding reservedBytes_def by (intro sum_list_nonneg) auto
qed

lemma prepareTransition_Inr:
  assumes "prepareTransition H hashBytes store reserved leases current next updatedAt tokens = Inr pub"
  defines "pid \<equiv> getp current ''processId''" and "files \<equiv> recordFiles (controlStore store)"
  obtains priorIndex entries remaining where
    "assertProcessShape (stampTransition current next updatedAt) = Inr ()"
    and "readSgosRecordIndexHead H hashBytes files pid (getp current ''recordIndexSha256'') = Inr priorIndex"
    and "sealSgosRecordIndex H pid (Some priorIndex) entries = Inr (pubIndex pub)"
    and "assertSgosRecordIndexEdge H hashBytes files pid (pubIndex pub) (Some priorIndex) True = Inr ()"
    and "sealTransition H hashBytes files current (stampTransition current next updatedAt) (pubIndex pub)
      = Inr (pubEvent pub, pubCandidate pub)"
    and "prepareSgosControlSuccessor H hashBytes (controlStore store) remaining leases pid
      (successorValue current (pubEvent pub)) (pubEvent pub) (pubIndex pub) (pubCandidate pub) = Inr (pubSuccessor pub)"
  using assms(1)
  by (auto simp: prepareTransition_def prepareSgosRecordIndex_def Let_def andThen_Inr pid_def files_def)

lemma successor_account:
  "prepareSgosControlSuccessor H hashBytes store reserved leases pid value event index candidate = Inr s \<Longrightarrow>
   \<exists>records bytes. s = accountedSuccessor H value records bytes"
  by (auto simp: prepareSgosControlSuccessor_def Let_def andThen_Inr settledSuccessor_def split: if_splits)

lemma prepared_successor:
  assumes "prepareSgosControlSuccessor H hashBytes store reserved leases pid value event index candidate = Inr s"
    and "0 \<le> leaseBytes leases" "0 \<le> leaseRecords leases"
    and "0 \<le> numberOf (getp index ''totalBytes'')" "0 \<le> numberOf (getp index ''totalRecordCount'')"
  shows "numberOf (getp s ''cumulativeInfrastructureBytes'') \<le> maximumProcessRecordBytes"
    and "numberOf (getp s ''cumulativeInfrastructureRecords'') \<le> maximumProcessRecords"
proof -
  obtain owner rs where rs: "listRecordReservations H hashBytes reserved (JStr owner) = Inr rs"
    and capacity: "assertSuccessorCapacity leases index s candidate (pendingReservations index rs) = Inr ()"
    using assms(1) by (auto simp: prepareSgosControlSuccessor_def Let_def andThen_Inr)
  have "0 \<le> reservedBytes (pendingReservations index rs)"
    by (rule reserved_nonneg [OF rs]) (auto simp: pendingReservations_def)
  then show "numberOf (getp s ''cumulativeInfrastructureBytes'') \<le> maximumProcessRecordBytes"
    "numberOf (getp s ''cumulativeInfrastructureRecords'') \<le> maximumProcessRecords"
    using capacity assms(2-5) by (auto simp: assertSuccessorCapacity_def andThen_Inr utf8Length_def)
qed

lemma publish_again:
  assumes "publishPrefix n H hashBytes pid pub st = Inr st'" and "publishPrefix n H hashBytes pid pub st' = Inr st'"
  shows "publishPrefix 4 H hashBytes pid pub st' = publishPrefix 4 H hashBytes pid pub st"
proof -
  let ?ws = "publicationWrites H hashBytes pid pub"
  have "publishPrefix 4 H hashBytes pid pub s =
      andThen (publishPrefix n H hashBytes pid pub s) (\<lambda>t. foldResult (\<lambda>st write. write st) t (drop n ?ws))" for s
    using foldResult_append [of "\<lambda>st write. write st" s "take n ?ws" "drop n ?ws"]
    by (simp add: publishPrefix_def publicationWrites_def)
  then show ?thesis using assms by simp
qed

text \<open>The store after the first writes.\<close>

definition conflictFree :: "process_store \<Rightarrow> publication \<Rightarrow> bool" where
  "conflictFree st pub \<longleftrightarrow> (let files = recordFiles (controlStore st) in
     map_of files (''sgos-record-index'', stringOf (getp (pubIndex pub) ''recordIndexSha256'')) \<in> {None, Some (pubIndex pub)}
     \<and> map_of files (''sgos-control-event'', stringOf (getp (pubEvent pub) ''controlEventSha256'')) \<in> {None, Some (pubEvent pub)})"

lemma stages:
  assumes run: "publishPrefix n H hashBytes pid pub st = Inr st'" "n \<le> 4"
    and index: "pubIndex pub = stampAndHash H ''sgos-record-index'' ''recordIndexSha256'' ifs"
    and event: "pubEvent pub = stampAndHash H ''sgos-control-event'' ''controlEventSha256'' efs"
    and free: "conflictFree st pub"
    and new: "map_of (successorFiles (controlStore st)) (jsString (getp (pubSuccessor pub) ''beforeProcessSha256'')) = None"
    and hash: "getp (pubSuccessor pub) ''successorSha256'' = JStr (hashWithout H (pubSuccessor pub) ''successorSha256'')"
    and bounds: "\<forall>r. validateSgosRecord H hashBytes (pubIndex pub) = Inr r \<longrightarrow>
      numberOf (getp (pubSuccessor pub) ''cumulativeInfrastructureBytes'') \<le> maximumProcessRecordBytes \<and>
      numberOf (getp (pubSuccessor pub) ''cumulativeInfrastructureRecords'') \<le> maximumProcessRecords"
  shows "extends (controlStore st) (controlStore st')" and "headFile st' = (if n < 4 then headFile st else pubCandidate pub)"
    and "n < 3 \<Longrightarrow> successorFiles (controlStore st') = successorFiles (controlStore st)"
    and "3 \<le> n \<Longrightarrow> successorFiles (controlStore st') = successorFiles (controlStore st)
        @ [(jsString (getp (pubSuccessor pub) ''beforeProcessSha256''), pubSuccessor pub)]"
    and "3 \<le> n \<Longrightarrow> readSgosImmutableRecord H hashBytes (recordFiles (controlStore st')) pid ''sgos-record-index''
        (getp (pubIndex pub) ''recordIndexSha256'') = Inr (pubIndex pub)"
    and "3 \<le> n \<Longrightarrow> readSgosImmutableRecord H hashBytes (recordFiles (controlStore st')) pid ''sgos-control-event''
        (getp (pubEvent pub) ''controlEventSha256'') = Inr (pubEvent pub)"
    and "3 \<le> n \<Longrightarrow> readSgosControlSuccessor H hashBytes (successorFiles (controlStore st')) pid
        (getp (pubSuccessor pub) ''beforeProcessSha256'') = Inr (Some (pubSuccessor pub))"
    and "publishPrefix n H hashBytes pid pub st' = Inr st'"
proof -
  have families: "map_of immutableFamilies ''sgos-record-index'' = Some ''recordIndexSha256''"
    "map_of immutableFamilies ''sgos-control-event'' = Some ''controlEventSha256''" by (simp_all add: immutableFamilies_def)
  let ?files = "recordFiles (controlStore st)" and ?successors = "successorFiles (controlStore st)"
  have put1: "keeps ?files f1 \<and> readSgosImmutableRecord H hashBytes f1 pid ''sgos-record-index'' (getp (pubIndex pub) ''recordIndexSha256'') = Inr (pubIndex pub)
      \<and> (\<exists>r. validateSgosRecord H hashBytes (pubIndex pub) = Inr r)
      \<and> (\<forall>later. keeps f1 later \<longrightarrow> putSgosImmutableRecord H hashBytes later pid ''sgos-record-index'' (pubIndex pub) = Inr later)
      \<and> (\<forall>k x. map_of f1 (''sgos-control-event'', k) = Some x \<longrightarrow> map_of ?files (''sgos-control-event'', k) = Some x)"
    if put: "putSgosImmutableRecord H hashBytes ?files pid ''sgos-record-index'' (pubIndex pub) = Inr f1" for f1
  proof -
    note p = put_Inr [OF put families(1) _ index]
    have f: "\<And>x. map_of ?files (''sgos-record-index'', stringOf (getp (pubIndex pub) ''recordIndexSha256'')) = Some x \<Longrightarrow> x = pubIndex pub"
      using free by (auto simp: conflictFree_def Let_def)
    have "map_of ?files (''sgos-control-event'', k) = Some x" if x: "map_of f1 (''sgos-control-event'', k) = Some x" for k x
    proof -
      have "((''sgos-control-event'', k), x) \<in> set ?files" using map_of_SomeD [OF x] p(3) [OF _ f] by auto
      then obtain y where "map_of ?files (''sgos-control-event'', k) = Some y" by (metis weak_map_of_SomeI)
      then show ?thesis using keepsD [OF p(2) [OF _ f]] x by fastforce
    qed
    then show ?thesis using p [OF _ f] by auto
  qed
  have put2: "keeps f1 f2 \<and> readSgosImmutableRecord H hashBytes f2 pid ''sgos-control-event'' (getp (pubEvent pub) ''controlEventSha256'') = Inr (pubEvent pub)
      \<and> (\<forall>later. keeps f2 later \<longrightarrow> putSgosImmutableRecord H hashBytes later pid ''sgos-control-event'' (pubEvent pub) = Inr later)"
    if first: "putSgosImmutableRecord H hashBytes ?files pid ''sgos-record-index'' (pubIndex pub) = Inr f1"
      and put: "putSgosImmutableRecord H hashBytes f1 pid ''sgos-control-event'' (pubEvent pub) = Inr f2" for f1 f2
  proof -
    have f: "\<And>x. map_of f1 (''sgos-control-event'', stringOf (getp (pubEvent pub) ''controlEventSha256'')) = Some x \<Longrightarrow> x = pubEvent pub"
      using put1 [OF first] free by (auto simp: conflictFree_def Let_def)
    show ?thesis using put_Inr [OF put families(2) _ event f] by auto
  qed
  have put3: "s3 = ?successors @ [(jsString (getp (pubSuccessor pub) ''beforeProcessSha256''), pubSuccessor pub)] \<and> keeps ?successors s3
      \<and> readSgosControlSuccessor H hashBytes s3 pid (getp (pubSuccessor pub) ''beforeProcessSha256'') = Inr (Some (pubSuccessor pub))
      \<and> putPreparedSgosControlSuccessor H hashBytes s3 pid (pubSuccessor pub) = Inr s3"
    if first: "putSgosImmutableRecord H hashBytes ?files pid ''sgos-record-index'' (pubIndex pub) = Inr f1"
      and put: "putPreparedSgosControlSuccessor H hashBytes ?successors pid (pubSuccessor pub) = Inr s3" for f1 s3
  proof -
    obtain r where "validateSgosRecord H hashBytes (pubIndex pub) = Inr r" using put1 [OF first] by blast
    note p = putSuccessor_Inr [OF put new _ _ hash]
    show ?thesis using p bounds \<open>validateSgosRecord H hashBytes (pubIndex pub) = Inr r\<close> by auto
  qed
  let ?store = "\<lambda>f s h. st\<lparr>controlStore := (controlStore st)\<lparr>recordFiles := f, successorFiles := s\<rparr>, headFile := h\<rparr>"
  note steps = publishPrefix_def publicationWrites_def writeIndex_def writeEvent_def writeSuccessor_def writeHead_def andThen_Inr
  consider "n = 0" | "n = 1" | "n = 2" | "n = 3" | "n = 4" using run(2) by linarith
  then have "extends (controlStore st) (controlStore st') \<and> headFile st' = (if n < 4 then headFile st else pubCandidate pub)
    \<and> (n < 3 \<longrightarrow> successorFiles (controlStore st') = ?successors)
    \<and> (3 \<le> n \<longrightarrow> successorFiles (controlStore st') = ?successors @ [(jsString (getp (pubSuccessor pub) ''beforeProcessSha256''), pubSuccessor pub)]
      \<and> readSgosImmutableRecord H hashBytes (recordFiles (controlStore st')) pid ''sgos-record-index''
          (getp (pubIndex pub) ''recordIndexSha256'') = Inr (pubIndex pub)
      \<and> readSgosImmutableRecord H hashBytes (recordFiles (controlStore st')) pid ''sgos-control-event''
        (getp (pubEvent pub) ''controlEventSha256'') = Inr (pubEvent pub)
      \<and> readSgosControlSuccessor H hashBytes (successorFiles (controlStore st')) pid
        (getp (pubSuccessor pub) ''beforeProcessSha256'') = Inr (Some (pubSuccessor pub)))
    \<and> publishPrefix n H hashBytes pid pub st' = Inr st'"
  proof cases
    case 1
    then show ?thesis using run(1) by (simp add: publishPrefix_def extends_def)
  next
    case 2
    then obtain f1 where f1: "putSgosImmutableRecord H hashBytes ?files pid ''sgos-record-index'' (pubIndex pub) = Inr f1"
      "st' = ?store f1 ?successors (headFile st)"
      using run(1) by (auto simp: steps)
    then show ?thesis using put1 [OF f1(1)] 2 by (simp add: extends_def steps)
  next
    case 3
    then obtain f1 f2 where f1: "putSgosImmutableRecord H hashBytes ?files pid ''sgos-record-index'' (pubIndex pub) = Inr f1"
      and f2: "putSgosImmutableRecord H hashBytes f1 pid ''sgos-control-event'' (pubEvent pub) = Inr f2"
      "st' = ?store f2 ?successors (headFile st)"
      using run(1) by (auto simp: steps numeral_2_eq_2)
    then show ?thesis using put1 [OF f1] put2 [OF f1 f2(1)] 3 keeps_trans [of ?files f1 f2] by (simp add: extends_def steps numeral_2_eq_2)
  next
    case 4
    then obtain f1 f2 s3 where f1: "putSgosImmutableRecord H hashBytes ?files pid ''sgos-record-index'' (pubIndex pub) = Inr f1"
      and f2: "putSgosImmutableRecord H hashBytes f1 pid ''sgos-control-event'' (pubEvent pub) = Inr f2"
      and s3: "putPreparedSgosControlSuccessor H hashBytes ?successors pid (pubSuccessor pub) = Inr s3"
      "st' = ?store f2 s3 (headFile st)"
      using run(1) by (auto simp: steps numeral_3_eq_3)
    then show ?thesis
      using put1 [OF f1] put2 [OF f1 f2] put3 [OF f1 s3(1)] 4 keeps_trans [of ?files f1 f2] read_keeps [of H hashBytes f1 _ _ _ _ f2]
      by (auto simp: extends_def steps numeral_3_eq_3)
  next
    case 5
    then obtain f1 f2 s3 where f1: "putSgosImmutableRecord H hashBytes ?files pid ''sgos-record-index'' (pubIndex pub) = Inr f1"
      and f2: "putSgosImmutableRecord H hashBytes f1 pid ''sgos-control-event'' (pubEvent pub) = Inr f2"
      and s3: "putPreparedSgosControlSuccessor H hashBytes ?successors pid (pubSuccessor pub) = Inr s3"
      "st' = ?store f2 s3 (pubCandidate pub)"
      and head: "getp (pubCandidate pub) ''processId'' = pid"
        "getp (pubCandidate pub) ''processSha256'' = JStr (hashWithout H (pubCandidate pub) ''processSha256'')"
      using run(1) by (auto simp: steps split: if_splits)
    then show ?thesis
      using put1 [OF f1] put2 [OF f1 f2] put3 [OF f1 s3(1)] 5 keeps_trans [of ?files f1 f2] read_keeps [of H hashBytes f1 _ _ _ _ f2]
      by (auto simp: extends_def steps)
  qed
  then show "extends (controlStore st) (controlStore st')" and "headFile st' = (if n < 4 then headFile st else pubCandidate pub)"
    and "n < 3 \<Longrightarrow> successorFiles (controlStore st') = successorFiles (controlStore st)"
    and "3 \<le> n \<Longrightarrow> successorFiles (controlStore st') = successorFiles (controlStore st)
        @ [(jsString (getp (pubSuccessor pub) ''beforeProcessSha256''), pubSuccessor pub)]"
    and "3 \<le> n \<Longrightarrow> readSgosImmutableRecord H hashBytes (recordFiles (controlStore st')) pid ''sgos-record-index''
        (getp (pubIndex pub) ''recordIndexSha256'') = Inr (pubIndex pub)"
    and "3 \<le> n \<Longrightarrow> readSgosImmutableRecord H hashBytes (recordFiles (controlStore st')) pid ''sgos-control-event''
        (getp (pubEvent pub) ''controlEventSha256'') = Inr (pubEvent pub)"
    and "3 \<le> n \<Longrightarrow> readSgosControlSuccessor H hashBytes (successorFiles (controlStore st')) pid
        (getp (pubSuccessor pub) ''beforeProcessSha256'') = Inr (Some (pubSuccessor pub))"
    and "publishPrefix n H hashBytes pid pub st' = Inr st'" by blast+
qed

section \<open>What a prepared transition guarantees\<close>

lemma process_id:
  assumes "wholeProcess H hashBytes p"
  shows "isString (getp p ''processId'')"
proof -
  obtain fs where "p = JObj fs" "identifierCheck ''PROC'' (getp (JObj fs) ''processId'') = Inr ()"
    using assms validated_process(6) by (auto simp: wholeProcess_def)
  then show ?thesis by (simp add: identifierCheck_def patternCheck_def nonBlank_def)
qed

lemma whole_hash:
  assumes "wholeProcess H hashBytes p"
  shows "getp p ''processSha256'' = JStr (hashWithout H p ''processSha256'')"
    and "requireSha256 (getp p ''processSha256'') = Inr (hashWithout H p ''processSha256'')"
proof -
  obtain fs r where p: "p = JObj fs" "validateSgosRecord H hashBytes (JObj fs) = Inr r" "getp (JObj fs) ''kind'' = JStr ''gvm-process''"
    using assms by (auto simp: wholeProcess_def)
  show hash: "getp p ''processSha256'' = JStr (hashWithout H p ''processSha256'')"
    using validated_process(4) [OF p(2,3)] by (simp add: p(1) hashWithout_def)
  have "validateGvmProcessRecord H (JObj fs) True = Inr ()"
    using p(2) unfolding validate_process [OF p(3)] by (auto simp: returnValidated_def andThen_Inr)
  then have "validateBase H ''gvm-process'' processFields processFields (JObj fs) True = Inr ()"
    unfolding validateGvmProcessRecord_def checks_Inr fullBase_def by simp
  from validateBase_Inr(4) [OF this] have "digestCheck (getp p ''processSha256'') = Inr ()"
    using p(1) by (auto simp: verifySelfHash_def Let_def andThen_Inr contractOf_def sgosContracts_def described_def)
  then show "requireSha256 (getp p ''processSha256'') = Inr (hashWithout H p ''processSha256'')"
    unfolding hash by (simp add: digestCheck_def requireSha256_def digestLike_def)
qed

text \<open>The record of the transition, the Process it leads to, and how they continue the lineage.\<close>

definition continues :: "hash_function \<Rightarrow> (nat list \<Rightarrow> string) \<Rightarrow> control_store \<Rightarrow> lineage_cursor \<Rightarrow> jsval \<Rightarrow> publication \<Rightarrow> bool" where
  "continues H hashBytes store d ev0 pub \<longleftrightarrow> (let current = cursorState d; event = pubEvent pub; candidate = pubCandidate pub in
     wholeProcess H hashBytes candidate \<and> assertProcessShape candidate = Inr ()
     \<and> (\<forall>k \<in> set coreFields. getp candidate k = getp current k)
     \<and> getp event ''processCoreSha256'' = JStr (immutableProcessCoreSha256 H current)
     \<and> getp event ''result'' = mutableProcessProjection candidate
     \<and> getp event ''controlEventSha256'' = getp candidate ''controlEventSha256''
     \<and> getp event ''recordIndexSha256'' = getp candidate ''recordIndexSha256''
     \<and> getp event ''priorControlEventSha256'' = getp current ''controlEventSha256''
     \<and> getp event ''beforeProcessSha256'' = getp current ''processSha256''
     \<and> getp event ''beforeProcessRevision'' = getp current ''processRevision''
     \<and> getp event ''controlDepth'' = JNum (numberOf (getp ev0 ''controlDepth'') + 1)
     \<and> getp event ''operatorTransitionCount''
        = JNum (numberOf (getp ev0 ''operatorTransitionCount'') + operatorStep (getp event ''action''))
     \<and> assertSgosControlCapacity (getp event ''controlDepth'') (getp event ''operatorTransitionCount'') = Inr ()
     \<and> getp candidate ''processRevision'' = JNum (numberOf (getp current ''processRevision'') + 1)
     \<and> (\<exists>fs. event = stampAndHash H ''sgos-control-event'' ''controlEventSha256'' fs)
     \<and> (\<exists>fs. pubIndex pub = stampAndHash H ''sgos-record-index'' ''recordIndexSha256'' fs)
     \<and> getp (pubIndex pub) ''recordIndexSha256'' = getp event ''recordIndexSha256''
     \<and> getp (pubIndex pub) ''priorIndexSha256'' = getp current ''recordIndexSha256''
     \<and> (\<exists>prior. readSgosImmutableRecord H hashBytes (recordFiles store) (getp current ''processId'') ''sgos-record-index''
          (getp current ''recordIndexSha256'') = Inr prior
        \<and> assertSgosRecordIndexEdge H hashBytes (recordFiles store) (getp current ''processId'') (pubIndex pub) (Some prior) True = Inr ())
     \<and> getp (pubSuccessor pub) ''beforeProcessSha256'' = getp current ''processSha256''
     \<and> getp (pubSuccessor pub) ''controlEventSha256'' = getp event ''controlEventSha256''
     \<and> getp (pubSuccessor pub) ''controlDepth'' = getp event ''controlDepth''
     \<and> getp (pubSuccessor pub) ''operatorTransitionCount'' = getp event ''operatorTransitionCount''
     \<and> getp (pubSuccessor pub) ''successorSha256'' = JStr (hashWithout H (pubSuccessor pub) ''successorSha256'')
     \<and> (\<forall>r. validateSgosRecord H hashBytes (pubIndex pub) = Inr r \<longrightarrow>
          numberOf (getp (pubSuccessor pub) ''cumulativeInfrastructureBytes'') \<le> maximumProcessRecordBytes
          \<and> numberOf (getp (pubSuccessor pub) ''cumulativeInfrastructureRecords'') \<le> maximumProcessRecords))"

lemma index_read_back:
  assumes "readSgosImmutableRecord H hashBytes files pid ''sgos-record-index'' sha = Inr v"
  shows "requireSha256 (getp v ''recordIndexSha256'') = requireSha256 sha" and "isString sha"
  using assms by (auto simp: read_Inr soundRecord_def immutableFamilies_def requireSha256_def split: if_splits)

lemma index_totals:
  assumes "validateSgosRecord H hashBytes v = Inr r" and "getp v ''kind'' = JStr ''sgos-record-index''"
  shows "0 \<le> numberOf (getp v ''totalBytes'')" and "0 \<le> numberOf (getp v ''totalRecordCount'')"
    and "isString (getp v ''recordIndexSha256'')"
proof -
  have obj: "plainObject v" using assms(1) by (simp add: validateSgosRecord_def split: if_splits)
  have "validateSgosRecord H hashBytes v = returnValidated (validateSgosRecordIndexRecord H) v"
    using assms(2) obj by (simp add: validateSgosRecord_def recordValidators_def)
  with assms(1) have "validateSgosRecordIndexRecord H v True = Inr ()" by (auto simp: returnValidated_def andThen_Inr)
  note parts = this [unfolded validateSgosRecordIndexRecord_def Let_def checks_Inr]
  have "recordIndexTotals v = Inr ()" using parts by simp
  then show "0 \<le> numberOf (getp v ''totalBytes'')" "0 \<le> numberOf (getp v ''totalRecordCount'')"
    by (auto simp: recordIndexTotals_def Let_def andThen_Inr integerCheck_def)
  have "validateBase H ''sgos-record-index'' recordIndexFields recordIndexFields v True = Inr ()"
    using parts by (simp add: fullBase_def)
  from validateBase_Inr(4) [OF this] show "isString (getp v ''recordIndexSha256'')"
    by (auto simp: verifySelfHash_def Let_def andThen_Inr contractOf_def sgosContracts_def anonymous_def digestCheck_def)
qed

lemma read_index:
  assumes "readSgosImmutableRecord H hashBytes (recordFiles store) pid ''sgos-record-index'' sha = Inr v" and "familiesNamed store"
  shows "getp v ''recordIndexSha256'' = sha"
proof -
  have family: "map_of immutableFamilies ''sgos-record-index'' = Some ''recordIndexSha256''" by (simp add: immutableFamilies_def)
  obtain owner reference where stored: "map_of (recordFiles store) (''sgos-record-index'', reference) = Some v"
    and sound: "soundRecord H hashBytes owner ''recordIndexSha256'' sha v"
    using assms(1) unfolding read_Inr family by auto
  have kind: "getp v ''kind'' = JStr ''sgos-record-index''"
    using map_of_SomeD [OF stored] assms(2) by (auto simp: familiesNamed_def list_all_iff)
  obtain r where "validateSgosRecord H hashBytes v = Inr r" using sound by (auto simp: soundRecord_def)
  from index_totals(3) [OF this kind] show ?thesis
    using sound requireSha256_Inr by (fastforce simp: soundRecord_def isString_iff)
qed

lemma head_index_defined:
  "readSgosImmutableRecord H hashBytes files pid family sha = Inr v \<Longrightarrow> coalesce sha JNull = sha"
  by (auto simp: read_Inr soundRecord_def)

lemma sealControlEvent_stamped:
  "sealControlEvent H before after position = Inr event \<Longrightarrow>
   \<exists>fs. event = stampAndHash H ''sgos-control-event'' ''controlEventSha256'' fs"
  by (auto simp: sealControlEvent_def andThen_Inr sealSgosImmutableRecord_def immutableFamilies_def)

lemma prepared_continues:
  assumes at: "lineageAt H hashBytes (controlStore st) d ev0" and current: "current = cursorState d"
    and named: "familiesNamed (controlStore st)"
    and prepared: "prepareTransition H hashBytes st reserved leases current next updatedAt tokens = Inr pub"
    and core: "\<And>k. k \<in> set coreFields \<Longrightarrow> getp next k = getp current k"
    and mut: "next = JObj nfs" "distinct (map fst nfs)"
    and leases: "0 \<le> leaseBytes leases" "0 \<le> leaseRecords leases"
  shows "continues H hashBytes (controlStore st) d ev0 pub"
proof -
  let ?files = "recordFiles (controlStore st)" and ?pid = "getp current ''processId''"
  let ?stamped = "stampTransition current next updatedAt"
  obtain priorIndex es remaining where p:
    "assertProcessShape ?stamped = Inr ()"
    "readSgosRecordIndexHead H hashBytes ?files ?pid (getp current ''recordIndexSha256'') = Inr priorIndex"
    "sealSgosRecordIndex H ?pid (Some priorIndex) es = Inr (pubIndex pub)"
    "assertSgosRecordIndexEdge H hashBytes ?files ?pid (pubIndex pub) (Some priorIndex) True = Inr ()"
    "sealTransition H hashBytes ?files current ?stamped (pubIndex pub) = Inr (pubEvent pub, pubCandidate pub)"
    "prepareSgosControlSuccessor H hashBytes (controlStore st) remaining leases ?pid
      (successorValue current (pubEvent pub)) (pubEvent pub) (pubIndex pub) (pubCandidate pub) = Inr (pubSuccessor pub)"
    by (rule prepareTransition_Inr [OF prepared])
  have read_prior: "readSgosImmutableRecord H hashBytes ?files ?pid ''sgos-record-index'' (getp current ''recordIndexSha256'') = Inr priorIndex"
    using p(2) by (auto simp: readSgosRecordIndexHead_def andThen_Inr)
  have prior_sha: "getp priorIndex ''recordIndexSha256'' = getp current ''recordIndexSha256''" by (rule read_index [OF read_prior named])
  obtain ifs where ifs: "pubIndex pub = stampAndHash H ''sgos-record-index'' ''recordIndexSha256'' ifs"
    using sealIndex_Inr(1) [OF p(3)] by blast
  have index_sha: "getp (pubIndex pub) ''recordIndexSha256'' = JStr (hashWithout H (pubIndex pub) ''recordIndexSha256'')"
    by (rule stamped_record(1) [OF _ ifs]) simp
  obtain cfs where c: "pubCandidate pub = JObj cfs" "distinct (map fst cfs)"
    "validateSgosRecord H hashBytes (pubCandidate pub) = Inr (pubCandidate pub)" "getp (pubCandidate pub) ''kind'' = JStr ''gvm-process''"
    "assertProcessShape (pubCandidate pub) = Inr ()"
    "\<And>k. k \<in> set coreFields \<Longrightarrow> getp (pubCandidate pub) k = getp next k"
    "getp (pubEvent pub) ''processCoreSha256'' = JStr (immutableProcessCoreSha256 H current)"
    "getp (pubEvent pub) ''result'' = mutableProcessProjection (pubCandidate pub)"
    "getp (pubEvent pub) ''controlEventSha256'' = getp (pubCandidate pub) ''controlEventSha256''"
    "getp (pubEvent pub) ''recordIndexSha256'' = getp (pubCandidate pub) ''recordIndexSha256''"
    by (rule sealTransition_Inr [OF p(5) refl p(1) mut index_sha]) (rule that)
  let ?indexed = "overwrite ?stamped [(''recordIndexSha256'', getp (pubIndex pub) ''recordIndexSha256'')]"
  obtain position where pos: "nextSgosControlPosition H hashBytes ?files current ?indexed = Inr position"
    and event: "sealControlEvent H current ?indexed position = Inr (pubEvent pub)"
    and candidate: "pubCandidate pub = sealProcess H (overwrite ?indexed [(''controlEventSha256'', getp (pubEvent pub) ''controlEventSha256'')])"
    using p(5) by (auto simp: sealTransition_def Let_def andThen_Inr)
  have indexed: "getp ?indexed ''recordIndexSha256'' = JStr (hashWithout H (pubIndex pub) ''recordIndexSha256'')"
    by (simp add: index_sha overwrite_def spread_fields getp_setField)
  note e = sealControlEvent_Inr [OF event indexed]
  have prior: "readSgosImmutableRecord H hashBytes ?files ?pid ''sgos-control-event'' (getp current ''controlEventSha256'') = Inr ev0"
    using at by (simp add: lineageAt_def Let_def current)
  have head: "getp current ''controlEventSha256'' \<noteq> JNull"
    using prior by (auto simp: read_Inr soundRecord_def)
  note q = position_Inr [OF pos head prior]
  have revision: "getp (pubCandidate pub) ''processRevision'' = JNum (numberOf (getp current ''processRevision'') + 1)"
    by (simp add: candidate sealProcess_def getp_stampAndHash overwrite_def stampTransition_def spread_fields getp_setField getp_deleteField)
  obtain efs where efs: "pubEvent pub = stampAndHash H ''sgos-control-event'' ''controlEventSha256'' efs"
    using sealControlEvent_stamped [OF event] by blast
  note index_kind = sealIndex_Inr(3) [OF p(3)]
  have same_index: "getp (pubIndex pub) ''recordIndexSha256'' = getp (pubEvent pub) ''recordIndexSha256''"
    using e(3) indexed index_sha by simp
  obtain records bytes where "pubSuccessor pub = accountedSuccessor H (successorValue current (pubEvent pub)) records bytes"
    using successor_account [OF p(6)] by blast
  note s = successor_fields [OF this]
  have bounds: "numberOf (getp (pubSuccessor pub) ''cumulativeInfrastructureBytes'') \<le> maximumProcessRecordBytes
      \<and> numberOf (getp (pubSuccessor pub) ''cumulativeInfrastructureRecords'') \<le> maximumProcessRecords"
    if "validateSgosRecord H hashBytes (pubIndex pub) = Inr r" for r
    using prepared_successor [OF p(6) leases] index_totals [OF that index_kind] by blast
  have "wholeProcess H hashBytes (pubCandidate pub)" using c(1-4) by (auto simp: wholeProcess_def)
  then show ?thesis
    unfolding continues_def Let_def current [symmetric]
    using c(5-10) e(4-9) q core revision efs ifs same_index sealIndex_Inr(2) [OF p(3)] prior_sha read_prior p(4) s bounds
    by (auto simp: priorIndexValue_def head_index_defined [OF read_prior])
qed

text \<open>The new index, event and successor are in the store, and nothing follows the candidate yet.\<close>

definition published :: "hash_function \<Rightarrow> (nat list \<Rightarrow> string) \<Rightarrow> control_store \<Rightarrow> jsval \<Rightarrow> publication \<Rightarrow> bool" where
  "published H hashBytes store pid pub \<longleftrightarrow>
     readSgosImmutableRecord H hashBytes (recordFiles store) pid ''sgos-record-index''
       (getp (pubIndex pub) ''recordIndexSha256'') = Inr (pubIndex pub)
     \<and> readSgosImmutableRecord H hashBytes (recordFiles store) pid ''sgos-control-event''
       (getp (pubEvent pub) ''controlEventSha256'') = Inr (pubEvent pub)
     \<and> readSgosControlSuccessor H hashBytes (successorFiles store) pid
       (getp (pubSuccessor pub) ''beforeProcessSha256'') = Inr (Some (pubSuccessor pub))
     \<and> readSgosControlSuccessor H hashBytes (successorFiles store) pid
       (getp (pubCandidate pub) ''processSha256'') = Inr None"

lemma published_index:
  assumes cont: "continues H hashBytes old d ev0 pub" and pid: "pid = getp (cursorState d) ''processId''"
    and "extends old new" and pub: "published H hashBytes new pid pub"
  shows "readSgosRecordIndexHead H hashBytes (recordFiles new) pid (getp (pubEvent pub) ''recordIndexSha256'') = Inr (pubIndex pub)"
proof -
  have keep: "keeps (recordFiles old) (recordFiles new)" using assms(3) by (simp add: extends_def)
  obtain prior where prior: "readSgosImmutableRecord H hashBytes (recordFiles old) pid ''sgos-record-index''
      (getp (pubIndex pub) ''priorIndexSha256'') = Inr prior"
    "assertSgosRecordIndexEdge H hashBytes (recordFiles old) pid (pubIndex pub) (Some prior) True = Inr ()"
    using cont by (auto simp: continues_def Let_def pid)
  have "getp (pubIndex pub) ''priorIndexSha256'' \<noteq> JNull" using prior(1) by (auto simp: read_Inr soundRecord_def)
  moreover have "getp (pubEvent pub) ''recordIndexSha256'' = getp (pubIndex pub) ''recordIndexSha256''"
    using cont by (simp add: continues_def Let_def)
  ultimately show ?thesis
    using pub read_keeps [OF prior(1) keep] edge_keeps [OF prior(2) keep]
    by (simp add: readSgosRecordIndexHead_def published_def)
qed

lemma candidate_reconstructed:
  assumes cont: "continues H hashBytes store d ev0 pub" and base: "wholeProcess H hashBytes b"
    and core: "\<And>k. k \<in> set coreFields \<Longrightarrow> getp b k = getp (pubCandidate pub) k"
    and hash: "immutableProcessCoreSha256 H b = immutableProcessCoreSha256 H (cursorState d)"
  shows "\<exists>r. processFromControlEvent H hashBytes b (pubEvent pub) = Inr r \<and> sameUpToKeyOrder r (pubCandidate pub)
    \<and> getp r ''processSha256'' = getp (pubCandidate pub) ''processSha256'' \<and> getp r ''processId'' = getp (pubCandidate pub) ''processId''"
proof -
  have whole: "wholeProcess H hashBytes (pubCandidate pub)" using cont by (simp add: continues_def Let_def)
  obtain cfs where c: "pubCandidate pub = JObj cfs" "distinct (map fst cfs)" "fst ` set cfs = processKeys"
    by (rule whole_fields [OF whole])
  obtain bfs where b: "b = JObj bfs" "distinct (map fst bfs)" "fst ` set bfs = processKeys"
    by (rule whole_fields [OF base])
  obtain v where v: "validateSgosRecord H hashBytes (JObj cfs) = Inr v" "getp (JObj cfs) ''kind'' = JStr ''gvm-process''"
    using whole by (auto simp: wholeProcess_def c(1))
  let ?rfs = "map (\<lambda>k. (k, getp (JObj cfs) k)) mutableFields"
  have event: "getp (pubEvent pub) ''processCoreSha256'' = JStr (immutableProcessCoreSha256 H (JObj bfs))"
    "getp (pubEvent pub) ''result'' = JObj ?rfs"
    "getp (pubEvent pub) ''controlEventSha256'' = getp (JObj cfs) ''controlEventSha256''"
    "getp (pubEvent pub) ''recordIndexSha256'' = getp (JObj cfs) ''recordIndexSha256''"
    "assertProcessShape (JObj cfs) = Inr ()"
    using cont hash unfolding continues_def Let_def c(1) b(1) mutableProcessProjection_def by simp_all
  have "\<exists>fs. processFromControlEvent H hashBytes (JObj bfs) (pubEvent pub) = Inr (JObj fs) \<and> sameFields fs cfs"
  proof (rule reconstruct [where rfs = ?rfs, OF b(2) c(2) _ b(3) _ v])
    show "distinct (map fst ?rfs)" by (simp add: comp_def mutableFields_def)
    show "fst ` set ?rfs = set mutableFields" by force
    show "getp (JObj ?rfs) k = getp (JObj cfs) k" if "k \<in> set mutableFields" for k using that by (rule getp_projection)
    show "getp (JObj bfs) k = getp (JObj cfs) k" if "k \<in> set coreFields" for k using core [OF that] by (simp add: b(1) c(1))
  qed (use event in simp_all)
  then obtain fs where "processFromControlEvent H hashBytes (JObj bfs) (pubEvent pub) = Inr (JObj fs)" "sameFields fs cfs" by blast
  then show ?thesis using sameFields_order sameFields_getp by (auto simp: b(1) c(1))
qed

lemma published_replay:
  assumes at: "lineageAt H hashBytes old d ev0" and cont: "continues H hashBytes old d ev0 pub"
    and pid: "pid = getp (cursorState d) ''processId''"
    and ext: "extends old new" and pub: "published H hashBytes new pid pub"
  shows "\<exists>d'. replaySuccessor H hashBytes new False d = Inr (Some d') \<and> replaySuccessor H hashBytes new False d' = Inr None
    \<and> sameUpToKeyOrder (cursorState d') (pubCandidate pub)"
proof -
  let ?s = "cursorState d" and ?event = "pubEvent pub"
  have whole: "wholeProcess H hashBytes ?s" using at by (simp add: lineageAt_def Let_def)
  obtain r where r: "processFromControlEvent H hashBytes ?s ?event = Inr r" "sameUpToKeyOrder r (pubCandidate pub)"
    "getp r ''processSha256'' = getp (pubCandidate pub) ''processSha256''" "getp r ''processId'' = getp (pubCandidate pub) ''processId''"
    using candidate_reconstructed [OF cont whole _ refl] cont by (auto simp: continues_def Let_def)
  have same_pid: "getp (pubCandidate pub) ''processId'' = pid"
    using cont by (simp add: continues_def Let_def pid coreFields_def)
  have step: "replaySuccessor H hashBytes new False d = Inr (Some (nextCursor d ?event r))"
  proof (rule replaySuccessor_I [OF _ _ _ _ _ r(1)])
    show "readSgosControlSuccessor H hashBytes (successorFiles new) (getp ?s ''processId'') (cursorSha256 d) = Inr (Some (pubSuccessor pub))"
      using pub at cont by (simp add: published_def lineageAt_def continues_def Let_def pid)
    show "readSgosImmutableRecord H hashBytes (recordFiles new) (getp ?s ''processId'') ''sgos-control-event''
      (getp (pubSuccessor pub) ''controlEventSha256'') = Inr ?event"
      using pub cont by (simp add: published_def continues_def Let_def pid)
    show "readSgosRecordIndexHead H hashBytes (recordFiles new) (getp ?s ''processId'') (getp ?event ''recordIndexSha256'') = Inr (pubIndex pub)"
      using published_index [OF cont pid ext pub] by (simp add: pid)
    show "assertSgosControlCapacity (getp ?event ''controlDepth'') (getp ?event ''operatorTransitionCount'') = Inr ()"
      using cont unfolding continues_def Let_def by blast
    show "replayLinks False d ?event (pubIndex pub) (pubSuccessor pub)"
      using cont at by (simp add: replayLinks_def continues_def lineageAt_def Let_def)
  qed
  moreover have "replaySuccessor H hashBytes new False (nextCursor d ?event r) = Inr None"
    using pub r(3,4) same_pid by (simp add: replaySuccessor_None nextCursor_def published_def)
  ultimately show ?thesis using r(2) by (auto simp: nextCursor_def)
qed

lemma published_head:
  assumes at: "lineageAt H hashBytes old d ev0" and cont: "continues H hashBytes old d ev0 pub"
    and pid: "pid = getp (cursorState d) ''processId''" and named: "familiesNamed old"
    and ext: "extends old new" and pub: "published H hashBytes new pid pub"
  shows "assertControlHead H hashBytes new (pubCandidate pub) = Inr (headCursor (pubCandidate pub) (pubEvent pub))"
    and "replaySuccessor H hashBytes new False (headCursor (pubCandidate pub) (pubEvent pub)) = Inr None"
proof -
  let ?s = "cursorState d" and ?event = "pubEvent pub" and ?c = "pubCandidate pub"
  have keep: "keeps (recordFiles old) (recordFiles new)" using ext by (simp add: extends_def)
  have whole: "wholeProcess H hashBytes ?s" "wholeProcess H hashBytes ?c"
    using at cont by (simp_all add: lineageAt_def continues_def Let_def)
  have core: "\<And>k. k \<in> set coreFields \<Longrightarrow> getp ?c k = getp ?s k" using cont by (simp add: continues_def Let_def)
  have same_pid: "getp ?c ''processId'' = pid" using core by (simp add: pid coreFields_def)
  have hash: "immutableProcessCoreSha256 H ?c = immutableProcessCoreSha256 H ?s"
    unfolding immutableProcessCoreSha256_def using core by (auto cong: map_cong)
  obtain r where r: "processFromControlEvent H hashBytes ?c ?event = Inr r" "getp r ''processSha256'' = getp ?c ''processSha256''"
    using candidate_reconstructed [OF cont whole(2) _ hash] by blast
  have ev0: "readSgosImmutableRecord H hashBytes (recordFiles old) pid ''sgos-control-event'' (getp ?s ''controlEventSha256'') = Inr ev0"
    "getp ev0 ''recordIndexSha256'' = getp ?s ''recordIndexSha256''"
    using at by (simp_all add: lineageAt_def Let_def pid)
  obtain r0 where r0: "processFromControlEvent H hashBytes ?s ev0 = Inr r0" "getp r0 ''processSha256'' = getp ?s ''processSha256''"
    using at by (auto simp: lineageAt_def Let_def)
  obtain rfs where result: "getp ev0 ''result'' = JObj rfs" "fst ` set rfs = set mutableFields"
    using event_contract(1) [OF read_event(1,2) [OF ev0(1) named]] by blast
  obtain r1 where r1: "processFromControlEvent H hashBytes ?c ev0 = Inr r1" "getp r1 ''processSha256'' = getp ?s ''processSha256''"
    using any_base [OF whole _ result r0(1)] core r0(2) by auto
  show "assertControlHead H hashBytes new ?c = Inr (headCursor ?c ?event)"
  proof (rule assertControlHead_I [OF _ _ _ _ _ _ _ r])
    show "readSgosImmutableRecord H hashBytes (recordFiles new) (getp ?c ''processId'') ''sgos-control-event''
        (getp ?c ''controlEventSha256'') = Inr ?event"
      using pub cont by (simp add: published_def continues_def Let_def same_pid)
    show "getp ?event ''recordIndexSha256'' = getp ?c ''recordIndexSha256''" using cont by (simp add: continues_def Let_def)
    show "readSgosRecordIndexHead H hashBytes (recordFiles new) (getp ?c ''processId'') (getp ?event ''recordIndexSha256'') = Inr (pubIndex pub)"
      using published_index [OF cont pid ext pub] by (simp add: same_pid)
    show "readSgosControlSuccessor H hashBytes (successorFiles new) (getp ?c ''processId'') (getp ?event ''beforeProcessSha256'')
        = Inr (Some (pubSuccessor pub))"
      using pub cont by (simp add: published_def continues_def Let_def same_pid)
    show "assertSgosControlCapacity (getp ?event ''controlDepth'') (getp ?event ''operatorTransitionCount'') = Inr ()"
      using cont unfolding continues_def Let_def by blast
    have "getp ?event ''priorControlEventSha256'' \<noteq> JNull"
      using ev0(1) cont by (auto simp: read_Inr soundRecord_def continues_def Let_def)
    then show "expectedPosition H hashBytes new ?c ?event (pubIndex pub) = Inr (numberOf (getp ev0 ''controlDepth'') + 1,
        numberOf (getp ev0 ''operatorTransitionCount'') + operatorStep (getp ?event ''action''))"
      using read_keeps [OF ev0(1) keep] ev0(2) r1 cont
      by (simp add: expectedPosition_def Let_def continues_def same_pid)
    show "headLinks ?c ?event (pubSuccessor pub) (numberOf (getp ev0 ''controlDepth'') + 1,
        numberOf (getp ev0 ''operatorTransitionCount'') + operatorStep (getp ?event ''action''))"
      using cont by (simp add: headLinks_def continues_def Let_def)
  qed
  show "replaySuccessor H hashBytes new False (headCursor ?c ?event) = Inr None"
    using pub by (simp add: replaySuccessor_None headCursor_def published_def same_pid)
qed

section \<open>Properties\<close>

lemma reading_E:
  assumes "readSgosProcess H hashBytes st ident = Inr p" and "jsonValue (headFile st)"
  obtains owner c where "requireProcessId ident = Inr owner" and "getp (headFile st) ''processId'' = JStr owner"
    and "wholeProcess H hashBytes (headFile st)" and "getp (headFile st) ''controlEventSha256'' \<noteq> JNull"
    and "lineageStart H hashBytes (controlStore st) (headFile st) (getp (headFile st) ''processSha256'') False = Inr c"
    and "\<exists>d. replayLineage (Suc (nat maximumControlRecords)) H hashBytes (controlStore st) False c = Inr d \<and> p = cursorState d"
    and "assertProcessShape (headFile st) = Inr ()"
proof -
  obtain owner c d where r: "requireProcessId ident = Inr owner" "getp (headFile st) ''processId'' = JStr owner"
    "assertProcessShape (headFile st) = Inr ()" "\<exists>r. validateSgosRecord H hashBytes (headFile st) = Inr r"
    "getp (headFile st) ''controlEventSha256'' \<noteq> JNull"
    "lineageStart H hashBytes (controlStore st) (headFile st) (getp (headFile st) ''processSha256'') False = Inr c"
    "replayLineage (Suc (nat maximumControlRecords)) H hashBytes (controlStore st) False c = Inr d" "p = cursorState d"
    using assms(1)
    by (auto simp: readSgosProcess_def Let_def andThen_Inr ignoring_def recode_Inr reconcileSgosControlLineage_def
        simp del: replayLineage.simps)
  have "plainObject (headFile st)" using r(4) by (auto simp: validateSgosRecord_def split: if_splits)
  have "getp (headFile st) ''kind'' = JStr ''gvm-process''"
    using r(3) by (simp add: assertProcessShape_def Let_def andThen_Inr)
  moreover have "\<exists>fs. headFile st = JObj fs \<and> distinct (map fst fs)"
    using assms(2) \<open>plainObject (headFile st)\<close> by (auto simp: plainObject_iff)
  ultimately have "wholeProcess H hashBytes (headFile st)" using r(4) by (simp add: wholeProcess_def)
  then show thesis using that r by blast
qed

lemma reading_I:
  assumes "requireProcessId ident = Inr owner" and "getp (headFile st) ''processId'' = JStr owner"
    and "wholeProcess H hashBytes (headFile st)" and "assertProcessShape (headFile st) = Inr ()"
    and "getp (headFile st) ''controlEventSha256'' \<noteq> JNull"
    and "lineageStart H hashBytes (controlStore st) (headFile st) (getp (headFile st) ''processSha256'') False = Inr c"
    and "replayLineage (Suc (nat maximumControlRecords)) H hashBytes (controlStore st) False c = Inr d"
  shows "readSgosProcess H hashBytes st ident = Inr (cursorState d)"
proof -
  obtain v where "validateSgosRecord H hashBytes (headFile st) = Inr v" using assms(3) by (auto simp: wholeProcess_def)
  then show ?thesis
    using assms whole_hash(1) [OF assms(3)]
    by (simp add: readSgosProcess_def Let_def ignoring_def recode_def refuseIf_def reconcileSgosControlLineage_def
        del: replayLineage.simps)
qed

lemma same_owner:
  assumes "requireProcessId ident = Inr owner"
  shows "requireProcessId (JStr owner) = Inr owner"
  using assms by (auto simp: requireProcessId_def requireId_def Let_def andThen_Inr split: if_splits)

text \<open>
  What holds of the store \<open>st'\<close> that \<open>n\<close> writes leave: the head of \<open>st\<close> starts a lineage that still
  replays up to the cursor \<open>d\<close>, the state the transition was prepared on, and the transition continues
  it; before the third write nothing follows \<open>d\<close>, after it the successor does.
\<close>

definition midway ::
    "hash_function \<Rightarrow> (nat list \<Rightarrow> string) \<Rightarrow> process_store \<Rightarrow> process_store \<Rightarrow> publication \<Rightarrow> nat \<Rightarrow> string
     \<Rightarrow> lineage_cursor \<Rightarrow> lineage_cursor \<Rightarrow> jsval \<Rightarrow> bool" where
  "midway H hashBytes st st' pub n owner c d ev \<longleftrightarrow>
     (let old = controlStore st; new = controlStore st'; pid = JStr owner; sha = getp (headFile st) ''processSha256'' in
      requireProcessId pid = Inr owner \<and> getp (cursorState d) ''processId'' = pid \<and> getp (headFile st) ''processId'' = pid
      \<and> wholeProcess H hashBytes (headFile st) \<and> getp (headFile st) ''controlEventSha256'' \<noteq> JNull
      \<and> assertProcessShape (headFile st) = Inr ()
      \<and> lineageStart H hashBytes new (headFile st) sha False = Inr c
      \<and> replayLineage (Suc (nat maximumControlRecords)) H hashBytes old False c = Inr d
      \<and> lineageAt H hashBytes old d ev \<and> familiesNamed old \<and> continues H hashBytes old d ev pub
      \<and> extends old new \<and> headFile st' = (if n < 4 then headFile st else pubCandidate pub)
      \<and> (n < 3 \<longrightarrow> replaySuccessor H hashBytes new False d = Inr None)
      \<and> (3 \<le> n \<longrightarrow> published H hashBytes new pid pub)
      \<and> int (cursorReplayed d) + 1 < maximumControlRecords)"

lemma midway_before:
  assumes "midway H hashBytes st st' pub n owner c d ev" and "n < 3"
  shows "readSgosProcess H hashBytes st' (JStr owner) = Inr (cursorState d)"
proof -
  note m = assms(1) [unfolded midway_def Let_def]
  have "replaySuccessor H hashBytes (controlStore st') False d = Inr None" using m assms(2) by blast
  then have "replayLineage (Suc (nat maximumControlRecords)) H hashBytes (controlStore st') False c = Inr d"
    using m replay_extends by blast
  then show ?thesis using m assms(2) reading_I [of "JStr owner" owner st'] by simp
qed

lemma midway_successor:
  assumes "midway H hashBytes st st' pub 3 owner c d ev"
  shows "\<exists>seen. readSgosProcess H hashBytes st' (JStr owner) = Inr seen \<and> sameUpToKeyOrder seen (pubCandidate pub)"
proof -
  note m = assms [unfolded midway_def Let_def]
  have at: "lineageAt H hashBytes (controlStore st) d ev" and cont: "continues H hashBytes (controlStore st) d ev pub"
    and ext: "extends (controlStore st) (controlStore st')" and pub: "published H hashBytes (controlStore st') (JStr owner) pub"
    and owner: "JStr owner = getp (cursorState d) ''processId''"
    and run: "replayLineage (Suc (nat maximumControlRecords)) H hashBytes (controlStore st) False c = Inr d"
    and depth: "int (cursorReplayed d) + 1 < maximumControlRecords" using m by auto
  obtain d' where d': "replaySuccessor H hashBytes (controlStore st') False d = Inr (Some d')"
    "replaySuccessor H hashBytes (controlStore st') False d' = Inr None" "sameUpToKeyOrder (cursorState d') (pubCandidate pub)"
    using published_replay [OF at cont owner ext pub] by blast
  have "cursorReplayed d + 1 < cursorReplayed c + Suc (nat maximumControlRecords)" using depth by linarith
  from replay_one_more [OF run ext d'(1,2) this]
  have "readSgosProcess H hashBytes st' (JStr owner) = Inr (cursorState d')"
    using m reading_I [of "JStr owner" owner st'] by simp
  then show ?thesis using d'(3) by blast
qed

lemma midway_head:
  assumes "midway H hashBytes st st' pub 4 owner c d ev"
  shows "readSgosProcess H hashBytes st' (JStr owner) = Inr (pubCandidate pub)"
proof -
  note m = assms [unfolded midway_def Let_def]
  have at: "lineageAt H hashBytes (controlStore st) d ev" and cont: "continues H hashBytes (controlStore st) d ev pub"
    and ext: "extends (controlStore st) (controlStore st')" and pub: "published H hashBytes (controlStore st') (JStr owner) pub"
    and owner: "JStr owner = getp (cursorState d) ''processId''" and named: "familiesNamed (controlStore st)"
    and head: "headFile st' = pubCandidate pub" and pid: "requireProcessId (JStr owner) = Inr owner" using m by auto
  note k = cont [unfolded continues_def Let_def]
  let ?c = "headCursor (pubCandidate pub) (pubEvent pub)"
  note h = published_head [OF at cont owner named ext pub]
  obtain efs where event: "pubEvent pub = stampAndHash H ''sgos-control-event'' ''controlEventSha256'' efs" using k by blast
  have linked: "getp (pubCandidate pub) ''controlEventSha256'' \<noteq> JNull" using stamped_record(1) [OF _ event] k by auto
  have "lineageStart H hashBytes (controlStore st') (headFile st') (getp (headFile st') ''processSha256'') False = Inr ?c"
    using h(1) linked by (simp add: lineageStart_def head)
  moreover have "replayLineage (Suc (nat maximumControlRecords)) H hashBytes (controlStore st') False ?c = Inr ?c"
    using h(2) by simp
  ultimately have "readSgosProcess H hashBytes st' (JStr owner) = Inr (cursorState ?c)"
    using reading_I [of "JStr owner" owner st'] k pid linked owner by (simp add: head coreFields_def)
  then show ?thesis by (simp add: headCursor_def)
qed

lemma midway_I:
  assumes reading: "readSgosProcess H hashBytes st (getp current ''processId'') = Inr current"
    and prepared: "prepareTransition H hashBytes st reserved leases current next updatedAt tokens = Inr pub"
    and core: "\<forall>k \<in> set coreFields. getp next k = getp current k"
    and json: "jsonValue (headFile st)" "jsonValue next" "plainObject next"
    and leases: "0 \<le> leaseBytes leases" "0 \<le> leaseRecords leases"
    and store: "familiesNamed (controlStore st)" "conflictFree st pub"
    and fresh: "getp (pubCandidate pub) ''processSha256'' \<noteq> getp current ''processSha256''"
      "map_of (successorFiles (controlStore st)) (stringOf (getp (pubCandidate pub) ''processSha256'')) = None"
    and run: "publishPrefix n H hashBytes (getp current ''processId'') pub st = Inr st'" "n \<le> 4"
  obtains owner c d ev where "midway H hashBytes st st' pub n owner c d ev" and "current = cursorState d"
    and "getp current ''processId'' = JStr owner"
    and "publishPrefix n H hashBytes (JStr owner) pub st' = Inr st'"
proof -
  let ?pid = "getp current ''processId''" and ?old = "controlStore st" and ?new = "controlStore st'"
  obtain owner c d where r: "requireProcessId ?pid = Inr owner" "getp (headFile st) ''processId'' = JStr owner"
    "wholeProcess H hashBytes (headFile st)" "getp (headFile st) ''controlEventSha256'' \<noteq> JNull"
    "lineageStart H hashBytes ?old (headFile st) (getp (headFile st) ''processSha256'') False = Inr c"
    "replayLineage (Suc (nat maximumControlRecords)) H hashBytes ?old False c = Inr d"
    "current = cursorState d" "assertProcessShape (headFile st) = Inr ()"
    by (rule reading_E [OF reading json(1)]) (metis that)
  obtain ev where at: "lineageAt H hashBytes ?old d ev" and final: "replaySuccessor H hashBytes ?old False d = Inr None"
    using lineage_start [OF r(5,3,4)] lineage_replay [OF r(6) _ store(1)] by blast
  obtain nfs where mut: "next = JObj nfs" "distinct (map fst nfs)" using json(2,3) by (auto simp: plainObject_iff)
  have cont: "continues H hashBytes ?old d ev pub"
    by (rule prepared_continues [OF at r(7) store(1) prepared _ mut leases]) (use core in simp)
  note k = cont [unfolded continues_def Let_def, folded r(7)]
  obtain ifs efs where seals: "pubIndex pub = stampAndHash H ''sgos-record-index'' ''recordIndexSha256'' ifs"
    "pubEvent pub = stampAndHash H ''sgos-control-event'' ''controlEventSha256'' efs" using k by blast
  have earlier: "getp (pubSuccessor pub) ''beforeProcessSha256'' = getp current ''processSha256''" using k by blast
  have whole: "wholeProcess H hashBytes current" and sha: "cursorSha256 d = getp current ''processSha256''"
    using at by (simp_all add: lineageAt_def Let_def r(7))
  have new: "map_of (successorFiles ?old) (jsString (getp (pubSuccessor pub) ''beforeProcessSha256'')) = None"
    using final whole_hash [OF whole] unfolding replaySuccessor_None successor_None earlier sha r(7) [symmetric] by auto
  have "getp (pubSuccessor pub) ''successorSha256'' = JStr (hashWithout H (pubSuccessor pub) ''successorSha256'')"
    and "\<forall>r. validateSgosRecord H hashBytes (pubIndex pub) = Inr r \<longrightarrow>
      numberOf (getp (pubSuccessor pub) ''cumulativeInfrastructureBytes'') \<le> maximumProcessRecordBytes \<and>
      numberOf (getp (pubSuccessor pub) ''cumulativeInfrastructureRecords'') \<le> maximumProcessRecords" using k by blast+
  note stage = stages [OF run seals store(2) new this]
  have pid: "?pid = JStr owner"
    using process_id [OF whole] r(1) by (auto simp: requireProcessId_def requireId_def Let_def andThen_Inr isString_iff split: if_splits)
  have start: "lineageStart H hashBytes ?new (headFile st) (getp (headFile st) ''processSha256'') False = Inr c"
    using r(4,5) controlHead_extends [OF _ stage(1)] by (simp add: lineageStart_def)
  have depth: "int (cursorReplayed d) + 1 < maximumControlRecords"
    using at k capacity_depth [of "getp (pubEvent pub) ''controlDepth''"] unfolding lineageAt_def Let_def by fastforce
  have published: "published H hashBytes ?new (JStr owner) pub" if "3 \<le> n"
  proof -
    have candidate: "wholeProcess H hashBytes (pubCandidate pub)" using k by blast
    have "map_of (successorFiles ?new) (hashWithout H (pubCandidate pub) ''processSha256'') = None"
      using fresh whole_hash(1) [OF candidate] whole_hash(1) [OF whole] unfolding stage(4) [OF that] earlier by (auto simp: map_add_def)
    then show ?thesis
      using stage(5-7) [OF that] r(1) whole_hash(2) [OF candidate] by (auto simp: published_def successor_None pid)
  qed
  have "n < 3 \<Longrightarrow> replaySuccessor H hashBytes ?new False d = Inr None" using final stage(3) by (simp add: replaySuccessor_None)
  then have "midway H hashBytes st st' pub n owner c d ev"
    using r at store(1) cont stage(1,2) start depth published pid by (auto simp: midway_def)
  then show thesis using that r(7) pid stage(8) by metis
qed

lemma run_json: "jsonValue crashHead" "jsonValue crashNext"
  by code_simp+



end
