(* ===== verification/Spec2Isabelle.thy ===== *)
theory Spec2Isabelle
  imports SgosMaterialization SgosGraph SgosContracts SgosProgramRead SgosRecovery
begin

text \<open>
  A model of the core of SGOS, the part of Singularity Flow under \<open>src/sgos\<close> that turns a ratified
  workflow into an immutable Program, materializes the Program as a Process, schedules its tasks and
  keeps every step as a hashed, contract-checked record.

  \<^bold>\<open>How the parts interact.\<close> The compiler (\<open>compiler.mjs\<close>) reads an intent, a workflow, its
  ratification, a registry snapshot and a Capability Pack authority, validates each against its
  contract (\<open>contracts.mjs\<close>), expands fan-outs (\<open>fanout.mjs\<close>), translates each task, checks the
  whole graph, canonicalizes the joins (\<open>joins.mjs\<close>) and creates the Program record.
  \<open>materialization.mjs\<close> instantiates the tasks of a Program in a Process; \<open>scheduler.mjs\<close> decides
  which of them are ready and selects a dispatch plan free of resource conflicts
  (\<open>resource-contracts.mjs\<close>); \<open>joins.mjs\<close> decides joins and reduces their outputs. The store
  (\<open>store.mjs\<close>) seals every transition of a Process as a control event, a record index and a
  successor, publishes them in order and replays them when the Process is read. All sorting and
  all identity rest on \<open>order.mjs\<close> and on the canonical text of \<open>records.mjs\<close>.

  \<^bold>\<open>The theories, bottom up.\<close>

  \<^item> \<open>SgosPrelude\<close>: results (\<open>sgos_error + 'a\<close>: a coded error or the language's own \<open>TypeError\<close>),
    checks, folds over results, association lists. \<open>JsValue\<close>: the dynamic values, property access,
    spreading, conversions. The evaluation of characters by their bits is proved equal to the
    definitions by code points; \<open>JsEvaluation\<close> holds the other equations for evaluation, about
    lookups, equality and printed numbers.
  \<^item> \<open>SgosOrder\<close>: \<open>order.mjs\<close>, \<open>limits.mjs\<close>; sorting with a comparator as locales
    \<open>sort_comparator\<close> and \<open>strict_comparator\<close>, interpreted on every comparator of the code.
    \<open>CanonicalJson\<close>: \<open>records.mjs\<close>. SHA-256 is the parameter \<open>H\<close>, a function from texts to
    hexadecimal digests. \<open>CanonicalText\<close>: the canonical text identifies a JSON value up to the
    order of its keys.
  \<^item> \<open>SgosPaths\<close>: \<open>paths.mjs\<close>. \<open>SgosResources\<close>: \<open>resource-contracts.mjs\<close>. \<open>SgosJoins\<close>:
    \<open>joins.mjs\<close>. \<open>SgosFanout\<close>: \<open>fanout.mjs\<close>. \<open>SgosProgram\<close>: Program and Process data.
  \<^item> \<open>SgosScheduler\<close>: \<open>scheduler.mjs\<close>. \<open>SgosMaterialization\<close>: \<open>materialization.mjs\<close>.
  \<^item> \<open>SgosGraph\<close>: the graph algorithms of \<open>compiler.mjs\<close> and \<open>simulation.mjs\<close> (topological
    order, reachability, waves) with their declarative meaning.
  \<^item> \<open>SgosContract\<close>: the contract machinery of \<open>contracts.mjs\<close>; \<open>SgosContractsWork\<close>,
    \<open>SgosContractsReceipts\<close>, \<open>SgosContractsFork\<close>, \<open>SgosContractsProcess\<close>,
    \<open>SgosContractsControl\<close>, \<open>SgosContractsEvidence\<close>: its record families, each with record
    validator, creator and reader; \<open>SgosCandidates\<close> and \<open>SgosLeases\<close>: what the candidate and lease
    contracts guarantee; \<open>SgosContracts\<close>: the dispatch over the families. The locale of a created
    and read-back record is interpreted for every family.
  \<^item> \<open>SgosCompilerInput\<close>, \<open>SgosCompilerRegistry\<close>, \<open>SgosCompilerFanout\<close>, \<open>SgosCompilerTasks\<close>,
    \<open>SgosCompilerGraph\<close>, \<open>SgosCompiler\<close>: \<open>compiler.mjs\<close> in the order of its stages;
    \<open>SgosCapabilityPack\<close>: the authority part of \<open>capability-pack-authority.mjs\<close>;
    \<open>SgosSimulation\<close>: \<open>simulation.mjs\<close>; \<open>SgosProgramRead\<close>: the reading, explanation and
    recompilation of a stored Program.
  \<^item> \<open>SgosControl\<close>: the control lineage of \<open>store.mjs\<close>: immutable records, the rooted index, control
    events, successors, \<open>reconcileSgosControlLineage\<close>. \<open>SgosPublication\<close>: what
    \<open>mutateSgosProcess\<close> prepares and \<open>publishSgosTransitionIntent\<close> writes. The state is a
    \<open>process_store\<close>: association lists from content addresses to the records of the files, and the
    head (\<open>state.json\<close>). \<open>SgosFields\<close>: records equal up to key order under the object operations.
    \<open>SgosReconstruct\<close>: a control event reconstructs the Process it was sealed from.
    \<open>SgosLineage\<close>: the invariant of the lineage under replay, and reading as files are added.
    \<open>SgosCrashRun\<close>: one run evaluated from reading to publication. \<open>SgosRecovery\<close>: what a crash
    between two writes leaves.

  \<^bold>\<open>What the lemmas show.\<close> A compiled Program is accepted by its contract, acyclic, closed under
  predecessors, leads every task to END, and leaves unordered tasks free of conflicts; the run-time
  scheduler's conflict test then clears them. A task template is well typed, and the expansion of
  fan-outs terminates. A materialized Process is accepted by the durable check and its stored states
  agree with the scheduler. A dispatch plan is safe, bounded, independent of enumeration order and
  not empty while a task is ready. Joins, fan-outs, leases and candidate snapshots have canonical
  forms that do not depend on the order of their input. Records read back as created, carry their
  own hash, and equal hashes mean equal content up to a collision of \<open>H\<close>. The critical path of a
  simulation is longest, a what-if report blocks exactly the tasks concerned, and a stored Program
  explains itself as the compiler did. A transition interrupted between any two of its writes is read
  as not begun or as done, and publishing it again completes it.

  \<^bold>\<open>Bounds and fuel.\<close> The loops are structural, or terminate by a measure (worklists by the unseen
  vertices, \<open>expandTask\<close> by the nesting depth left). Where the code itself counts rounds, so does the
  model: \<open>replayLineage\<close> runs the \<open>maximumControlRecords + 1\<close> rounds of the code and then fails with
  its error (a lineage the capacity check admits is never longer), \<open>walkIndexes\<close> its
  \<open>maximumProcessRecords\<close>, \<open>settleBytes\<close> its eight. \<open>expandWithin n\<close> states
  that five nested calls are enough, because the code refuses a nesting depth of five. Numbers are
  unbounded integers where the code first establishes safe integers, and keep their printed form
  where it does not.

  \<^bold>\<open>Not modelled.\<close> Everything that is a protocol with the host. Of \<open>store.mjs\<close>: files, links and
  locks (a file stands for the record it holds), the guards on a mutation (replay, fan-out and fork
  authority), the census of the records a Process refers to, the journal file of the intent, the
  operational store behind the head, quarantine and archive, and Processes stored at an older schema
  version. Beyond it: \<open>operational-store.mjs\<close>, the runtime loop (\<open>runtime.mjs\<close>), adapters and
  devices, authority transports, the loading of Packs and trust manifests from disk, the command line
  and the editor extension. Error messages and \<open>details\<close> objects are left out, error codes are kept.
  Records are immutable here, so \<open>deepFreeze\<close> and \<open>structuredClone\<close> of valid JSON are identities.
\<close>

end
